(* ===== verification/Prelude.thy ===== *)
theory Prelude
  imports Main "HOL-Library.Char_ord" "HOL-Library.List_Lexorder" "HOL-Library.AList"
    "HOL-Library.Code_Target_Nat" "HOL-Library.Code_Target_Int"
begin

text \<open>
  Shared vocabulary of the development: the outcome type of a Rust call that can panic or
  recurse for ever, ordered maps as association lists, and the lemmas about lists and options
  that several components use.
\<close>

named_theorems run_simps \<open>equations of the outcome type\<close>
named_theorems str_simps \<open>equations of the byte-string operations\<close>

section \<open>Outcomes of a call\<close>

text \<open>
  \<open>Done x\<close> is a normal return. \<open>Panic\<close> is a Rust panic (a slice off a character boundary, a
  remainder that overflows). \<open>Fuel\<close> says that the recursion budget of a model of a recursive
  function was spent; a function that is \<open>Fuel\<close> for every budget recurses until the stack
  overflows.
\<close>

datatype 'a run = Done 'a | Panic | Fuel

fun run_bind :: "'a run \<Rightarrow> ('a \<Rightarrow> 'b run) \<Rightarrow> 'b run" where
  "run_bind (Done x) f = f x"
| "run_bind Panic f = Panic"
| "run_bind Fuel f = Fuel"

fun run_map :: "('a \<Rightarrow> 'b) \<Rightarrow> 'a run \<Rightarrow> 'b run" where
  "run_map f (Done x) = Done (f x)"
| "run_map f Panic = Panic"
| "run_map f Fuel = Fuel"

text \<open>
  Running the calls of a list one after the other, where each pushes entries to a shared vector:
  the entries are appended in order and the first abnormal outcome ends the sequence.
\<close>

fun run_concat :: "'a list run list \<Rightarrow> 'a list run" where
  "run_concat [] = Done []"
| "run_concat (r # rs) = run_bind r (\<lambda>xs. run_map (\<lambda>ys. xs @ ys) (run_concat rs))"

text \<open>\<open>filter(..).count()\<close> and the short-circuiting \<open>any(..)\<close> over calls.\<close>

fun run_count :: "bool run list \<Rightarrow> nat run" where
  "run_count [] = Done 0"
| "run_count (r # rs) = run_bind r (\<lambda>b. run_map (\<lambda>k. if b then Suc k else k) (run_count rs))"

fun run_any :: "bool run list \<Rightarrow> bool run" where
  "run_any [] = Done False"
| "run_any (r # rs) = run_bind r (\<lambda>b. if b then Done True else run_any rs)"

text \<open>
  The model of a recursive function is monotone in its fuel when more fuel keeps every outcome
  that is not \<open>Fuel\<close>.
\<close>

definition run_le :: "'a run \<Rightarrow> 'a run \<Rightarrow> bool" where
  "run_le r r' \<longleftrightarrow> r = Fuel \<or> r = r'"

lemma run_le_refl [simp, intro]: "run_le r r"
  by (simp add: run_le_def)

lemma run_le_Fuel [simp]: "run_le Fuel r"
  by (simp add: run_le_def)

lemma run_le_trans: "run_le a b \<Longrightarrow> run_le b c \<Longrightarrow> run_le a c"
  by (auto simp: run_le_def)

lemma run_le_bind:
  assumes "run_le m m'" and "\<And>x. run_le (f x) (f' x)"
  shows "run_le (run_bind m f) (run_bind m' f')"
  using assms by (cases m; cases m') (auto simp: run_le_def)

lemma run_le_map: "run_le m m' \<Longrightarrow> run_le (run_map f m) (run_map f m')"
  by (cases m) (auto simp: run_le_def)

lemma run_le_concat:
  "list_all2 run_le rs rs' \<Longrightarrow> run_le (run_concat rs) (run_concat rs')"
  by (induction rs rs' rule: list_all2_induct) (auto intro!: run_le_bind run_le_map)

lemma run_le_concat_map:
  "(\<And>x. x \<in> set xs \<Longrightarrow> run_le (f x) (g x)) \<Longrightarrow> run_le (run_concat (map f xs)) (run_concat (map g xs))"
  by (intro run_le_concat) (simp add: list_all2_conv_all_nth)

lemma run_le_count: "list_all2 run_le rs rs' \<Longrightarrow> run_le (run_count rs) (run_count rs')"
  by (induction rs rs' rule: list_all2_induct) (auto intro!: run_le_bind run_le_map)

lemma run_le_any: "list_all2 run_le rs rs' \<Longrightarrow> run_le (run_any rs) (run_any rs')"
  by (induction rs rs' rule: list_all2_induct) (auto intro!: run_le_bind)

lemma run_count_not_Fuel: "(\<And>r. r \<in> set rs \<Longrightarrow> r \<noteq> Fuel) \<Longrightarrow> run_count rs \<noteq> Fuel"
proof (induction rs)
  case (Cons r rs)
  then have "r \<noteq> Fuel" and "run_count rs \<noteq> Fuel" by simp_all
  then show ?case by (cases r; cases "run_count rs") auto
qed simp

lemma run_any_not_Fuel: "(\<And>r. r \<in> set rs \<Longrightarrow> r \<noteq> Fuel) \<Longrightarrow> run_any rs \<noteq> Fuel"
proof (induction rs)
  case (Cons r rs)
  then have "r \<noteq> Fuel" and "run_any rs \<noteq> Fuel" by simp_all
  then show ?case by (cases r) auto
qed simp

lemma run_bind_Done_iff [simp]:
  "run_bind m f = Done y \<longleftrightarrow> (\<exists>x. m = Done x \<and> f x = Done y)"
  by (cases m) auto

lemma run_map_Done_iff [simp]: "run_map f m = Done y \<longleftrightarrow> (\<exists>x. m = Done x \<and> y = f x)"
  by (cases m) auto

lemma run_map_Fuel_iff [simp]: "run_map f m = Fuel \<longleftrightarrow> m = Fuel"
  by (cases m) auto

lemma Fuel_eq_iff [run_simps]: "Fuel = m \<longleftrightarrow> m = Fuel"
  by auto

lemma run_bind_not_Fuel:
  "m \<noteq> Fuel \<Longrightarrow> (\<And>x. m = Done x \<Longrightarrow> f x \<noteq> Fuel) \<Longrightarrow> run_bind m f \<noteq> Fuel"
  by (cases m) auto

lemma run_map_not_Fuel: "m \<noteq> Fuel \<Longrightarrow> run_map f m \<noteq> Fuel"
  by (cases m) auto

lemma run_concat_not_Fuel: "(\<And>r. r \<in> set rs \<Longrightarrow> r \<noteq> Fuel) \<Longrightarrow> run_concat rs \<noteq> Fuel"
proof (induction rs)
  case (Cons r rs)
  then have "r \<noteq> Fuel" and "run_concat rs \<noteq> Fuel" by simp_all
  then show ?case by (cases r; cases "run_concat rs") auto
qed simp

lemma run_concat_Done:
  "run_concat rs = Done ys \<longleftrightarrow> (\<exists>xss. rs = map Done xss \<and> ys = concat xss)"
proof (induction rs arbitrary: ys)
  case Nil
  then show ?case by auto
next
  case (Cons r rs)
  show ?case
  proof
    assume "run_concat (r # rs) = Done ys"
    then obtain xs zs where "r = Done xs" "run_concat rs = Done zs" "ys = xs @ zs" by auto
    moreover from this(2) obtain xss where "rs = map Done xss" "zs = concat xss"
      using Cons.IH by blast
    ultimately show "\<exists>xss. r # rs = map Done xss \<and> ys = concat xss"
      by (intro exI [of _ "xs # xss"]) simp
  next
    assume "\<exists>xss. r # rs = map Done xss \<and> ys = concat xss"
    then obtain x xs' where eq: "r = Done x" "rs = map Done xs'" "ys = x @ concat xs'"
      by (auto simp: Cons_eq_map_conv)
    then have "run_concat rs = Done (concat xs')" using Cons.IH by auto
    with eq show "run_concat (r # rs) = Done ys" by simp
  qed
qed

section \<open>Budgets\<close>

text \<open>\<open>settles r\<close>: the outcome \<open>r n\<close> is not an exhausted budget once \<open>n\<close> is large enough.\<close>

definition settles :: "(nat \<Rightarrow> 'a run) \<Rightarrow> bool" where
  "settles r \<longleftrightarrow> (\<exists>n. \<forall>m \<ge> n. r m \<noteq> Fuel)"

lemma settles_const: "x \<noteq> Fuel \<Longrightarrow> settles (\<lambda>n. x)"
  by (simp add: settles_def)

lemma settles_map: "settles r \<Longrightarrow> settles (\<lambda>n. run_map f (r n))"
  by (simp add: settles_def)

lemma settles_both: "settles r \<Longrightarrow> settles q \<Longrightarrow> \<exists>n. \<forall>m \<ge> n. r m \<noteq> Fuel \<and> q m \<noteq> Fuel"
  unfolding settles_def by (metis le_trans nat_le_linear)

lemma settles_if_then:
  assumes "settles r" and "settles q"
  shows "settles (\<lambda>n. run_bind (r n) (\<lambda>ok. if ok then Done [] else q n))"
proof -
  from settles_both [OF assms] obtain n where "\<forall>m \<ge> n. r m \<noteq> Fuel \<and> q m \<noteq> Fuel" by blast
  then have "run_bind (r m) (\<lambda>ok. if ok then Done [] else q m) \<noteq> Fuel" if "n \<le> m" for m
    using that by (cases "r m") auto
  then show ?thesis unfolding settles_def by blast
qed

lemma settles_if: "settles r \<Longrightarrow> settles q \<Longrightarrow> settles (\<lambda>n. if b then r n else q n)"
  by (cases b) simp_all

lemma settles_option:
  "settles r \<Longrightarrow> (\<And>x. o' = Some x \<Longrightarrow> settles (q x)) \<Longrightarrow>
   settles (\<lambda>n. case o' of None \<Rightarrow> r n | Some x \<Rightarrow> q x n)"
  by (cases o') simp_all

lemma settles_all:
  "(\<And>x. x \<in> set xs \<Longrightarrow> settles (r x)) \<Longrightarrow> \<exists>n. \<forall>m \<ge> n. \<forall>x \<in> set xs. r x m \<noteq> Fuel"
proof (induction xs)
  case (Cons x xs)
  then obtain n k where "\<forall>m \<ge> n. \<forall>x \<in> set xs. r x m \<noteq> Fuel" "\<forall>m \<ge> k. r x m \<noteq> Fuel"
    unfolding settles_def by (metis list.set_intros)
  then show ?case by (intro exI [of _ "max n k"]) simp
qed simp

lemma settles_concat:
  assumes "\<And>x. x \<in> set xs \<Longrightarrow> settles (r x)"
  shows "settles (\<lambda>n. run_concat (map (\<lambda>x. r x n) xs))"
proof -
  from settles_all [of xs r, OF assms] obtain n where n: "\<forall>m \<ge> n. \<forall>x \<in> set xs. r x m \<noteq> Fuel" by blast
  then have "run_concat (map (\<lambda>x. r x m) xs) \<noteq> Fuel" if "n \<le> m" for m
    using that by (intro run_concat_not_Fuel) auto
  then show ?thesis unfolding settles_def by blast
qed

lemma settles_any:
  assumes "\<And>x. x \<in> set xs \<Longrightarrow> settles (r x)"
  shows "settles (\<lambda>n. run_any (map (\<lambda>x. r x n) xs))"
proof -
  from settles_all [of xs r, OF assms] obtain n where n: "\<forall>m \<ge> n. \<forall>x \<in> set xs. r x m \<noteq> Fuel" by blast
  then have "run_any (map (\<lambda>x. r x m) xs) \<noteq> Fuel" if "n \<le> m" for m
    using that by (intro run_any_not_Fuel) auto
  then show ?thesis unfolding settles_def by blast
qed

lemma run_concat_snoc:
  "run_concat (rs @ [x]) = run_bind (run_concat rs) (\<lambda>ys. run_map (\<lambda>zs. ys @ zs) x)"
proof (induction rs)
  case Nil
  then show ?case by (cases x) simp_all
next
  case (Cons r rs)
  then show ?case by (cases r; cases "run_concat rs"; cases x) simp_all
qed

lemma settles_append:
  assumes "settles (\<lambda>n. run_concat (map (\<lambda>x. r x n) xs))" and "settles q"
  shows "settles (\<lambda>n. run_concat (map (\<lambda>x. r x n) xs @ [q n]))"
proof -
  from settles_both [OF assms] obtain n where
    "\<forall>m \<ge> n. run_concat (map (\<lambda>x. r x m) xs) \<noteq> Fuel \<and> q m \<noteq> Fuel" by blast
  then have "run_concat (map (\<lambda>x. r x m) xs @ [q m]) \<noteq> Fuel" if "n \<le> m" for m
    unfolding run_concat_snoc using that by (intro run_bind_not_Fuel run_map_not_Fuel) simp_all
  then show ?thesis unfolding settles_def by blast
qed

section \<open>Maps as association lists\<close>

text \<open>
  \<open>HashMap\<close> and \<open>IndexMap\<close> values are association lists with distinct keys, in iteration order;
  lookup is \<open>map_of\<close>. \<open>find_entry\<close> is \<open>iter().find(|(k, _)| p k).map(|(_, v)| v)\<close>.
\<close>

type_synonym 'v str_map = "(string \<times> 'v) list"

definition wf_map :: "('k \<times> 'v) list \<Rightarrow> bool" where
  "wf_map m \<longleftrightarrow> distinct (map fst m)"

definition find_entry :: "('k \<Rightarrow> bool) \<Rightarrow> ('k \<times> 'v) list \<Rightarrow> 'v option" where
  "find_entry p m = map_option snd (find (\<lambda>e. p (fst e)) m)"

lemma find_entry_simps [simp]:
  "find_entry p [] = None"
  "find_entry p (e # m) = (if p (fst e) then Some (snd e) else find_entry p m)"
  by (simp_all add: find_entry_def)

lemma find_entry_None_iff: "find_entry p m = None \<longleftrightarrow> (\<forall>k v. (k, v) \<in> set m \<longrightarrow> \<not> p k)"
  by (induction m) (auto, blast+)

lemma find_entry_SomeD: "find_entry p m = Some v \<Longrightarrow> \<exists>k. (k, v) \<in> set m \<and> p k"
  by (induction m) (auto split: if_splits)

text \<open>
  The entry found does not depend on the iteration order as soon as at most one key satisfies the
  predicate.
\<close>

lemma find_entry_unique:
  assumes "(k, v) \<in> set m" and "p k" and "\<And>k' v'. (k', v') \<in> set m \<Longrightarrow> p k' \<Longrightarrow> v' = v"
  shows "find_entry p m = Some v"
proof -
  from assms(1,2) have "find_entry p m \<noteq> None" by (auto simp: find_entry_None_iff)
  then obtain w where w: "find_entry p m = Some w" by blast
  then obtain k' where "(k', w) \<in> set m" "p k'" using find_entry_SomeD by fast
  with assms(3) w show ?thesis by blast
qed

lemma find_entry_perm:
  assumes "set m = set m'"
    and "\<And>k v k' v'. (k, v) \<in> set m \<Longrightarrow> (k', v') \<in> set m \<Longrightarrow> p k \<Longrightarrow> p k' \<Longrightarrow> v' = v"
  shows "find_entry p m = find_entry p m'"
proof (cases "find_entry p m")
  case None
  then have "find_entry p m' = None" using assms(1) by (simp add: find_entry_None_iff)
  with None show ?thesis by simp
next
  case (Some v)
  then obtain k where "(k, v) \<in> set m" "p k" using find_entry_SomeD by fast
  then have "find_entry p m' = Some v"
    using assms by (intro find_entry_unique [of k v]) auto
  with Some show ?thesis by simp
qed

lemma map_of_find_entry: "map_of m k = find_entry (\<lambda>k'. k' = k) m"
  by (induction m) auto

section \<open>Options\<close>

fun or_else :: "'a option \<Rightarrow> 'a option \<Rightarrow> 'a option" where
  "or_else (Some x) y = Some x"
| "or_else None y = y"

lemma or_else_assoc: "or_else (or_else a b) c = or_else a (or_else b c)"
  by (cases a) auto

lemma or_else_None [simp]: "or_else a None = a"
  by (cases a) auto

lemma or_else_Some_iff: "or_else a b = Some x \<longleftrightarrow> a = Some x \<or> a = None \<and> b = Some x"
  by (cases a) auto

fun unwrap_or :: "'a option \<Rightarrow> 'a \<Rightarrow> 'a" where
  "unwrap_or (Some x) d = x"
| "unwrap_or None d = d"

text \<open>\<open>find_map f xs\<close> is the first \<open>Some\<close> that \<open>f\<close> yields along the list.\<close>

fun find_map :: "('a \<Rightarrow> 'b option) \<Rightarrow> 'a list \<Rightarrow> 'b option" where
  "find_map f [] = None"
| "find_map f (x # xs) = (case f x of Some y \<Rightarrow> Some y | None \<Rightarrow> find_map f xs)"

lemma find_map_SomeD: "find_map f xs = Some y \<Longrightarrow> \<exists>x \<in> set xs. f x = Some y"
  by (induction xs) (auto split: option.splits)

lemma find_map_None_iff: "find_map f xs = None \<longleftrightarrow> (\<forall>x \<in> set xs. f x = None)"
  by (induction xs) (auto split: option.splits)

lemma find_SomeD: "find p xs = Some x \<Longrightarrow> x \<in> set xs \<and> p x"
  by (induction xs) (auto split: if_splits)

section \<open>The first maximum of a list\<close>

text \<open>A running maximum that only a strictly larger key replaces.\<close>

definition pick :: "nat \<times> 'a \<Rightarrow> (nat \<times> 'a) option \<Rightarrow> (nat \<times> 'a) option" where
  "pick x acc = (case acc of None \<Rightarrow> Some x | Some b \<Rightarrow> if fst b < fst x then Some x else acc)"

lemma pick_simps [simp]:
  "pick x None = Some x"
  "pick x (Some b) = (if fst b < fst x then Some x else Some b)"
  by (simp_all add: pick_def)

lemma fold_pick_None_iff: "fold pick xs acc = None \<longleftrightarrow> acc = None \<and> xs = []"
  by (induction xs arbitrary: acc) (auto simp: pick_def split: option.splits)

lemma fold_pick_Some:
  "fold pick xs (Some b) = Some y \<Longrightarrow>
     (y = b \<and> (\<forall>x \<in> set xs. fst x \<le> fst b)) \<or>
     (\<exists>pre post. xs = pre @ y # post \<and> fst b < fst y
        \<and> (\<forall>x \<in> set pre. fst x < fst y) \<and> (\<forall>x \<in> set post. fst x \<le> fst y))"
proof (induction xs arbitrary: b)
  case (Cons x xs)
  show ?case
  proof (cases "fst b < fst x")
    case True
    with Cons.prems have "fold pick xs (Some x) = Some y" by simp
    from Cons.IH [OF this] show ?thesis
    proof (elim disjE exE conjE)
      assume "y = x" "\<forall>z \<in> set xs. fst z \<le> fst x"
      with True show ?thesis by (intro disjI2 exI [of _ "[]"] exI [of _ xs]) auto
    next
      fix pre post
      assume "xs = pre @ y # post" "fst x < fst y" "\<forall>z \<in> set pre. fst z < fst y"
        "\<forall>z \<in> set post. fst z \<le> fst y"
      with True show ?thesis by (intro disjI2 exI [of _ "x # pre"] exI [of _ post]) auto
    qed
  next
    case False
    with Cons.prems have "fold pick xs (Some b) = Some y" by simp
    from Cons.IH [OF this] show ?thesis
    proof (elim disjE exE conjE)
      assume "y = b" "\<forall>z \<in> set xs. fst z \<le> fst b"
      with False show ?thesis by auto
    next
      fix pre post
      assume "xs = pre @ y # post" "fst b < fst y" "\<forall>z \<in> set pre. fst z < fst y"
        "\<forall>z \<in> set post. fst z \<le> fst y"
      with False show ?thesis by (intro disjI2 exI [of _ "x # pre"] exI [of _ post]) auto
    qed
  qed
qed simp

lemma fold_pick_first_max:
  assumes "fold pick xs None = Some y"
  shows "\<exists>pre post. xs = pre @ y # post
    \<and> (\<forall>x \<in> set pre. fst x < fst y) \<and> (\<forall>x \<in> set post. fst x \<le> fst y)"
proof (cases xs)
  case (Cons x xs')
  with assms have "fold pick xs' (Some x) = Some y" by simp
  from fold_pick_Some [OF this] show ?thesis
  proof (elim disjE exE conjE)
    assume "y = x" "\<forall>z \<in> set xs'. fst z \<le> fst x"
    with Cons show ?thesis by (intro exI [of _ "[]"] exI [of _ xs']) auto
  next
    fix pre post
    assume "xs' = pre @ y # post" "fst x < fst y" "\<forall>z \<in> set pre. fst z < fst y"
      "\<forall>z \<in> set post. fst z \<le> fst y"
    with Cons show ?thesis by (intro exI [of _ "x # pre"] exI [of _ post]) auto
  qed
qed (use assms in simp)

end
