(* ===== verification/RustStr.thy ===== *)
theory RustStr
  imports Prelude
begin

text \<open>
  Rust's \<open>str\<close> and \<open>String\<close> as lists of UTF-8 bytes (\<open>string\<close>, whose \<open>char\<close> is one byte), with the
  operations of the standard library that chasm uses. Byte offsets, \<open>len\<close> and slices therefore
  count what Rust counts; a slice off a character boundary is \<open>Panic\<close>.
\<close>

section \<open>Bytes and ASCII case\<close>

definition byte :: "char \<Rightarrow> nat" where
  "byte c = of_char c"

lemma byte_char_of [simp]: "byte (char_of n) = n mod 256"
  by (simp add: byte_def)

lemma byte_lt [simp]: "byte c < 256"
  by (simp add: byte_def)

lemma byte_inject: "byte a = byte b \<longleftrightarrow> a = b"
  by (simp add: byte_def)

definition is_ascii :: "string \<Rightarrow> bool" where
  "is_ascii s \<longleftrightarrow> list_all (\<lambda>c. byte c < 128) s"

definition lower_byte :: "char \<Rightarrow> char" where
  "lower_byte c = (if 65 \<le> byte c \<and> byte c \<le> 90 then char_of (byte c + 32) else c)"

definition upper_byte :: "char \<Rightarrow> char" where
  "upper_byte c = (if 97 \<le> byte c \<and> byte c \<le> 122 then char_of (byte c - 32) else c)"

definition to_ascii_lowercase :: "string \<Rightarrow> string" where
  "to_ascii_lowercase s = map lower_byte s"

definition to_ascii_uppercase :: "string \<Rightarrow> string" where
  "to_ascii_uppercase s = map upper_byte s"

definition eq_ignore_ascii_case :: "string \<Rightarrow> string \<Rightarrow> bool" where
  "eq_ignore_ascii_case s t \<longleftrightarrow> to_ascii_lowercase s = to_ascii_lowercase t"

lemma lower_byte_idem [simp]: "lower_byte (lower_byte c) = lower_byte c"
  by (simp add: lower_byte_def)

lemma lower_upper_byte [simp]: "lower_byte (upper_byte c) = lower_byte c"
proof (cases "97 \<le> byte c \<and> byte c \<le> 122")
  case True
  then have "lower_byte (upper_byte c) = char_of (byte c)"
    by (auto simp: lower_byte_def upper_byte_def)
  also have "\<dots> = c" by (simp add: byte_def)
  finally show ?thesis using True by (simp add: lower_byte_def)
qed (auto simp: upper_byte_def)

lemma upper_lower_byte [simp]: "upper_byte (lower_byte c) = upper_byte c"
proof (cases "65 \<le> byte c \<and> byte c \<le> 90")
  case True
  then have "upper_byte (lower_byte c) = char_of (byte c)"
    by (auto simp: lower_byte_def upper_byte_def)
  also have "\<dots> = c" by (simp add: byte_def)
  finally show ?thesis using True by (simp add: upper_byte_def)
qed (auto simp: lower_byte_def)

lemma to_ascii_lowercase_idem [simp]: "to_ascii_lowercase (to_ascii_lowercase s) = to_ascii_lowercase s"
  by (simp add: to_ascii_lowercase_def)

lemma to_ascii_lower_upper [simp]:
  "to_ascii_lowercase (to_ascii_uppercase s) = to_ascii_lowercase s"
  by (simp add: to_ascii_lowercase_def to_ascii_uppercase_def)

lemma to_ascii_upper_lower [simp]:
  "to_ascii_uppercase (to_ascii_lowercase s) = to_ascii_uppercase s"
  by (simp add: to_ascii_lowercase_def to_ascii_uppercase_def)

lemma length_to_ascii [simp]:
  "length (to_ascii_lowercase s) = length s" "length (to_ascii_uppercase s) = length s"
  by (simp_all add: to_ascii_lowercase_def to_ascii_uppercase_def)

lemma eq_ignore_ascii_case_refl [simp]: "eq_ignore_ascii_case s s"
  by (simp add: eq_ignore_ascii_case_def)

lemma eq_ignore_ascii_case_sym: "eq_ignore_ascii_case s t \<Longrightarrow> eq_ignore_ascii_case t s"
  by (simp add: eq_ignore_ascii_case_def)

lemma eq_ignore_ascii_case_trans:
  "eq_ignore_ascii_case s t \<Longrightarrow> eq_ignore_ascii_case t u \<Longrightarrow> eq_ignore_ascii_case s u"
  by (simp add: eq_ignore_ascii_case_def)

lemma eq_ignore_ascii_case_upper:
  "eq_ignore_ascii_case s t \<Longrightarrow> to_ascii_uppercase s = to_ascii_uppercase t"
  by (metis eq_ignore_ascii_case_def to_ascii_upper_lower)

section \<open>Prefixes, suffixes, search\<close>

definition starts_with :: "string \<Rightarrow> string \<Rightarrow> bool" where
  "starts_with s p \<longleftrightarrow> take (length p) s = p"

definition ends_with :: "string \<Rightarrow> string \<Rightarrow> bool" where
  "ends_with s p \<longleftrightarrow> length p \<le> length s \<and> drop (length s - length p) s = p"

definition strip_prefix :: "string \<Rightarrow> string \<Rightarrow> string option" where
  "strip_prefix s p = (if starts_with s p then Some (drop (length p) s) else None)"

definition strip_suffix :: "string \<Rightarrow> string \<Rightarrow> string option" where
  "strip_suffix s p = (if ends_with s p then Some (take (length s - length p) s) else None)"

lemma starts_with_iff: "starts_with s p \<longleftrightarrow> (\<exists>r. s = p @ r)"
  by (metis append_eq_conv_conj append_take_drop_id starts_with_def)

lemma ends_with_iff: "ends_with s p \<longleftrightarrow> (\<exists>r. s = r @ p)"
  by (auto simp: ends_with_def intro: exI [of _ "take (length s - length p) s"])
     (metis append_take_drop_id)

lemma strip_prefix_Some_iff [simp]: "strip_prefix s p = Some r \<longleftrightarrow> s = p @ r"
  by (auto simp: strip_prefix_def starts_with_iff)

lemma strip_prefix_append [simp]: "strip_prefix (p @ r) p = Some r"
  by simp

lemma strip_suffix_Some_iff: "strip_suffix s p = Some r \<longleftrightarrow> s = r @ p"
  by (auto simp: strip_suffix_def ends_with_iff)

text \<open>\<open>find_sub hay needle\<close> is the byte offset of the first occurrence.\<close>

fun find_sub :: "string \<Rightarrow> string \<Rightarrow> nat option" where
  "find_sub [] n = (if n = [] then Some 0 else None)"
| "find_sub (x # xs) n = (if starts_with (x # xs) n then Some 0 else map_option Suc (find_sub xs n))"

lemma find_sub_SomeD: "find_sub h n = Some i \<Longrightarrow> \<exists>r. h = take i h @ n @ r \<and> i \<le> length h"
proof (induction h n arbitrary: i rule: find_sub.induct)
  case (1 n)
  then show ?case by (simp split: if_splits)
next
  case (2 x xs n)
  then show ?case by (fastforce simp: starts_with_iff split: if_splits)
qed

lemma find_sub_first: "find_sub h n = Some i \<Longrightarrow> j < i \<Longrightarrow> \<not> starts_with (drop j h) n"
proof (induction h n arbitrary: i j rule: find_sub.induct)
  case (1 n)
  then show ?case by (simp split: if_splits)
next
  case (2 x xs n)
  then show ?case by (cases j) (auto split: if_splits)
qed

lemma find_sub_None_iff: "find_sub h n = None \<longleftrightarrow> (\<forall>a b. h \<noteq> a @ n @ b)"
proof (induction h n rule: find_sub.induct)
  case (1 n)
  then show ?case by auto
next
  case (2 x xs n)
  show ?case
  proof
    assume none: "find_sub (x # xs) n = None"
    then have "\<not> starts_with (x # xs) n" and "\<forall>a b. xs \<noteq> a @ n @ b"
      using "2.IH" by (auto split: if_splits)
    then show "\<forall>a b. x # xs \<noteq> a @ n @ b"
      by (metis append_Nil list.sel(3) starts_with_iff tl_append2)
  next
    assume no: "\<forall>a b. x # xs \<noteq> a @ n @ b"
    then have "\<not> starts_with (x # xs) n" by (auto simp: starts_with_iff) (metis append_Nil)
    moreover have "\<forall>a b. xs \<noteq> a @ n @ b" using no by (metis append_Cons)
    ultimately show "find_sub (x # xs) n = None" using "2.IH" by simp
  qed
qed

section \<open>Splitting\<close>

text \<open>\<open>split_on c s\<close> is \<open>s.split(c)\<close>: always at least one piece.\<close>

fun split_on :: "char \<Rightarrow> string \<Rightarrow> string list" where
  "split_on c [] = [[]]"
| "split_on c (x # xs) =
     (if x = c then [] # split_on c xs
      else (case split_on c xs of [] \<Rightarrow> [[x]] | y # ys \<Rightarrow> (x # y) # ys))"

fun join :: "string \<Rightarrow> string list \<Rightarrow> string" where
  "join sep [] = []"
| "join sep [x] = x"
| "join sep (x # y # ys) = x @ sep @ join sep (y # ys)"

lemma split_on_not_Nil [simp]: "split_on c s \<noteq> []"
  by (induction s) (auto split: list.splits)

lemma join_split_on [simp]: "join [c] (split_on c s) = s"
proof (induction s)
  case (Cons x xs)
  obtain y ys where s: "split_on c xs = y # ys" by (cases "split_on c xs") simp_all
  then show ?case using Cons by (cases ys) auto
qed simp

lemma split_on_pieces: "p \<in> set (split_on c s) \<Longrightarrow> c \<notin> set p"
proof (induction s arbitrary: p)
  case (Cons x xs)
  then show ?case by (cases "split_on c xs") (auto split: if_splits)
qed simp

lemma split_on_no_sep: "c \<notin> set s \<Longrightarrow> split_on c s = [s]"
  by (induction s) auto

lemma split_on_append: "c \<notin> set s \<Longrightarrow> split_on c (s @ c # t) = s # split_on c t"
  by (induction s) auto

lemma split_on_join:
  "ps \<noteq> [] \<Longrightarrow> (\<And>p. p \<in> set ps \<Longrightarrow> c \<notin> set p) \<Longrightarrow> split_on c (join [c] ps) = ps"
  by (induction "[c]" ps rule: join.induct) (auto simp: split_on_no_sep split_on_append)

lemma length_split_on: "length (split_on c s) = Suc (count_list s c)"
proof (induction s)
  case (Cons x xs)
  then show ?case by (cases "split_on c xs") auto
qed simp

text \<open>\<open>split_once c s\<close>: the halves around the first \<open>c\<close>.\<close>

fun split_once :: "char \<Rightarrow> string \<Rightarrow> (string \<times> string) option" where
  "split_once c [] = None"
| "split_once c (x # xs) =
     (if x = c then Some ([], xs)
      else (case split_once c xs of None \<Rightarrow> None | Some (a, b) \<Rightarrow> Some (x # a, b)))"

lemma split_once_SomeD: "split_once c s = Some (a, b) \<Longrightarrow> s = a @ c # b \<and> c \<notin> set a"
proof (induction s arbitrary: a)
  case (Cons x xs)
  show ?case
  proof (cases "x = c")
    case False
    with Cons.prems obtain a' where "split_once c xs = Some (a', b)" "a = x # a'"
      by (auto split: option.splits prod.splits)
    with Cons.IH False show ?thesis by simp
  qed (use Cons.prems in simp)
qed simp

lemma split_once_append [simp]: "c \<notin> set a \<Longrightarrow> split_once c (a @ c # b) = Some (a, b)"
  by (induction a) auto

lemma split_once_Some_iff: "split_once c s = Some (a, b) \<longleftrightarrow> s = a @ c # b \<and> c \<notin> set a"
  using split_once_SomeD [of c s a b] split_once_append [of c a b] by auto

lemma split_once_None_iff: "split_once c s = None \<longleftrightarrow> c \<notin> set s"
  by (induction s) (auto split: option.splits)

section \<open>Trimming\<close>

text \<open>
  \<open>char::is_whitespace\<close> is the Unicode White_Space property; \<open>ws_seqs\<close> holds the UTF-8 encodings of
  its characters. No encoding is a proper prefix of another, and UTF-8 is self-synchronising, so the
  last character of a string is white space iff one of the encodings is a suffix of it.
\<close>

definition ws_seqs :: "string list" where
  "ws_seqs =
     map (\<lambda>n. [char_of n]) [9::nat, 10, 11, 12, 13, 32]
     @ map (\<lambda>n. [char_of (194::nat), char_of n]) [133::nat, 160]
     @ [map char_of [225::nat, 154, 128]]
     @ map (\<lambda>n. [char_of (226::nat), char_of (128::nat), char_of n])
         [128::nat, 129, 130, 131, 132, 133, 134, 135, 136, 137, 138, 168, 169, 175]
     @ [map char_of [226::nat, 129, 159], map char_of [227::nat, 128, 128]]"

function strip_front :: "string list \<Rightarrow> string \<Rightarrow> string" where
  "strip_front ws s =
     (case find (\<lambda>w. w \<noteq> [] \<and> starts_with s w) ws of
        None \<Rightarrow> s
      | Some w \<Rightarrow> strip_front ws (drop (length w) s))"
  by pat_completeness auto
termination
  by (relation "measure (\<lambda>(ws, s). length s)")
     (auto dest!: find_SomeD simp: starts_with_iff)

declare strip_front.simps [simp del]

lemma strip_front_none [str_simps]:
  "find (\<lambda>w. w \<noteq> [] \<and> starts_with s w) ws = None \<Longrightarrow> strip_front ws s = s"
  by (simp add: strip_front.simps)

lemma strip_front_some [str_simps]:
  "find (\<lambda>w. w \<noteq> [] \<and> starts_with s w) ws = Some w
   \<Longrightarrow> strip_front ws s = strip_front ws (drop (length w) s)"
  by (simp add: strip_front.simps [of ws s])

definition trim_start :: "string \<Rightarrow> string" where
  "trim_start s = strip_front ws_seqs s"

definition trim_end :: "string \<Rightarrow> string" where
  "trim_end s = rev (strip_front (map rev ws_seqs) (rev s))"

definition trim :: "string \<Rightarrow> string" where
  "trim s = trim_end (trim_start s)"

lemma strip_front_suffix: "\<exists>p. s = p @ strip_front ws s"
proof (induction ws s rule: strip_front.induct)
  case (1 ws s)
  show ?case
  proof (cases "find (\<lambda>w. w \<noteq> [] \<and> starts_with s w) ws")
    case None
    then show ?thesis by (simp add: strip_front.simps)
  next
    case (Some w)
    then obtain r where "s = w @ r" by (auto dest!: find_SomeD simp: starts_with_iff)
    moreover from 1 Some obtain p where "drop (length w) s = p @ strip_front ws (drop (length w) s)"
      by blast
    moreover have "strip_front ws s = strip_front ws (drop (length w) s)"
      using Some by (simp add: strip_front.simps [of ws s])
    ultimately have "s = (w @ p) @ strip_front ws s" by simp
    then show ?thesis by blast
  qed
qed

lemma strip_front_stop:
  "find (\<lambda>w. w \<noteq> [] \<and> starts_with (strip_front ws s) w) ws = None"
proof (induction ws s rule: strip_front.induct)
  case (1 ws s)
  then show ?case
    by (cases "find (\<lambda>w. w \<noteq> [] \<and> starts_with s w) ws") (simp_all add: strip_front.simps [of ws s])
qed

lemma strip_front_idem [simp]: "strip_front ws (strip_front ws s) = strip_front ws s"
  using strip_front_stop [of ws s] by (subst strip_front.simps) simp

lemma length_strip_front: "length (strip_front ws s) \<le> length s"
  using strip_front_suffix [of s ws] by (metis le_add2 length_append)

lemma length_trim: "length (trim s) \<le> length s"
  using length_strip_front [of ws_seqs s] length_strip_front [of "map rev ws_seqs" "rev (strip_front ws_seqs s)"]
  by (simp add: trim_def trim_start_def trim_end_def)

lemma trim_substring: "\<exists>a b. s = a @ trim s @ b"
proof -
  obtain a where a: "s = a @ trim_start s"
    using strip_front_suffix [of s ws_seqs] by (auto simp: trim_start_def)
  obtain b where "rev (trim_start s) = b @ strip_front (map rev ws_seqs) (rev (trim_start s))"
    using strip_front_suffix by blast
  then have "trim_start s = trim s @ rev b"
    by (metis rev_append rev_rev_ident trim_def trim_end_def)
  with a show ?thesis by metis
qed

text \<open>Strings that begin and end with a visible ASCII character are their own trim.\<close>

definition solid :: "char \<Rightarrow> bool" where
  "solid c \<longleftrightarrow> 33 \<le> byte c \<and> byte c \<le> 126"

lemma solid_ascii: "solid c \<Longrightarrow> byte c < 128"
  by (simp add: solid_def)

lemma ws_seqs_not_solid:
  "w \<in> set ws_seqs \<Longrightarrow> w \<noteq> [] \<and> \<not> solid (hd w) \<and> \<not> solid (last w)"
  by (auto simp: ws_seqs_def solid_def)

lemma strip_front_solid:
  assumes "\<And>w. w \<in> set ws \<Longrightarrow> w \<noteq> [] \<and> \<not> solid (hd w)" and "s \<noteq> []" and "solid (hd s)"
  shows "strip_front ws s = s"
proof -
  have "\<not> starts_with s w" if "w \<in> set ws" for w
  proof
    assume "starts_with s w"
    then obtain r where "s = w @ r" by (auto simp: starts_with_iff)
    with assms(1) [OF that] assms(3) show False by simp
  qed
  then have "find (\<lambda>w. w \<noteq> [] \<and> starts_with s w) ws = None" by (auto simp: find_None_iff)
  then show ?thesis by (rule strip_front_none)
qed

lemma trim_solid: "s \<noteq> [] \<Longrightarrow> solid (hd s) \<Longrightarrow> solid (last s) \<Longrightarrow> trim s = s"
proof -
  assume s: "s \<noteq> []" "solid (hd s)" "solid (last s)"
  have "trim_start s = s"
    unfolding trim_start_def using ws_seqs_not_solid s by (intro strip_front_solid) auto
  moreover have "strip_front (map rev ws_seqs) (rev s) = rev s"
    using ws_seqs_not_solid s by (intro strip_front_solid) (auto simp: hd_rev)
  ultimately show ?thesis by (simp add: trim_def trim_end_def)
qed

lemma trim_Nil [simp]: "trim [] = []"
  using trim_substring [of "[]"] by auto

lemma is_ascii_append [simp]: "is_ascii (s @ t) \<longleftrightarrow> is_ascii s \<and> is_ascii t"
  by (simp add: is_ascii_def)

lemma is_ascii_trim: "is_ascii s \<Longrightarrow> is_ascii (trim s)"
  using trim_substring [of s] by (metis is_ascii_append)

lemma is_ascii_split_on: "is_ascii s \<Longrightarrow> p \<in> set (split_on c s) \<Longrightarrow> is_ascii p"
proof (induction s arbitrary: p)
  case (Cons x xs)
  then show ?case by (cases "split_on c xs") (auto simp: is_ascii_def split: if_splits)
qed (simp add: is_ascii_def)

section \<open>Character boundaries\<close>

definition is_char_boundary :: "string \<Rightarrow> nat \<Rightarrow> bool" where
  "is_char_boundary s i \<longleftrightarrow>
     i = 0 \<or> i = length s \<or> i < length s \<and> \<not> (128 \<le> byte (s ! i) \<and> byte (s ! i) < 192)"

text \<open>\<open>&s[..n]\<close> and \<open>&s[n..]\<close>: a panic when the offset is out of range or inside a character.\<close>

definition slice_to :: "string \<Rightarrow> nat \<Rightarrow> string run" where
  "slice_to s n = (if n \<le> length s \<and> is_char_boundary s n then Done (take n s) else Panic)"

definition slice_from :: "string \<Rightarrow> nat \<Rightarrow> string run" where
  "slice_from s n = (if n \<le> length s \<and> is_char_boundary s n then Done (drop n s) else Panic)"

lemma is_ascii_boundary: "is_ascii s \<Longrightarrow> i \<le> length s \<Longrightarrow> is_char_boundary s i"
  unfolding is_ascii_def is_char_boundary_def
  by (cases "i < length s") (auto simp: list_all_length)

text \<open>\<open>s.chars().count()\<close>: the bytes that start a character.\<close>

definition chars_count :: "string \<Rightarrow> nat" where
  "chars_count s = length (filter (\<lambda>c. \<not> (128 \<le> byte c \<and> byte c < 192)) s)"

lemma chars_count_le: "chars_count s \<le> length s"
  by (simp add: chars_count_def)

lemma chars_count_ascii: "is_ascii s \<Longrightarrow> chars_count s = length s"
proof (induction s)
  case (Cons c s)
  then have "byte c < 128" "is_ascii s" by (auto simp: is_ascii_def)
  with Cons.IH show ?case by (simp add: chars_count_def)
qed (simp add: chars_count_def)

text \<open>
  \<open>String::push(b as char)\<close> for a byte \<open>b\<close>: the character U+00\<open>b\<close>, whose UTF-8 encoding takes two
  bytes from U+0080 on.
\<close>

definition push_byte_as_char :: "char \<Rightarrow> string" where
  "push_byte_as_char c =
     (if byte c < 128 then [c] else [char_of (192 + byte c div 64), char_of (128 + byte c mod 64)])"

lemma push_byte_as_char_ascii [simp]: "byte c < 128 \<Longrightarrow> push_byte_as_char c = [c]"
  by (simp add: push_byte_as_char_def)

lemma push_byte_as_char_not_Nil [simp]: "push_byte_as_char c \<noteq> []"
  by (simp add: push_byte_as_char_def)

section \<open>UTF-8 validity\<close>

definition cont :: "char \<Rightarrow> bool" where
  "cont c \<longleftrightarrow> 128 \<le> byte c \<and> byte c < 192"

text \<open>\<open>std::str::from_utf8\<close> accepts exactly the well-formed sequences of the Unicode standard.\<close>

fun utf8_valid :: "string \<Rightarrow> bool" where
  "utf8_valid [] = True"
| "utf8_valid (a # s) =
     (let n = byte a in
      if n < 128 then utf8_valid s
      else if 194 \<le> n \<and> n < 224 then
        (case s of b # r \<Rightarrow> cont b \<and> utf8_valid r | _ \<Rightarrow> False)
      else if 224 \<le> n \<and> n < 240 then
        (case s of
           b # c # r \<Rightarrow>
             cont b \<and> cont c \<and> (n = 224 \<longrightarrow> 160 \<le> byte b) \<and> (n = 237 \<longrightarrow> byte b < 160) \<and> utf8_valid r
         | _ \<Rightarrow> False)
      else if 240 \<le> n \<and> n < 245 then
        (case s of
           b # c # d # r \<Rightarrow>
             cont b \<and> cont c \<and> cont d \<and> (n = 240 \<longrightarrow> 144 \<le> byte b) \<and> (n = 244 \<longrightarrow> byte b < 144)
             \<and> utf8_valid r
         | _ \<Rightarrow> False)
      else False)"

definition from_utf8 :: "string \<Rightarrow> string option" where
  "from_utf8 s = (if utf8_valid s then Some s else None)"

lemma utf8_valid_ascii: "is_ascii s \<Longrightarrow> utf8_valid s"
proof (induction s)
  case (Cons c s)
  then have "byte c < 128" "is_ascii s" by (auto simp: is_ascii_def)
  with Cons.IH show ?case by simp
qed simp

section \<open>Replacement\<close>

text \<open>\<open>s.replace(from, to)\<close> for a non-empty pattern: left to right, without overlap.\<close>

function replace_all :: "string \<Rightarrow> string \<Rightarrow> string \<Rightarrow> string" where
  "replace_all f t [] = []"
| "replace_all f t (x # xs) =
     (if f \<noteq> [] \<and> starts_with (x # xs) f then t @ replace_all f t (drop (length f) (x # xs))
      else x # replace_all f t xs)"
  by pat_completeness auto
termination
  by (relation "measure (\<lambda>(f, t, s). length s)") (auto simp: starts_with_iff)

end
