(* ===== verification/RustNum.thy ===== *)
theory RustNum
  imports RustStr Complex_Main "HOL-Library.Word"
begin

text \<open>
  Rust's integer and \<open>f64\<close> parsing and printing, and the \<open>f64\<close> operations chasm uses. Integers whose
  width matters are words (\<open>u16\<close>, \<open>u64\<close>) or an \<open>int\<close> with its range (\<open>i64\<close>); an \<open>f64\<close> is a rational,
  an infinity or NaN, and every operation rounds to the nearest double, ties to even. The sign of
  zero is not represented: no comparison or remainder of the code depends on it.
\<close>

type_synonym u16 = "16 word"
type_synonym u64 = "64 word"

section \<open>Integers\<close>

definition digit_val :: "char \<Rightarrow> nat option" where
  "digit_val c = (if 48 \<le> byte c \<and> byte c \<le> 57 then Some (byte c - 48) else None)"

fun digits_val :: "nat \<Rightarrow> string \<Rightarrow> nat option" where
  "digits_val acc [] = Some acc"
| "digits_val acc (c # s) =
     (case digit_val c of None \<Rightarrow> None | Some d \<Rightarrow> digits_val (10 * acc + d) s)"

definition strip_plus :: "string \<Rightarrow> string" where
  "strip_plus s = (case s of c # r \<Rightarrow> if c = CHR ''+'' then r else s | [] \<Rightarrow> s)"

text \<open>\<open>s.parse::<uN>()\<close> with \<open>mx\<close> the largest value: an optional \<open>+\<close>, then at least one digit.\<close>

definition parse_unsigned :: "nat \<Rightarrow> string \<Rightarrow> nat option" where
  "parse_unsigned mx s =
     (let r = strip_plus s in
      if r = [] then None
      else (case digits_val 0 r of
              None \<Rightarrow> None
            | Some n \<Rightarrow> if n \<le> mx then Some n else None))"

definition parse_u16 :: "string \<Rightarrow> u16 option" where
  "parse_u16 s = map_option of_nat (parse_unsigned 65535 s)"

definition parse_u64 :: "string \<Rightarrow> u64 option" where
  "parse_u64 s = map_option of_nat (parse_unsigned (2 ^ 64 - 1) s)"

definition parse_u32 :: "string \<Rightarrow> nat option" where
  "parse_u32 s = parse_unsigned (2 ^ 32 - 1) s"

definition parse_usize :: "string \<Rightarrow> nat option" where
  "parse_usize s = parse_unsigned (2 ^ 64 - 1) s"

text \<open>\<open>s.parse::<i128>()\<close>.\<close>

definition parse_i128 :: "string \<Rightarrow> int option" where
  "parse_i128 s =
     (case s of
        c # r \<Rightarrow>
          if c = CHR ''-'' then
            (if r = [] then None
             else (case digits_val 0 r of
                     None \<Rightarrow> None
                   | Some n \<Rightarrow> if n \<le> 2 ^ 127 then Some (- int n) else None))
          else map_option int (parse_unsigned (2 ^ 127 - 1) s)
      | [] \<Rightarrow> None)"

function show_nat :: "nat \<Rightarrow> string" where
  "show_nat n =
     (if n < 10 then [char_of (48 + n)] else show_nat (n div 10) @ [char_of (48 + n mod 10)])"
  by pat_completeness auto
termination
  by (relation "measure id") auto

declare show_nat.simps [simp del]

definition show_int :: "int \<Rightarrow> string" where
  "show_int i = (if i < 0 then CHR ''-'' # show_nat (nat (- i)) else show_nat (nat i))"

lemma digits_val_append:
  "digits_val acc (s @ t) = (case digits_val acc s of None \<Rightarrow> None | Some n \<Rightarrow> digits_val n t)"
  by (induction s arbitrary: acc) (auto split: option.splits)

lemma digit_val_char_of [simp]: "d < 10 \<Longrightarrow> digit_val (char_of (48 + d)) = Some d"
  by (simp add: digit_val_def)

lemma digits_val_show_nat: "digits_val 0 (show_nat n) = Some n"
proof (induction n rule: show_nat.induct)
  case (1 n)
  show ?case
  proof (cases "n < 10")
    case False
    with 1 have "digits_val 0 (show_nat (n div 10)) = Some (n div 10)" by simp
    with False show ?thesis by (subst show_nat.simps) (simp add: digits_val_append)
  qed (subst show_nat.simps, simp)
qed

lemma show_nat_not_Nil [simp]: "show_nat n \<noteq> []"
  by (subst show_nat.simps) simp

lemma show_nat_digits: "c \<in> set (show_nat n) \<Longrightarrow> 48 \<le> byte c \<and> byte c \<le> 57"
proof (induction n rule: show_nat.induct)
  case (1 n)
  then show ?case by (cases "n < 10") (auto simp: show_nat.simps [of n])
qed

lemma strip_plus_show_nat [simp]: "strip_plus (show_nat n) = show_nat n"
proof (cases "show_nat n")
  case (Cons c r)
  then have "48 \<le> byte c" using show_nat_digits [of c n] by simp
  then have "c \<noteq> CHR ''+''" by (auto simp: byte_def)
  with Cons show ?thesis by (simp add: strip_plus_def)
qed simp

lemma parse_unsigned_show_nat: "n \<le> mx \<Longrightarrow> parse_unsigned mx (show_nat n) = Some n"
  by (simp add: parse_unsigned_def digits_val_show_nat)

lemma parse_unsigned_le: "parse_unsigned mx s = Some n \<Longrightarrow> n \<le> mx"
  by (auto simp: parse_unsigned_def Let_def split: option.splits if_splits)

lemma parse_u16_show: "parse_u16 (show_nat (unat w)) = Some w"
proof -
  have "unat w \<le> 65535" using unsigned_less [of w, where ?'a = nat] by simp
  then show ?thesis by (simp add: parse_u16_def parse_unsigned_show_nat)
qed

lemma parse_u64_show: "parse_u64 (show_nat (unat w)) = Some w"
proof -
  have "unat w \<le> 2 ^ 64 - 1" using unsigned_less [of w, where ?'a = nat] by simp
  then show ?thesis by (simp add: parse_u64_def parse_unsigned_show_nat)
qed

lemma parse_i128_show_int:
  assumes "- (2 ^ 127) \<le> i" and "i \<le> 2 ^ 127 - 1"
  shows "parse_i128 (show_int i) = Some i"
proof (cases "i < 0")
  case True
  then have "nat (- i) \<le> 2 ^ 127" using assms(1) by (simp add: nat_le_iff)
  with True show ?thesis by (simp add: parse_i128_def show_int_def digits_val_show_nat)
next
  case False
  then have "nat i \<le> 2 ^ 127 - 1" using assms(2) by (simp add: nat_le_iff)
  moreover obtain c r where c: "show_nat (nat i) = c # r" by (cases "show_nat (nat i)") simp_all
  moreover from c have "c \<noteq> CHR ''-''" using show_nat_digits [of c "nat i"] by (auto simp: byte_def)
  ultimately show ?thesis
    using False parse_unsigned_show_nat [of "nat i" "2 ^ 127 - 1"]
    by (simp add: parse_i128_def show_int_def)
qed

lemma show_nat_unique:
  "digits_val 0 ds = Some n \<Longrightarrow> ds \<noteq> [] \<Longrightarrow> (1 < length ds \<longrightarrow> hd ds \<noteq> CHR ''0'') \<Longrightarrow> ds = show_nat n"
proof (induction ds arbitrary: n rule: rev_induct)
  case (snoc c ds)
  from snoc.prems(1) obtain k d where k: "digits_val 0 ds = Some k" "digit_val c = Some d" "n = 10 * k + d"
    by (auto simp: digits_val_append split: option.splits)
  have c: "c = char_of (48 + d)" "d < 10"
    using k(2) by (auto simp: digit_val_def byte_def split: if_splits)
  show ?case
  proof (cases "ds = []")
    case True
    with k c show ?thesis by (simp add: show_nat.simps [of d])
  next
    case False
    with snoc.prems have nz: "hd ds \<noteq> CHR ''0''" by (simp add: hd_append)
    with snoc.IH [OF k(1) False] have ds: "ds = show_nat k" by simp
    have "char_of (48::nat) = CHR ''0''" by (simp add: byte_inject [symmetric] byte_def)
    then have "hd (show_nat 0) = CHR ''0''" by (simp add: show_nat.simps [of 0])
    then have "k \<noteq> 0" using nz ds by metis
    then have "\<not> n < 10" "n div 10 = k" "n mod 10 = d" using k(3) c(2) by auto
    with ds c show ?thesis by (simp add: show_nat.simps [of n])
  qed
qed simp

lemma show_nat_head: "1 < length (show_nat n) \<Longrightarrow> hd (show_nat n) \<noteq> CHR ''0''"
proof (induction n rule: show_nat.induct)
  case (1 n)
  have ge: "\<not> n < 10" using "1.prems" by (auto simp: show_nat.simps [of n] split: if_splits)
  then have sn: "show_nat n = show_nat (n div 10) @ [char_of (48 + n mod 10)]"
    by (simp add: show_nat.simps [of n])
  show ?case
  proof (cases "n div 10 < 10")
    case True
    then have "hd (show_nat n) = char_of (48 + n div 10)"
      by (simp add: sn show_nat.simps [of "n div 10"])
    moreover have "byte (char_of (48 + n div 10)) \<noteq> byte (CHR ''0'')" using ge True by (simp add: byte_def)
    ultimately show ?thesis by metis
  next
    case False
    then have "1 < length (show_nat (n div 10))"
      by (simp add: show_nat.simps [of "n div 10"])
    with 1(1) ge show ?thesis by (simp add: sn)
  qed
qed

definition i64_min :: int where "i64_min = - (2 ^ 63)"
definition i64_max :: int where "i64_max = 2 ^ 63 - 1"

definition in_i64 :: "int \<Rightarrow> bool" where
  "in_i64 n \<longleftrightarrow> i64_min \<le> n \<and> n \<le> i64_max"

text \<open>Rust's \<open>%\<close> on \<open>i64\<close> truncates; \<open>i64::MIN % -1\<close> overflows and \<open>_ % 0\<close> traps.\<close>

definition rem_i64 :: "int \<Rightarrow> int \<Rightarrow> int run" where
  "rem_i64 a b =
     (if b = 0 \<or> a = i64_min \<and> b = -1 then Panic else Done (sgn a * (\<bar>a\<bar> mod \<bar>b\<bar>)))"

lemma rem_i64_zero_iff:
  "rem_i64 a b = Done r \<Longrightarrow> r = 0 \<longleftrightarrow> b dvd a"
  by (auto simp: rem_i64_def sgn_0_0 dvd_eq_mod_eq_0 [symmetric] split: if_splits)

section \<open>Double-precision numbers\<close>

datatype f64 = Fin rat | PInf | NInf | NaN

function bitlen :: "nat \<Rightarrow> nat" where
  "bitlen n = (if n = 0 then 0 else Suc (bitlen (n div 2)))"
  by pat_completeness auto
termination
  by (relation "measure id") auto

declare bitlen.simps [simp del]

definition pow2 :: "int \<Rightarrow> rat" where
  "pow2 k = (if 0 \<le> k then 2 ^ nat k else 1 / 2 ^ nat (- k))"

text \<open>\<open>ilog2 a\<close> is the exponent of the leading bit of a positive rational.\<close>

definition ilog2 :: "rat \<Rightarrow> int" where
  "ilog2 a =
     (let (n, d) = quotient_of a; k = int (bitlen (nat n)) - int (bitlen (nat d))
      in if pow2 k \<le> a then k else k - 1)"

definition round_half_even :: "rat \<Rightarrow> int" where
  "round_half_even q =
     (let f = \<lfloor>q\<rfloor>; r = q - of_int f
      in if r < 1 / 2 then f else if 1 / 2 < r then f + 1 else if even f then f else f + 1)"

definition round64 :: "rat \<Rightarrow> f64" where
  "round64 q =
     (if q = 0 then Fin 0
      else
        let a = \<bar>q\<bar>; e = max (ilog2 a) (-1022); ulp = pow2 (e - 52);
            v = of_int (round_half_even (a / ulp)) * ulp
        in if 2 ^ 1024 \<le> v then (if 0 < q then PInf else NInf)
           else Fin (if 0 < q then v else - v))"

definition f_of_int :: "int \<Rightarrow> f64" where
  "f_of_int n = round64 (of_int n)"

definition f_epsilon :: f64 where
  "f_epsilon = Fin (1 / 2 ^ 52)"

fun f_lt :: "f64 \<Rightarrow> f64 \<Rightarrow> bool" where
  "f_lt (Fin a) (Fin b) = (a < b)"
| "f_lt NaN _ = False"
| "f_lt _ NaN = False"
| "f_lt NInf b = (b \<noteq> NInf)"
| "f_lt _ NInf = False"
| "f_lt PInf _ = False"
| "f_lt _ PInf = True"

fun f_eq :: "f64 \<Rightarrow> f64 \<Rightarrow> bool" where
  "f_eq NaN _ = False"
| "f_eq a b = (a = b)"

definition f_le :: "f64 \<Rightarrow> f64 \<Rightarrow> bool" where
  "f_le a b \<longleftrightarrow> f_lt a b \<or> f_eq a b"

fun f_abs :: "f64 \<Rightarrow> f64" where
  "f_abs (Fin a) = Fin \<bar>a\<bar>"
| "f_abs NaN = NaN"
| "f_abs _ = PInf"

fun f_neg :: "f64 \<Rightarrow> f64" where
  "f_neg (Fin a) = Fin (- a)"
| "f_neg NaN = NaN"
| "f_neg PInf = NInf"
| "f_neg NInf = PInf"

fun f_add :: "f64 \<Rightarrow> f64 \<Rightarrow> f64" where
  "f_add (Fin a) (Fin b) = round64 (a + b)"
| "f_add NaN _ = NaN"
| "f_add _ NaN = NaN"
| "f_add PInf NInf = NaN"
| "f_add NInf PInf = NaN"
| "f_add PInf _ = PInf"
| "f_add _ PInf = PInf"
| "f_add NInf _ = NInf"
| "f_add _ NInf = NInf"

definition f_sub :: "f64 \<Rightarrow> f64 \<Rightarrow> f64" where
  "f_sub a b = f_add a (f_neg b)"

text \<open>Multiplication and division as far as the code uses them: finite scale, non-zero divisor.\<close>

fun f_mul :: "f64 \<Rightarrow> f64 \<Rightarrow> f64" where
  "f_mul (Fin a) (Fin b) = round64 (a * b)"
| "f_mul NaN _ = NaN"
| "f_mul _ NaN = NaN"
| "f_mul (Fin a) i = (if a = 0 then NaN else if 0 < a then i else f_neg i)"
| "f_mul i (Fin a) = (if a = 0 then NaN else if 0 < a then i else f_neg i)"
| "f_mul a b = (if a = b then PInf else NInf)"

fun f_div :: "f64 \<Rightarrow> f64 \<Rightarrow> f64" where
  "f_div (Fin a) (Fin b) =
     (if b = 0 then (if a = 0 then NaN else if 0 < a then PInf else NInf) else round64 (a / b))"
| "f_div NaN _ = NaN"
| "f_div _ NaN = NaN"
| "f_div (Fin a) _ = Fin 0"
| "f_div i (Fin b) = (if 0 \<le> b then i else f_neg i)"
| "f_div _ _ = NaN"

text \<open>\<open>x % 1.0\<close>: the fractional part with the sign of \<open>x\<close>; exact.\<close>

fun f_rem_one :: "f64 \<Rightarrow> f64" where
  "f_rem_one (Fin a) = Fin (if 0 \<le> a then a - of_int \<lfloor>a\<rfloor> else - (- a - of_int \<lfloor>- a\<rfloor>))"
| "f_rem_one _ = NaN"

text \<open>\<open>f64::max\<close> ignores a NaN operand.\<close>

definition f_max :: "f64 \<Rightarrow> f64 \<Rightarrow> f64" where
  "f_max a b = (if a = NaN then b else if b = NaN then a else if f_lt a b then b else a)"

text \<open>\<open>a.partial_cmp(&b).unwrap_or(Equal)\<close> is \<open>Less\<close>.\<close>

definition f_cmp_lt :: "f64 \<Rightarrow> f64 \<Rightarrow> bool" where
  "f_cmp_lt a b = f_lt a b"

lemma f_lt_irrefl [simp]: "\<not> f_lt a a"
  by (cases a) auto

lemma f_lt_trans: "f_lt a b \<Longrightarrow> f_lt b c \<Longrightarrow> f_lt a c"
  by (cases a; cases b; cases c) auto

lemma f_le_trans: "f_le a b \<Longrightarrow> f_le b c \<Longrightarrow> f_le a c"
  by (cases a; cases b; cases c) (auto simp: f_le_def)

lemma f_linear: "a \<noteq> NaN \<Longrightarrow> b \<noteq> NaN \<Longrightarrow> f_lt a b \<or> f_le b a"
  by (cases a; cases b) (auto simp: f_le_def)

text \<open>Integers below \<open>2 ^ 53\<close> are represented exactly.\<close>

lemma bitlen_bounds: "0 < n \<Longrightarrow> 2 ^ (bitlen n - 1) \<le> n \<and> n < 2 ^ bitlen n"
proof (induction n rule: bitlen.induct)
  case (1 n)
  show ?case
  proof (cases "n = 1")
    case True
    then show ?thesis by (simp add: bitlen.simps [of "Suc 0"] bitlen.simps [of 0])
  next
    case False
    then have pos: "0 < n div 2" using 1 by simp
    then have IH: "2 ^ (bitlen (n div 2) - 1) \<le> n div 2" "n div 2 < 2 ^ bitlen (n div 2)"
      using 1 by auto
    obtain b where b: "bitlen (n div 2) = Suc b"
      using pos by (cases "bitlen (n div 2)") (simp_all add: bitlen.simps [of "n div 2"])
    then have "bitlen n = Suc (Suc b)" using 1 by (simp add: bitlen.simps [of n])
    with IH b show ?thesis by simp linarith
  qed
qed

lemma round_half_even_int [simp]: "round_half_even (of_int n) = n"
  by (simp add: round_half_even_def)

lemma round64_of_nat:
  assumes "0 < n" and "n < 2 ^ 53"
  shows "round64 (of_nat n) = Fin (of_nat n)"
proof -
  define b where "b = bitlen n - 1"
  have bits: "2 ^ b \<le> n" "n < 2 ^ bitlen n" using bitlen_bounds [OF assms(1)] by (auto simp: b_def)
  have len: "bitlen n = Suc b" using assms(1) by (simp add: b_def bitlen.simps [of n])
  have "(2::nat) ^ b < 2 ^ 53" using bits(1) assms(2) by (rule le_less_trans)
  then have b53: "b < 53" by (rule power_less_imp_less_exp [rotated]) simp
  have q: "quotient_of (of_nat n) = (int n, 1)"
    using quotient_of_int [of "int n"] by (simp add: of_int_def)
  have "bitlen (Suc 0) = 1" by (simp add: bitlen.simps [of "Suc 0"] bitlen.simps [of 0])
  moreover have "(2::rat) ^ b \<le> of_nat n" using bits(1) by (metis of_nat_le_iff of_nat_numeral of_nat_power)
  ultimately have il: "ilog2 (of_nat n) = int b" by (simp add: ilog2_def q len pow2_def)
  have ulp: "pow2 (int b - 52) = 1 / 2 ^ (52 - b)"
    using b53 by (cases "b = 52") (auto simp: pow2_def nat_diff_distrib)
  have "of_nat n / pow2 (int b - 52) = (of_int (int n * 2 ^ (52 - b)) :: rat)"
    by (simp add: ulp)
  then have "round_half_even (of_nat n / pow2 (int b - 52)) = int n * 2 ^ (52 - b)"
    by (simp only: round_half_even_int)
  then have v: "of_int (round_half_even (of_nat n / pow2 (int b - 52))) * pow2 (int b - 52) = (of_nat n :: rat)"
    by (simp add: ulp)
  have "(of_nat n :: rat) < 2 ^ 53" using assms(2) by (metis of_nat_less_iff of_nat_numeral of_nat_power)
  also have "(2::rat) ^ 53 \<le> 2 ^ 1024" by (rule power_increasing) simp_all
  finally have "\<not> 2 ^ 1024 \<le> (of_nat n :: rat)" by simp
  then show ?thesis using assms(1) v by (simp add: round64_def il Let_def max_def)
qed

lemma f_of_int_exact: "\<bar>n\<bar> < 2 ^ 53 \<Longrightarrow> 0 \<le> n \<Longrightarrow> f_of_int n = Fin (of_int n)"
  using round64_of_nat [of "nat n"]
  by (cases "n = 0") (simp_all add: f_of_int_def round64_def nat_less_iff)

subsection \<open>Parsing\<close>

definition is_digit :: "char \<Rightarrow> bool" where
  "is_digit c \<longleftrightarrow> digit_val c \<noteq> None"

definition parse_exp :: "string \<Rightarrow> int option" where
  "parse_exp s =
     (case s of
        [] \<Rightarrow> Some 0
      | c # r \<Rightarrow>
          if lower_byte c \<noteq> CHR ''e'' then None
          else
            (let (neg, ds) =
               (case r of
                  d # r' \<Rightarrow> if d = CHR ''-'' then (True, r') else if d = CHR ''+'' then (False, r') else (False, r)
                | [] \<Rightarrow> (False, r))
             in if ds = [] then None
                else map_option (\<lambda>n. if neg then - int n else int n) (digits_val 0 ds)))"

definition pow10 :: "int \<Rightarrow> rat" where
  "pow10 k = (if 0 \<le> k then 10 ^ nat k else 1 / 10 ^ nat (- k))"

definition parse_decimal :: "string \<Rightarrow> rat option" where
  "parse_decimal s =
     (let ip = takeWhile is_digit s; r = dropWhile is_digit s;
          (fp, r') = (case r of
                        c # q \<Rightarrow> if c = CHR ''.'' then (takeWhile is_digit q, dropWhile is_digit q) else ([], r)
                      | [] \<Rightarrow> ([], r))
      in if ip = [] \<and> fp = [] then None
         else (case (digits_val 0 (ip @ fp), parse_exp r') of
                 (Some m, Some e) \<Rightarrow> Some (of_nat m * pow10 (e - int (length fp)))
               | _ \<Rightarrow> None))"

definition parse_f64_abs :: "string \<Rightarrow> f64 option" where
  "parse_f64_abs s =
     (let l = to_ascii_lowercase s in
      if l = ''inf'' \<or> l = ''infinity'' then Some PInf
      else if l = ''nan'' then Some NaN
      else map_option round64 (parse_decimal s))"

definition parse_f64 :: "string \<Rightarrow> f64 option" where
  "parse_f64 s =
     (case s of
        [] \<Rightarrow> None
      | c # r \<Rightarrow>
          if c = CHR ''-'' then map_option f_neg (parse_f64_abs r)
          else if c = CHR ''+'' then parse_f64_abs r
          else parse_f64_abs s)"

subsection \<open>Printing\<close>

text \<open>
  \<open>Display\<close> of an \<open>f64\<close>: the shortest decimal that reads back as the same number (the nearer one of two
  such), written without an exponent.
\<close>

definition ilog10 :: "rat \<Rightarrow> int" where
  "ilog10 a =
     (let (n, d) = quotient_of a;
          k = int (length (show_nat (nat n))) - int (length (show_nat (nat d)))
      in if pow10 k \<le> a then k + 1 else k)"

definition shortest_at :: "rat \<Rightarrow> int \<Rightarrow> nat \<Rightarrow> (nat \<times> int) option" where
  "shortest_at a e n =
     (let t = e - int n; m = nat \<lfloor>a / pow10 t\<rfloor>;
          ok = (\<lambda>k. round64 (of_nat k * pow10 t) = Fin a);
          near = (a / pow10 t - of_nat m \<le> 1 / 2)
      in if ok m \<and> ok (Suc m) then Some (if near then m else Suc m, t)
         else if ok m then Some (m, t)
         else if ok (Suc m) then Some (Suc m, t)
         else None)"

definition show_decimal :: "nat \<Rightarrow> int \<Rightarrow> string" where
  "show_decimal m t =
     (if 0 \<le> t then show_nat m @ replicate (nat t) (CHR ''0'')
      else
        let k = nat (- t); ds = replicate (Suc k - length (show_nat m)) (CHR ''0'') @ show_nat m;
            ip = take (length ds - k) ds;
            fp = rev (dropWhile (\<lambda>c. c = CHR ''0'') (rev (drop (length ds - k) ds)))
        in if fp = [] then ip else ip @ ''.'' @ fp)"

definition show_pos_f64 :: "rat \<Rightarrow> string" where
  "show_pos_f64 a =
     (case find_map (shortest_at a (ilog10 a)) [1..<18] of
        Some (m, t) \<Rightarrow> show_decimal m t
      | None \<Rightarrow> [])"

definition show_f64 :: "f64 \<Rightarrow> string" where
  "show_f64 f =
     (case f of
        NaN \<Rightarrow> ''NaN''
      | PInf \<Rightarrow> ''inf''
      | NInf \<Rightarrow> ''-inf''
      | Fin q \<Rightarrow>
          if q = 0 then ''0'' else if 0 < q then show_pos_f64 q else CHR ''-'' # show_pos_f64 (- q))"

end
