(* ===== verification/Json.thy ===== *)
theory Json
  imports RustNum
begin

text \<open>
  \<open>serde_json::Value\<close> as the code uses it. Objects are \<open>BTreeMap\<close>s (the workspace does not enable
  \<open>preserve_order\<close>): association lists sorted by key, so equality of values is equality of terms.
  Numbers are integers of the range \<open>i64::MIN .. u64::MAX\<close> or finite floats.
\<close>

datatype jnum = JInt int | JFloat f64

datatype json =
    JNull
  | JBool bool
  | JNum jnum
  | JStr string
  | JArr "json list"
  | JObj "(string \<times> json) list"

type_synonym obj = "(string \<times> json) list"

text \<open>An entry is smaller than its object.\<close>

lemma size_obj_entry: "e \<in> set m \<Longrightarrow> size (snd e) < size (JObj m)"
  by (induction m) (auto simp: less_Suc_eq)

section \<open>Ordered maps\<close>

fun obj_insert :: "string \<Rightarrow> 'v \<Rightarrow> (string \<times> 'v) list \<Rightarrow> (string \<times> 'v) list" where
  "obj_insert k v [] = [(k, v)]"
| "obj_insert k v ((k', v') # m) =
     (if k < k' then (k, v) # (k', v') # m
      else if k = k' then (k, v) # m
      else (k', v') # obj_insert k v m)"

definition obj_remove :: "string \<Rightarrow> (string \<times> 'v) list \<Rightarrow> (string \<times> 'v) list" where
  "obj_remove k m = filter (\<lambda>e. fst e \<noteq> k) m"

definition contains_key :: "('k \<times> 'v) list \<Rightarrow> 'k \<Rightarrow> bool" where
  "contains_key m k \<longleftrightarrow> map_of m k \<noteq> None"

definition sorted_map :: "(string \<times> 'v) list \<Rightarrow> bool" where
  "sorted_map m \<longleftrightarrow> sorted_wrt (<) (map fst m)"

lemma map_of_obj_insert [simp]: "map_of (obj_insert k v m) = (map_of m)(k \<mapsto> v)"
  by (induction k v m rule: obj_insert.induct) (auto simp: fun_eq_iff)

lemma map_of_obj_remove [simp]: "map_of (obj_remove k m) = (map_of m)(k := None)"
  by (induction m) (auto simp: obj_remove_def fun_eq_iff)

lemma contains_key_iff: "contains_key m k \<longleftrightarrow> k \<in> fst ` set m"
  by (auto simp: contains_key_def map_of_eq_None_iff)

lemma set_obj_insert_keys [simp]: "fst ` set (obj_insert k v m) = insert k (fst ` set m)"
  by (induction k v m rule: obj_insert.induct) auto

lemma sorted_map_Nil [simp]: "sorted_map []"
  by (simp add: sorted_map_def)

lemma sorted_map_Cons:
  "sorted_map ((k, v) # m) \<longleftrightarrow> (\<forall>k' \<in> fst ` set m. k < k') \<and> sorted_map m"
  by (auto simp: sorted_map_def)

lemma sorted_map_insert: "sorted_map m \<Longrightarrow> sorted_map (obj_insert k v m)"
  by (induction k v m rule: obj_insert.induct)
     (auto simp: sorted_map_Cons dest: less_trans intro: less_trans)

lemma sorted_map_remove: "sorted_map m \<Longrightarrow> sorted_map (obj_remove k m)"
  unfolding sorted_map_def obj_remove_def
  by (induction m) auto

lemma sorted_map_distinct: "sorted_map m \<Longrightarrow> distinct (map fst m)"
  unfolding sorted_map_def using strict_sorted_iff by blast

text \<open>Two sorted maps with the same lookups are the same map.\<close>

lemma map_of_rebuild: "distinct (map fst m) \<Longrightarrow> map (\<lambda>k. (k, the (map_of m k))) (map fst m) = m"
proof -
  assume d: "distinct (map fst m)"
  have "map (\<lambda>e. (fst e, the (map_of m (fst e)))) m = m"
  proof (rule map_idI)
    fix e assume "e \<in> set m"
    then have "map_of m (fst e) = Some (snd e)" using d by simp
    then show "(fst e, the (map_of m (fst e))) = e" by simp
  qed
  then show ?thesis by (simp add: comp_def)
qed

lemma sorted_map_ext:
  assumes "sorted_map m" and "sorted_map m'" and "map_of m = map_of m'"
  shows "m = m'"
proof -
  have "fst ` set m = fst ` set m'" using assms(3) by (metis dom_map_of_conv_image_fst)
  then have keys: "map fst m = map fst m'"
    using assms(1,2) by (intro strict_sorted_equal) (auto simp: sorted_map_def)
  have "m = map (\<lambda>k. (k, the (map_of m k))) (map fst m)"
    using map_of_rebuild [OF sorted_map_distinct [OF assms(1)]] by simp
  also have "\<dots> = map (\<lambda>k. (k, the (map_of m' k))) (map fst m')" by (simp only: keys assms(3))
  also have "\<dots> = m'" by (rule map_of_rebuild [OF sorted_map_distinct [OF assms(2)]])
  finally show ?thesis .
qed

lemma obj_insert_remove:
  "sorted_map m \<Longrightarrow> obj_insert k v (obj_remove k m) = obj_insert k v m"
  by (intro sorted_map_ext sorted_map_insert sorted_map_remove) (auto simp: fun_eq_iff)

text \<open>Collecting entries into a \<open>BTreeMap\<close>: a later entry replaces an earlier one.\<close>

definition obj_of_list :: "(string \<times> 'v) list \<Rightarrow> (string \<times> 'v) list" where
  "obj_of_list es = fold (\<lambda>(k, v) m. obj_insert k v m) es []"

lemma map_of_fold_insert:
  "map_of (fold (\<lambda>(k, v) m. obj_insert k v m) es m) = map_of m ++ map_of (rev es)"
proof (induction es arbitrary: m)
  case (Cons e es)
  obtain k v where "e = (k, v)" by (cases e)
  with Cons show ?case by (auto simp: fun_eq_iff map_add_def split: option.splits)
qed simp

lemma map_of_obj_of_list: "map_of (obj_of_list es) = map_of (rev es)"
  unfolding obj_of_list_def map_of_fold_insert by simp

lemma sorted_fold_insert: "sorted_map m \<Longrightarrow> sorted_map (fold (\<lambda>(k, v) m. obj_insert k v m) es m)"
  by (induction es arbitrary: m) (auto simp: sorted_map_insert)

lemma sorted_obj_of_list: "sorted_map (obj_of_list es)"
  unfolding obj_of_list_def by (rule sorted_fold_insert) simp

lemma map_of_rev_distinct: "distinct (map fst es) \<Longrightarrow> map_of (rev es) = map_of es"
  by (simp add: map_of_inject_set rev_map [symmetric])

section \<open>Accessors\<close>

definition as_object :: "json \<Rightarrow> obj option" where
  "as_object v = (case v of JObj m \<Rightarrow> Some m | _ \<Rightarrow> None)"

definition as_array :: "json \<Rightarrow> json list option" where
  "as_array v = (case v of JArr xs \<Rightarrow> Some xs | _ \<Rightarrow> None)"

definition as_str :: "json \<Rightarrow> string option" where
  "as_str v = (case v of JStr s \<Rightarrow> Some s | _ \<Rightarrow> None)"

definition as_bool :: "json \<Rightarrow> bool option" where
  "as_bool v = (case v of JBool b \<Rightarrow> Some b | _ \<Rightarrow> None)"

definition as_i64 :: "json \<Rightarrow> int option" where
  "as_i64 v = (case v of JNum (JInt n) \<Rightarrow> if in_i64 n then Some n else None | _ \<Rightarrow> None)"

definition as_u64 :: "json \<Rightarrow> nat option" where
  "as_u64 v = (case v of JNum (JInt n) \<Rightarrow> if 0 \<le> n then Some (nat n) else None | _ \<Rightarrow> None)"

definition as_f64 :: "json \<Rightarrow> f64 option" where
  "as_f64 v = (case v of JNum (JInt n) \<Rightarrow> Some (f_of_int n) | JNum (JFloat f) \<Rightarrow> Some f | _ \<Rightarrow> None)"

definition is_number :: "json \<Rightarrow> bool" where
  "is_number v = (case v of JNum _ \<Rightarrow> True | _ \<Rightarrow> False)"

text \<open>\<open>Number::from_f64\<close> takes finite numbers only.\<close>

definition num_from_f64 :: "f64 \<Rightarrow> jnum option" where
  "num_from_f64 f = (case f of Fin _ \<Rightarrow> Some (JFloat f) | _ \<Rightarrow> None)"

lemmas json_accessors = as_object_def as_array_def as_str_def as_bool_def as_i64_def as_u64_def
  as_f64_def is_number_def

text \<open>A value as \<open>serde_json\<close> builds it: sorted objects, numbers in range.\<close>

fun wf_json :: "json \<Rightarrow> bool" where
  "wf_json (JArr xs) = (\<forall>x \<in> set xs. wf_json x)"
| "wf_json (JObj m) = (sorted_map m \<and> (\<forall>e \<in> set m. wf_json (snd e)))"
| "wf_json (JNum (JInt n)) = (i64_min \<le> n \<and> n < 2 ^ 64)"
| "wf_json (JNum (JFloat f)) = (case f of Fin _ \<Rightarrow> True | _ \<Rightarrow> False)"
| "wf_json _ = True"

lemma wf_json_lookup: "wf_json (JObj m) \<Longrightarrow> map_of m k = Some v \<Longrightarrow> wf_json v"
  using map_of_SomeD [of m k v] by fastforce

lemma wf_json_insert: "wf_json (JObj m) \<Longrightarrow> wf_json v \<Longrightarrow> wf_json (JObj (obj_insert k v m))"
proof -
  have "set (obj_insert k v m) \<subseteq> insert (k, v) (set m)"
    by (induction k v m rule: obj_insert.induct) auto
  then show "wf_json (JObj m) \<Longrightarrow> wf_json v \<Longrightarrow> wf_json (JObj (obj_insert k v m))"
    by (fastforce intro: sorted_map_insert)
qed

lemma wf_json_remove: "wf_json (JObj m) \<Longrightarrow> wf_json (JObj (obj_remove k m))"
  by (auto simp: sorted_map_remove) (auto simp: obj_remove_def)

end
