(* ===== verification/OpenApi.thy ===== *)
theory OpenApi
  imports Json
begin

text \<open>
  The part of the \<open>openapiv3\<close> document types that chasm reads: each record holds the fields the code
  accesses, each datatype the variants it matches on. An \<open>IndexMap\<close> is an association list in document
  order. The crate is not part of the repository; nothing but the shape of its data is used.
\<close>

datatype 'a ref_or = Reference string | Item 'a

primrec as_item :: "'a ref_or \<Rightarrow> 'a option" where
  "as_item (Item x) = Some x"
| "as_item (Reference r) = None"

section \<open>Schemas\<close>

datatype str_format = SF_Date | SF_DateTime | SF_Password | SF_Byte | SF_Binary
datatype int_format = IF_Int32 | IF_Int64
datatype 'a variant = VItem 'a | VUnknown string | VEmpty

record string_type =
  st_format :: "str_format variant"
  st_pattern :: "string option"
  st_enumeration :: "string option list"
  st_min_length :: "nat option"
  st_max_length :: "nat option"

record integer_type =
  it_format :: "int_format variant"
  it_multiple_of :: "int option"
  it_exclusive_minimum :: bool
  it_exclusive_maximum :: bool
  it_minimum :: "int option"
  it_maximum :: "int option"
  it_enumeration :: "int option list"

record number_type =
  nt_multiple_of :: "f64 option"
  nt_exclusive_minimum :: bool
  nt_exclusive_maximum :: bool
  nt_minimum :: "f64 option"
  nt_maximum :: "f64 option"
  nt_enumeration :: "f64 option list"

record boolean_type =
  bt_enumeration :: "bool option list"

record discriminator =
  property_name :: string
  mapping :: "string str_map"

record schema_data =
  sd_nullable :: bool
  sd_discriminator :: "discriminator option"
  sd_example :: "json option"

datatype schema = Schema (schema_data: schema_data) (schema_kind: schema_kind)
and schema_kind =
    KString string_type
  | KInteger integer_type
  | KNumber number_type
  | KBoolean boolean_type
  | KObject object_type
  | KArray array_type
  | KOneOf "schema ref_or list"
  | KAnyOf "schema ref_or list"
  | KAllOf "schema ref_or list"
  | KNot "schema ref_or"
  | KAny any_schema
and object_type =
    Object_Type
      (ot_properties: "(string \<times> schema ref_or) list")
      (ot_required: "string list")
      (ot_additional: "additional option")
and additional = AP_Any bool | AP_Schema "schema ref_or"
and array_type =
    Array_Type
      (at_items: "schema ref_or option")
      (at_min_items: "nat option")
      (at_max_items: "nat option")
      (at_unique_items: bool)
and any_schema =
    Any_Schema
      (any_typ: "string option")
      (any_pattern: "string option")
      (any_format: "string option")
      (any_enumeration: "json list")
      (any_properties: "(string \<times> schema ref_or) list")
      (any_required: "string list")
      (any_not: "schema ref_or option")

section \<open>Parameters, bodies, responses\<close>

datatype param_format = PF_Schema "schema ref_or" | PF_Content

record parameter_data =
  pd_name :: string
  pd_required :: bool
  pd_format :: param_format
  pd_explode :: "bool option"

datatype query_style = QS_Form | QS_SpaceDelimited | QS_PipeDelimited | QS_DeepObject
datatype path_style = PS_Matrix | PS_Label | PS_Simple

datatype parameter =
    P_Query parameter_data query_style
  | P_Header parameter_data
  | P_Path parameter_data path_style
  | P_Cookie parameter_data

record example =
  ex_value :: "json option"

record media_type =
  mt_schema :: "schema ref_or option"
  mt_example :: "json option"
  mt_examples :: "example ref_or str_map"

record header =
  h_format :: param_format
  h_example :: "json option"

record response =
  r_headers :: "header ref_or str_map"
  r_content :: "media_type str_map"
  r_extensions :: "json str_map"

record request_body =
  rb_content :: "media_type str_map"
  rb_required :: bool

datatype status_code = Code u16 | Range u16

record responses =
  rs_default :: "response ref_or option"
  rs_responses :: "(status_code \<times> response ref_or) list"

section \<open>Operations, paths, security\<close>

record server =
  sv_url :: string
  sv_variables :: "string str_map option"

datatype api_key_location = AL_Query | AL_Header | AL_Cookie

datatype security_scheme =
    APIKey api_key_location string
  | HTTP string
  | OAuth2
  | OpenIDConnect

type_synonym security_requirement = "string list str_map"

record operation =
  op_operation_id :: "string option"
  op_summary :: "string option"
  op_parameters :: "parameter ref_or list"
  op_request_body :: "request_body ref_or option"
  op_responses :: responses
  op_security :: "security_requirement list option"
  op_servers :: "server list"
  op_extensions :: "json str_map"

record path_item =
  pi_get :: "operation option"
  pi_put :: "operation option"
  pi_post :: "operation option"
  pi_delete :: "operation option"
  pi_options :: "operation option"
  pi_head :: "operation option"
  pi_patch :: "operation option"
  pi_trace :: "operation option"
  pi_servers :: "server list"
  pi_parameters :: "parameter ref_or list"

record components =
  c_schemas :: "schema ref_or str_map"
  c_responses :: "response ref_or str_map"
  c_parameters :: "parameter ref_or str_map"
  c_examples :: "example ref_or str_map"
  c_request_bodies :: "request_body ref_or str_map"
  c_headers :: "header ref_or str_map"
  c_security_schemes :: "security_scheme ref_or str_map"

record openapi =
  spec_openapi :: string
  spec_title :: string
  spec_version :: string
  spec_paths :: "path_item ref_or str_map"
  spec_components :: "components option"
  spec_security :: "security_requirement list option"
  spec_servers :: "server list"
  spec_extensions :: "json str_map"

section \<open>One-hop references\<close>

text \<open>
  Every \<open>resolve_*\<close> function of the code has the same shape: an inline item is itself, a reference
  \<open>#/components/<bag>/<name>\<close> is followed to an inline entry of the bag, anything else is \<open>None\<close>.
  The interface is a locale over the prefix and the bag.
\<close>

locale one_hop =
  fixes resolve :: "openapi \<Rightarrow> 'a ref_or \<Rightarrow> 'a option"
    and prefix :: string
    and bag :: "components \<Rightarrow> 'a ref_or str_map"
  assumes resolve_item: "resolve spec (Item x) = Some x"
    and resolve_ref: "resolve spec (Reference r) =
      Option.bind (strip_prefix r prefix) (\<lambda>name.
      Option.bind (spec_components spec) (\<lambda>c.
      Option.bind (map_of (bag c) name) as_item))"
begin

lemma resolve_SomeD:
  assumes "resolve spec r = Some x"
  shows "r = Item x \<or>
    (\<exists>name c. r = Reference (prefix @ name) \<and> spec_components spec = Some c
      \<and> map_of (bag c) name = Some (Item x))"
proof (cases r)
  case (Item y)
  with assms show ?thesis by (simp add: resolve_item)
next
  case (Reference s)
  with assms show ?thesis
    by (auto simp: resolve_ref bind_eq_Some_conv) (metis as_item.simps ref_or.exhaust option.inject option.simps(3))
qed

lemma resolve_foreign_ref: "\<not> starts_with s prefix \<Longrightarrow> resolve spec (Reference s) = None"
  by (simp add: resolve_ref strip_prefix_def)

lemma resolve_chain:
  "spec_components spec = Some c \<Longrightarrow> map_of (bag c) name = Some (Reference t)
   \<Longrightarrow> resolve spec (Reference (prefix @ name)) = None"
  by (simp add: resolve_ref)

lemma resolve_component:
  "spec_components spec = Some c \<Longrightarrow> map_of (bag c) name = Some (Item x)
   \<Longrightarrow> resolve spec (Reference (prefix @ name)) = Some x"
  by (simp add: resolve_ref)

end

end
