(* ===== verification/Types.thy ===== *)
theory Types
  imports OpenApi
begin

text \<open>
  The engine's own data: requests, responses, configuration (\<open>engine.rs\<close>), diagnostics
  (\<open>validation.rs\<close>) and errors with their rendering (\<open>lib.rs\<close>).
\<close>

record mock_request =
  mr_method :: string
  mr_path :: string
  mr_headers :: "string str_map"
  mr_query :: "string str_map"
  mr_body :: "json option"

record mock_response =
  rsp_status :: u16
  rsp_content_type :: string
  rsp_body :: json
  rsp_headers :: "(string \<times> string) list"
  rsp_delay_ms :: "nat option"
  rsp_content_encoding :: "string option"
  rsp_echo :: bool

definition mock_response_default :: mock_response where
  "mock_response_default =
     \<lparr>rsp_status = 200, rsp_content_type = ''application/json'', rsp_body = JObj [], rsp_headers = [],
      rsp_delay_ms = None, rsp_content_encoding = None, rsp_echo = False\<rparr>"

record mock_config =
  cfg_dynamic :: bool
  cfg_ignore_examples :: bool
  cfg_seed :: "u64 option"
  cfg_example_key :: "string option"
  cfg_force_code :: "u16 option"
  cfg_errors :: bool
  cfg_fill_properties :: "bool option"
  cfg_strict_method_matching :: bool
  cfg_check_security :: bool

definition mock_config_default :: mock_config where
  "mock_config_default =
     \<lparr>cfg_dynamic = False, cfg_ignore_examples = False, cfg_seed = None, cfg_example_key = None,
      cfg_force_code = None, cfg_errors = False, cfg_fill_properties = None,
      cfg_strict_method_matching = False, cfg_check_security = True\<rparr>"

section \<open>Diagnostics\<close>

datatype validation_location = LPath | LQuery | LHeader | LBody

fun location_as_str :: "validation_location \<Rightarrow> string" where
  "location_as_str LPath = ''path''"
| "location_as_str LQuery = ''query''"
| "location_as_str LHeader = ''header''"
| "location_as_str LBody = ''body''"

datatype validation_severity = SError | SWarning | SInfo

fun severity_as_str :: "validation_severity \<Rightarrow> string" where
  "severity_as_str SError = ''Error''"
| "severity_as_str SWarning = ''Warning''"
| "severity_as_str SInfo = ''Info''"

record validation_error =
  ve_location :: validation_location
  ve_field :: string
  ve_message :: string
  ve_code :: string
  ve_severity :: validation_severity

definition verr :: "validation_location \<Rightarrow> string \<Rightarrow> string \<Rightarrow> string \<Rightarrow> validation_error" where
  "verr loc field code message =
     \<lparr>ve_location = loc, ve_field = field, ve_message = message, ve_code = code, ve_severity = SError\<rparr>"

lemma verr_simps [simp]:
  "ve_location (verr l f c m) = l" "ve_field (verr l f c m) = f" "ve_code (verr l f c m) = c"
  "ve_severity (verr l f c m) = SError" "ve_message (verr l f c m) = m"
  by (simp_all add: verr_def)

section \<open>Errors of a mock call\<close>

text \<open>The faker's error is opaque here: it is carried through with its rendering.\<close>

datatype mock_error =
    NoRoute string string
  | MethodNotAllowed string string string
  | Generation string string string
  | NoResponseDefined
  | NoResponseForCode string string u16
  | NotAcceptable "string list"
  | SpecSerialization string
  | ValidationFailed "validation_error list"
  | Unauthorized string "string option"
  | ExampleNotFound string string

definition format_validation_failed :: "validation_error list \<Rightarrow> string" where
  "format_validation_failed errors =
     (case errors of
        [] \<Rightarrow> ''Request validation failed (0 errors)''
      | first # _ \<Rightarrow>
          (let extra = length errors - 1 in
           if extra = 0 then
             ''Request validation failed: '' @ ve_field first @ '': '' @ ve_message first
           else
             ''Request validation failed: '' @ ve_field first @ '': '' @ ve_message first
             @ '' (+'' @ show_nat extra @ '' more)''))"

definition format_unauthorized :: "string \<Rightarrow> string option \<Rightarrow> string" where
  "format_unauthorized scheme www =
     (case www of
        Some challenge \<Rightarrow>
          ''Unauthorized: scheme '' @ [CHR 0x27] @ scheme @ [CHR 0x27] @ '' (challenge: '' @ challenge @ '')''
      | None \<Rightarrow> ''Unauthorized: scheme '' @ [CHR 0x27] @ scheme @ [CHR 0x27])"

definition display_mock_error :: "mock_error \<Rightarrow> string" where
  "display_mock_error e =
     (case e of
        NoRoute m p \<Rightarrow> ''No route for '' @ m @ '' '' @ p
      | MethodNotAllowed m p _ \<Rightarrow> ''Method '' @ m @ '' not allowed for '' @ p
      | Generation m p src \<Rightarrow> ''Generation error for '' @ m @ '' '' @ p @ '': '' @ src
      | NoResponseDefined \<Rightarrow> ''operation has no responses defined''
      | NoResponseForCode m p code \<Rightarrow>
          ''No response defined for code '' @ show_nat (unat code) @ '' on '' @ m @ '' '' @ p
      | NotAcceptable acc \<Rightarrow>
          ''None of the offered media types are acceptable: ['' @ join '', '' acc @ '']''
      | SpecSerialization msg \<Rightarrow> ''Spec serialization error: '' @ msg
      | ValidationFailed es \<Rightarrow> format_validation_failed es
      | Unauthorized scheme www \<Rightarrow> format_unauthorized scheme www
      | ExampleNotFound ct key \<Rightarrow>
          ''Response for contentType: '' @ ct @ '' and exampleKey: '' @ key @ '' does not exist.'')"

end
