(* ===== verification/Prefer.thy ===== *)
theory Prefer
  imports Types
begin

text \<open>
  \<open>prefer.rs\<close>: the RFC 7240 \<open>Prefer\<close> header and the \<open>__\<close> query parameters. \<open>strip_prefix_ignore_ascii_case\<close>
  slices at the byte length of the expected token, so the header parser can panic; its outcome is a
  \<open>run\<close>.
\<close>

record prefer_directives =
  pf_code :: "u16 option"
  pf_example :: "string option"
  pf_dynamic :: "bool option"
  pf_seed :: "u64 option"
  pf_validate :: "bool option"
  pf_security :: "bool option"

definition prefer_default :: prefer_directives where
  "prefer_default =
     \<lparr>pf_code = None, pf_example = None, pf_dynamic = None, pf_seed = None, pf_validate = None,
      pf_security = None\<rparr>"

definition parse_bool :: "string \<Rightarrow> bool option" where
  "parse_bool s =
     (let l = to_ascii_lowercase s in
      if l = ''true'' \<or> l = ''1'' \<or> l = ''yes'' then Some True
      else if l = ''false'' \<or> l = ''0'' \<or> l = ''no'' then Some False
      else None)"

definition strip_token_parameters :: "string \<Rightarrow> string" where
  "strip_token_parameters v = trim (hd (split_on (CHR '';'') v))"

definition strip_prefix_ignore_ascii_case :: "string \<Rightarrow> string \<Rightarrow> string option run" where
  "strip_prefix_ignore_ascii_case s p =
     (if length p \<le> length s then
        run_bind (slice_to s (length p)) (\<lambda>pre.
          if eq_ignore_ascii_case pre p then run_map Some (slice_from s (length p)) else Done None)
      else Done None)"

text \<open>The directives in the order of the \<open>if let ... else if let\<close> chain, with what each sets.\<close>

definition set_code :: "string \<Rightarrow> prefer_directives \<Rightarrow> prefer_directives" where
  "set_code rest out =
     (case parse_u16 (strip_token_parameters rest) of Some n \<Rightarrow> out\<lparr>pf_code := Some n\<rparr> | None \<Rightarrow> out)"

definition set_seed :: "string \<Rightarrow> prefer_directives \<Rightarrow> prefer_directives" where
  "set_seed rest out =
     (case parse_u64 (strip_token_parameters rest) of Some n \<Rightarrow> out\<lparr>pf_seed := Some n\<rparr> | None \<Rightarrow> out)"

definition prefer_tokens :: "(string \<times> (string \<Rightarrow> prefer_directives \<Rightarrow> prefer_directives)) list" where
  "prefer_tokens =
     [(''code='', set_code),
      (''example='', \<lambda>rest out. out\<lparr>pf_example := Some (strip_token_parameters rest)\<rparr>),
      (''dynamic='', \<lambda>rest out. out\<lparr>pf_dynamic := parse_bool (strip_token_parameters rest)\<rparr>),
      (''seed='', set_seed),
      (''validate='', \<lambda>rest out. out\<lparr>pf_validate := parse_bool (strip_token_parameters rest)\<rparr>),
      (''security='', \<lambda>rest out. out\<lparr>pf_security := parse_bool (strip_token_parameters rest)\<rparr>)]"

fun apply_first ::
  "(string \<times> (string \<Rightarrow> prefer_directives \<Rightarrow> prefer_directives)) list \<Rightarrow> string
   \<Rightarrow> prefer_directives \<Rightarrow> prefer_directives run" where
  "apply_first [] part out = Done out"
| "apply_first ((tok, f) # rest) part out =
     run_bind (strip_prefix_ignore_ascii_case part tok) (\<lambda>r.
       case r of Some v \<Rightarrow> Done (f v out) | None \<Rightarrow> apply_first rest part out)"

fun prefer_parts :: "string list \<Rightarrow> prefer_directives \<Rightarrow> prefer_directives run" where
  "prefer_parts [] out = Done out"
| "prefer_parts (p # ps) out = run_bind (apply_first prefer_tokens (trim p) out) (prefer_parts ps)"

definition from_prefer_header :: "string \<Rightarrow> prefer_directives run" where
  "from_prefer_header value = prefer_parts (split_on (CHR '','') value) prefer_default"

definition from_query :: "string str_map \<Rightarrow> prefer_directives" where
  "from_query q =
     \<lparr>pf_code = Option.bind (map_of q ''__code'') parse_u16,
      pf_example = map_of q ''__example'',
      pf_dynamic = Option.bind (map_of q ''__dynamic'') parse_bool,
      pf_seed = Option.bind (map_of q ''__seed'') parse_u64,
      pf_validate = Option.bind (map_of q ''__validate'') parse_bool,
      pf_security = Option.bind (map_of q ''__security'') parse_bool\<rparr>"

definition merge_query_over_header :: "prefer_directives \<Rightarrow> prefer_directives \<Rightarrow> prefer_directives" where
  "merge_query_over_header header query =
     \<lparr>pf_code = or_else (pf_code query) (pf_code header),
      pf_example = or_else (pf_example query) (pf_example header),
      pf_dynamic = or_else (pf_dynamic query) (pf_dynamic header),
      pf_seed = or_else (pf_seed query) (pf_seed header),
      pf_validate = or_else (pf_validate query) (pf_validate header),
      pf_security = or_else (pf_security query) (pf_security header)\<rparr>"

definition from_request :: "string str_map \<Rightarrow> string str_map \<Rightarrow> prefer_directives run" where
  "from_request headers query =
     run_map (\<lambda>h. merge_query_over_header h (from_query query))
       (case find_entry (\<lambda>k. eq_ignore_ascii_case k ''prefer'') headers of
          Some v \<Rightarrow> from_prefer_header v
        | None \<Rightarrow> Done prefer_default)"

section \<open>Facts\<close>

lemma strip_prefix_iac_append:
  assumes "eq_ignore_ascii_case p p'" and "is_char_boundary (p @ r) (length p)"
  shows "strip_prefix_ignore_ascii_case (p @ r) p' = Done (Some r)"
proof -
  have "length p' = length p"
    using assms(1) by (metis eq_ignore_ascii_case_def length_to_ascii(1))
  with assms show ?thesis
    by (simp add: strip_prefix_ignore_ascii_case_def slice_to_def slice_from_def)
qed

lemma strip_prefix_iac_ascii:
  "is_ascii s \<Longrightarrow> strip_prefix_ignore_ascii_case s p =
     Done (if length p \<le> length s \<and> eq_ignore_ascii_case (take (length p) s) p
           then Some (drop (length p) s) else None)"
  by (auto simp: strip_prefix_ignore_ascii_case_def slice_to_def slice_from_def is_ascii_boundary)

lemma apply_first_ascii: "is_ascii s \<Longrightarrow> \<exists>d. apply_first toks s out = Done d"
  by (induction toks s out rule: apply_first.induct) (auto simp: strip_prefix_iac_ascii)

lemma prefer_parts_ascii: "(\<And>p. p \<in> set ps \<Longrightarrow> is_ascii p) \<Longrightarrow> \<exists>d. prefer_parts ps out = Done d"
proof (induction ps arbitrary: out)
  case (Cons p ps)
  obtain d where "apply_first prefer_tokens (trim p) out = Done d"
    using apply_first_ascii [of "trim p"] Cons.prems is_ascii_trim by (meson list.set_intros(1))
  with Cons show ?case by simp
qed simp

text \<open>Parsing a Prefer header made of ASCII bytes never panics; it returns a directive set.\<close>

theorem prefer_header_ascii_total:
  "is_ascii v \<Longrightarrow> \<exists>d. from_prefer_header v = Done d"
  unfolding from_prefer_header_def by (rule prefer_parts_ascii) (rule is_ascii_split_on)

theorem prefer_header_ascii_total_witness: "\<exists>d. from_prefer_header ''code=404, foo'' = Done d"
  by (rule prefer_header_ascii_total) code_simp

text \<open>
  A single Prefer token whose fifth byte offset lies inside a multi-byte character makes the
  parser panic, whatever the token is (the slice \<open>s[..5]\<close> taken to compare with \<open>code=\<close>).
\<close>

theorem prefer_header_panics_inside_character:
  assumes "trim v = v" and "CHR '','' \<notin> set v" and "5 \<le> length v" and "\<not> is_char_boundary v 5"
  shows "from_prefer_header v = Panic"
proof -
  have len: "length ''code='' = 5" by simp
  have "strip_prefix_ignore_ascii_case v ''code='' = Panic"
    unfolding strip_prefix_ignore_ascii_case_def len using assms(3,4) by (simp add: slice_to_def)
  then have "apply_first prefer_tokens v prefer_default = Panic"
    by (simp add: prefer_tokens_def)
  then show ?thesis using assms(1,2) by (simp add: from_prefer_header_def split_on_no_sep)
qed

theorem prefer_header_panics_inside_character_witness:
  "from_prefer_header (''abcd'' @ [CHR 0xC3, CHR 0xA9]) = Panic"
  by (rule prefer_header_panics_inside_character) code_simp+

text \<open>Rendering a directive set as a header, in the order of the parser's branches.\<close>

definition show_bool :: "bool \<Rightarrow> string" where
  "show_bool b = (if b then ''true'' else ''false'')"

definition render_prefer :: "prefer_directives \<Rightarrow> string list" where
  "render_prefer d =
     (case pf_code d of Some n \<Rightarrow> [''code='' @ show_nat (unat n)] | None \<Rightarrow> [])
     @ (case pf_example d of Some e \<Rightarrow> [''example='' @ e] | None \<Rightarrow> [])
     @ (case pf_dynamic d of Some b \<Rightarrow> [''dynamic='' @ show_bool b] | None \<Rightarrow> [])
     @ (case pf_seed d of Some n \<Rightarrow> [''seed='' @ show_nat (unat n)] | None \<Rightarrow> [])
     @ (case pf_validate d of Some b \<Rightarrow> [''validate='' @ show_bool b] | None \<Rightarrow> [])
     @ (case pf_security d of Some b \<Rightarrow> [''security='' @ show_bool b] | None \<Rightarrow> [])"

text \<open>An example name that survives a header: visible ASCII without separators.\<close>

definition plain_name :: "string \<Rightarrow> bool" where
  "plain_name e \<longleftrightarrow> e \<noteq> [] \<and> (\<forall>c \<in> set e. solid c \<and> c \<noteq> CHR '','' \<and> c \<noteq> CHR '';'')"

lemma plain_name_show_nat [simp]: "plain_name (show_nat n)"
proof -
  have "solid c \<and> c \<noteq> CHR '','' \<and> c \<noteq> CHR '';''" if "c \<in> set (show_nat n)" for c
    using show_nat_digits [OF that] by (auto simp: solid_def byte_def)
  then show ?thesis by (simp add: plain_name_def)
qed

lemma plain_name_show_bool [simp]: "plain_name (show_bool b)"
  by (cases b) (auto simp: plain_name_def show_bool_def solid_def byte_def)

lemma plain_name_append: "plain_name a \<Longrightarrow> plain_name b \<Longrightarrow> plain_name (a @ b)"
  by (auto simp: plain_name_def)

lemma plain_name_tok:
  "tok \<in> {''code='', ''example='', ''dynamic='', ''seed='', ''validate='', ''security=''} \<Longrightarrow> plain_name tok"
  by (auto simp: plain_name_def solid_def byte_def)

lemma plain_name_trim [simp]: "plain_name e \<Longrightarrow> trim e = e"
  by (intro trim_solid) (auto simp: plain_name_def)

lemma plain_name_ascii: "plain_name e \<Longrightarrow> is_ascii e"
  unfolding plain_name_def is_ascii_def list_all_iff using solid_ascii by blast

lemma plain_name_no_sep: "plain_name e \<Longrightarrow> CHR '','' \<notin> set e \<and> CHR '';'' \<notin> set e"
  unfolding plain_name_def by blast

lemma plain_name_strip_parameters [simp]: "plain_name e \<Longrightarrow> strip_token_parameters e = e"
  by (simp add: strip_token_parameters_def split_on_no_sep plain_name_no_sep)

lemma parse_bool_show_bool [simp]: "parse_bool (show_bool b) = Some b"
proof (cases b)
  case True
  then show ?thesis by simp code_simp
next
  case False
  then show ?thesis by simp code_simp
qed

lemma apply_first_skip:
  assumes "is_ascii s" and "i < length tok" and "i < length s" and "lower_byte (s ! i) \<noteq> lower_byte (tok ! i)"
  shows "apply_first ((tok, f) # rest) s out = apply_first rest s out"
proof -
  have "\<not> eq_ignore_ascii_case (take (length tok) s) tok"
  proof
    assume "eq_ignore_ascii_case (take (length tok) s) tok"
    then have "map lower_byte (take (length tok) s) ! i = map lower_byte tok ! i"
      by (simp add: eq_ignore_ascii_case_def to_ascii_lowercase_def)
    with assms show False by simp
  qed
  with assms(1) show ?thesis by (simp add: strip_prefix_iac_ascii)
qed

lemma apply_first_hit:
  assumes "is_ascii (tok' @ e)" and "eq_ignore_ascii_case tok' tok"
  shows "apply_first ((tok, f) # rest) (tok' @ e) out = Done (f e out)"
  using assms by (simp add: strip_prefix_iac_append is_ascii_boundary)

text \<open>The token of a part decides which directive it sets; ASCII case is ignored.\<close>

lemma prefer_token_steps:
  assumes "is_ascii (tok @ e)"
  shows
    "eq_ignore_ascii_case tok ''code='' \<Longrightarrow>
       apply_first prefer_tokens (tok @ e) out = Done (set_code e out)"
    "eq_ignore_ascii_case tok ''example='' \<Longrightarrow>
       apply_first prefer_tokens (tok @ e) out = Done (out\<lparr>pf_example := Some (strip_token_parameters e)\<rparr>)"
    "eq_ignore_ascii_case tok ''dynamic='' \<Longrightarrow>
       apply_first prefer_tokens (tok @ e) out = Done (out\<lparr>pf_dynamic := parse_bool (strip_token_parameters e)\<rparr>)"
    "eq_ignore_ascii_case tok ''seed='' \<Longrightarrow>
       apply_first prefer_tokens (tok @ e) out = Done (set_seed e out)"
    "eq_ignore_ascii_case tok ''validate='' \<Longrightarrow>
       apply_first prefer_tokens (tok @ e) out = Done (out\<lparr>pf_validate := parse_bool (strip_token_parameters e)\<rparr>)"
    "eq_ignore_ascii_case tok ''security='' \<Longrightarrow>
       apply_first prefer_tokens (tok @ e) out = Done (out\<lparr>pf_security := parse_bool (strip_token_parameters e)\<rparr>)"
proof -
  have nth: "i < length lit \<Longrightarrow> lower_byte ((tok @ e) ! i) = lower_byte (lit ! i) \<and> i < length (tok @ e)"
    if "eq_ignore_ascii_case tok lit" for i lit
  proof -
    assume i: "i < length lit"
    from that have m: "map lower_byte tok = map lower_byte lit"
      by (simp add: eq_ignore_ascii_case_def to_ascii_lowercase_def)
    then have "length tok = length lit" by (metis length_map)
    moreover from m i this have "lower_byte (tok ! i) = lower_byte (lit ! i)" by (metis nth_map)
    ultimately show ?thesis using i by (simp add: nth_append)
  qed
  note skip = apply_first_skip [OF assms]
  note lows = lower_byte_def byte_def
  { assume t: "eq_ignore_ascii_case tok ''code=''"
    show "apply_first prefer_tokens (tok @ e) out = Done (set_code e out)"
      unfolding prefer_tokens_def by (rule apply_first_hit [OF assms t]) }
  { assume t: "eq_ignore_ascii_case tok ''example=''"
    note n = nth [OF t, of 0]
    show "apply_first prefer_tokens (tok @ e) out = Done (out\<lparr>pf_example := Some (strip_token_parameters e)\<rparr>)"
      unfolding prefer_tokens_def using n
      by (subst skip [of 0]) (simp_all add: apply_first_hit [OF assms t] lows del: apply_first.simps) }
  { assume t: "eq_ignore_ascii_case tok ''dynamic=''"
    note n = nth [OF t, of 0]
    show "apply_first prefer_tokens (tok @ e) out = Done (out\<lparr>pf_dynamic := parse_bool (strip_token_parameters e)\<rparr>)"
      unfolding prefer_tokens_def using n
      by (simp add: skip [of 0] apply_first_hit [OF assms t] lows del: apply_first.simps) }
  { assume t: "eq_ignore_ascii_case tok ''seed=''"
    note n = nth [OF t, of 0]
    show "apply_first prefer_tokens (tok @ e) out = Done (set_seed e out)"
      unfolding prefer_tokens_def using n
      by (simp add: skip [of 0] apply_first_hit [OF assms t] lows del: apply_first.simps) }
  { assume t: "eq_ignore_ascii_case tok ''validate=''"
    note n = nth [OF t, of 0]
    show "apply_first prefer_tokens (tok @ e) out = Done (out\<lparr>pf_validate := parse_bool (strip_token_parameters e)\<rparr>)"
      unfolding prefer_tokens_def using n
      by (simp add: skip [of 0] apply_first_hit [OF assms t] lows del: apply_first.simps) }
  { assume t: "eq_ignore_ascii_case tok ''security=''"
    note n = nth [OF t, of 0] nth [OF t, of 2]
    show "apply_first prefer_tokens (tok @ e) out = Done (out\<lparr>pf_security := parse_bool (strip_token_parameters e)\<rparr>)"
      unfolding prefer_tokens_def using n
      by (simp add: skip [of 0] skip [of 2] apply_first_hit [OF assms t] lows del: apply_first.simps) }
qed

lemma plain_token_steps:
  assumes "plain_name e"
  shows
    "apply_first prefer_tokens (trim (''code='' @ e)) out = Done (set_code e out)"
    "apply_first prefer_tokens (trim (''example='' @ e)) out = Done (out\<lparr>pf_example := Some e\<rparr>)"
    "apply_first prefer_tokens (trim (''dynamic='' @ e)) out = Done (out\<lparr>pf_dynamic := parse_bool e\<rparr>)"
    "apply_first prefer_tokens (trim (''seed='' @ e)) out = Done (set_seed e out)"
    "apply_first prefer_tokens (trim (''validate='' @ e)) out = Done (out\<lparr>pf_validate := parse_bool e\<rparr>)"
    "apply_first prefer_tokens (trim (''security='' @ e)) out = Done (out\<lparr>pf_security := parse_bool e\<rparr>)"
proof -
  have name: "plain_name (tok @ e)"
    if "tok \<in> {''code='', ''example='', ''dynamic='', ''seed='', ''validate='', ''security=''}" for tok
    using plain_name_append [OF plain_name_tok [OF that] assms] .
  note steps = prefer_token_steps [OF plain_name_ascii [OF name]]
  note trims = plain_name_trim [OF name] plain_name_strip_parameters [OF assms]
  show "apply_first prefer_tokens (trim (''code='' @ e)) out = Done (set_code e out)"
    by (subst trims(1), simp, rule steps, simp_all)
  show "apply_first prefer_tokens (trim (''example='' @ e)) out = Done (out\<lparr>pf_example := Some e\<rparr>)"
    using steps(2) [of "''example=''" out] by (subst trims(1), simp, simp only: trims(2) insert_iff simp_thms eq_ignore_ascii_case_refl)
  show "apply_first prefer_tokens (trim (''dynamic='' @ e)) out = Done (out\<lparr>pf_dynamic := parse_bool e\<rparr>)"
    using steps(3) [of "''dynamic=''" out] by (subst trims(1), simp, simp only: trims(2) insert_iff simp_thms eq_ignore_ascii_case_refl)
  show "apply_first prefer_tokens (trim (''seed='' @ e)) out = Done (set_seed e out)"
    by (subst trims(1), simp, rule steps, simp_all)
  show "apply_first prefer_tokens (trim (''validate='' @ e)) out = Done (out\<lparr>pf_validate := parse_bool e\<rparr>)"
    using steps(5) [of "''validate=''" out] by (subst trims(1), simp, simp only: trims(2) insert_iff simp_thms eq_ignore_ascii_case_refl)
  show "apply_first prefer_tokens (trim (''security='' @ e)) out = Done (out\<lparr>pf_security := parse_bool e\<rparr>)"
    using steps(6) [of "''security=''" out] by (subst trims(1), simp, simp only: trims(2) insert_iff simp_thms eq_ignore_ascii_case_refl)
qed

lemma prefer_parts_append:
  "prefer_parts (ps @ qs) out = run_bind (prefer_parts ps out) (prefer_parts qs)"
proof (induction ps arbitrary: out)
  case (Cons p ps)
  then show ?case by (cases "apply_first prefer_tokens (trim p) out") simp_all
qed simp

lemma set_code_show [simp]: "set_code (show_nat (unat n)) out = out\<lparr>pf_code := Some n\<rparr>"
  by (simp add: set_code_def parse_u16_show)

lemma set_seed_show [simp]: "set_seed (show_nat (unat n)) out = out\<lparr>pf_seed := Some n\<rparr>"
  by (simp add: set_seed_def parse_u64_show)

lemma prefer_parts_render:
  assumes "pred_option plain_name (pf_example d)"
  shows "prefer_parts (render_prefer d) prefer_default = Done d"
proof -
  have e: "pf_example d = Some e \<Longrightarrow> plain_name e" for e using assms by simp
  show ?thesis
    unfolding render_prefer_def prefer_parts_append
    by (cases "pf_code d"; cases "pf_example d"; cases "pf_dynamic d"; cases "pf_seed d";
        cases "pf_validate d"; cases "pf_security d")
       (simp_all add: plain_token_steps [simplified] e prefer_default_def)
qed

lemma render_prefer_no_comma:
  assumes "pred_option plain_name (pf_example d)" and "p \<in> set (render_prefer d)"
  shows "CHR '','' \<notin> set p"
proof -
  have e: "pf_example d = Some e \<Longrightarrow> CHR '','' \<notin> set e" for e
    using assms(1) plain_name_no_sep by simp
  note plain = plain_name_no_sep [OF plain_name_show_nat] plain_name_no_sep [OF plain_name_show_bool]
  show ?thesis
    using assms(2) e plain unfolding render_prefer_def by (auto split: option.splits)
qed

text \<open>
  C32: Writing a directive set as a Prefer header and parsing that header returns the same set, for
  every status code, seed, flag combination and example name of visible ASCII without separators.
\<close>

theorem prefer_header_roundtrip:
  assumes "pred_option plain_name (pf_example d)"
  shows "from_prefer_header (join [CHR '',''] (render_prefer d)) = Done d"
proof (cases "render_prefer d = []")
  case True
  with prefer_parts_render [OF assms] have "d = prefer_default" by simp
  moreover have "from_prefer_header [] = Done prefer_default" by code_simp
  ultimately show ?thesis using True by simp
next
  case False
  with render_prefer_no_comma [OF assms]
  have "split_on (CHR '','') (join [CHR '',''] (render_prefer d)) = render_prefer d"
    by (intro split_on_join) auto
  with prefer_parts_render [OF assms] show ?thesis by (simp only: from_prefer_header_def)
qed

theorem prefer_header_roundtrip_witness:
  "from_prefer_header (join [CHR '','']
     (render_prefer (prefer_default\<lparr>pf_code := Some 404, pf_example := Some ''fido''\<rparr>)))
   = Done (prefer_default\<lparr>pf_code := Some 404, pf_example := Some ''fido''\<rparr>)"
  by (rule prefer_header_roundtrip) (simp add: plain_name_def solid_def byte_def)

text \<open>
  The directives of a request do not depend on the iteration order of the header map, provided no
  two of its names differ only in ASCII case.
\<close>

theorem from_request_order_independent:
  assumes "set headers = set headers'"
    and "\<And>k v k' v'. (k, v) \<in> set headers \<Longrightarrow> (k', v') \<in> set headers
           \<Longrightarrow> eq_ignore_ascii_case k k' \<Longrightarrow> v = v'"
  shows "from_request headers query = from_request headers' query"
proof -
  have "find_entry (\<lambda>k. eq_ignore_ascii_case k ''prefer'') headers
      = find_entry (\<lambda>k. eq_ignore_ascii_case k ''prefer'') headers'"
    using assms(1)
  proof (rule find_entry_perm)
    fix k v k' v'
    assume kv: "(k, v) \<in> set headers" "(k', v') \<in> set headers"
      "eq_ignore_ascii_case k ''prefer''" "eq_ignore_ascii_case k' ''prefer''"
    then have "eq_ignore_ascii_case k' k"
      by (meson eq_ignore_ascii_case_sym eq_ignore_ascii_case_trans)
    with assms(2) kv show "v' = v" by blast
  qed
  then show ?thesis by (simp add: from_request_def)
qed

theorem from_request_order_independent_witness:
  "from_request [(''Accept'', ''x''), (''Prefer'', ''code=404'')] []
   = from_request [(''Prefer'', ''code=404''), (''Accept'', ''x'')] []"
proof (rule from_request_order_independent)
  fix k v k' v' :: string
  assume "(k, v) \<in> set [(''Accept'', ''x''), (''Prefer'', ''code=404'')]"
    and "(k', v') \<in> set [(''Accept'', ''x''), (''Prefer'', ''code=404'')]"
    and "eq_ignore_ascii_case k k'"
  moreover have "\<not> eq_ignore_ascii_case ''Accept'' ''Prefer''" "\<not> eq_ignore_ascii_case ''Prefer'' ''Accept''"
    by code_simp+
  ultimately show "v = v'" by auto
qed auto

end
