(* ===== verification/Router.thy ===== *)
theory Router
  imports Types
begin

text \<open>
  \<open>router.rs\<close>: path templates, server base paths, method selection and the routing loop.
  \<open>pd\<close> stands for \<open>percent_decode_str(s).decode_utf8()\<close> of the \<open>percent_encoding\<close> crate: the decoded
  text, or \<open>None\<close> when the decoded bytes are not UTF-8.
\<close>

type_synonym params = "(string \<times> string) list"

record matched_operation =
  mo_operation :: operation
  mo_path_params :: params
  mo_path_template :: string

datatype route_match =
    R_Operation matched_operation
  | R_MethodNotAllowed string
  | R_SynthesisedOptions string
  | R_NotFound

section \<open>Segments and templates\<close>

definition decode_segment :: "(string \<Rightarrow> string option) \<Rightarrow> string \<Rightarrow> string" where
  "decode_segment pd s = (case pd s of Some d \<Rightarrow> d | None \<Rightarrow> s)"

definition normalise_trailing_slash :: "string \<Rightarrow> string" where
  "normalise_trailing_slash p = (if 1 < length p \<and> ends_with p ''/'' then butlast p else p)"

datatype template_part = Lit string | Par string

text \<open>
  The scanning loop of \<open>split_template_parts\<close> with its literal buffer. Bytes outside \<open>{...}\<close> are pushed
  one by one \<open>as char\<close>.
\<close>

definition flush :: "string \<Rightarrow> template_part list" where
  "flush buf = (if buf = [] then [] else [Lit buf])"

function split_parts :: "string \<Rightarrow> string \<Rightarrow> template_part list" where
  "split_parts buf [] = flush buf"
| "split_parts buf (c # s) =
     (if c = CHR ''{'' then
        flush buf @
        (case split_once (CHR ''}'') s of
           Some (name, rest) \<Rightarrow> Par name # split_parts [] rest
         | None \<Rightarrow> split_parts [c] s)
      else split_parts (buf @ push_byte_as_char c) s)"
  by pat_completeness auto
termination
  by (relation "measure (\<lambda>(buf, s). length s)") (auto dest!: split_once_SomeD)

definition split_template_parts :: "string \<Rightarrow> template_part list" where
  "split_template_parts t = split_parts [] t"

text \<open>
  The loop of \<open>match_mixed_segment\<close>; the cursor is represented by the rest of the segment. The caller
  drops the bindings of a failed match.
\<close>

fun match_parts :: "template_part list \<Rightarrow> string \<Rightarrow> params \<Rightarrow> params option" where
  "match_parts [] rest ps = (if rest = [] then Some ps else None)"
| "match_parts (Lit l # parts) rest ps =
     (if starts_with rest l then match_parts parts (drop (length l) rest) ps else None)"
| "match_parts (Par name # Lit l # parts) rest ps =
     (case find_sub rest l of
        Some off \<Rightarrow>
          if 0 < off
          then match_parts (Lit l # parts) (drop off rest) (AList.update name (take off rest) ps)
          else None
      | None \<Rightarrow> None)"
| "match_parts (Par name # Par m # parts) rest ps = None"
| "match_parts [Par name] rest ps =
     (if rest = [] then None else Some (AList.update name rest ps))"

definition match_mixed_segment :: "string \<Rightarrow> string \<Rightarrow> params \<Rightarrow> params option" where
  "match_mixed_segment t actual ps = match_parts (split_template_parts t) actual ps"

definition is_pure_param :: "string \<Rightarrow> bool" where
  "is_pure_param t \<longleftrightarrow>
     starts_with t ''{'' \<and> ends_with t ''}'' \<and> CHR ''{'' \<notin> set (butlast (tl t))"

definition match_segment :: "string \<Rightarrow> string \<Rightarrow> params \<Rightarrow> params option" where
  "match_segment t actual ps =
     (if CHR ''{'' \<notin> set t then (if t = actual then Some ps else None)
      else if is_pure_param t then
        (if actual = [] then None else Some (AList.update (butlast (tl t)) actual ps))
      else match_mixed_segment t actual ps)"

fun match_segments :: "(string \<Rightarrow> string option) \<Rightarrow> (string \<times> string) list \<Rightarrow> params \<Rightarrow> params option" where
  "match_segments pd [] ps = Some ps"
| "match_segments pd ((t, a) # rest) ps =
     (let decoded = (if CHR ''%'' \<in> set a then decode_segment pd a else a) in
      case match_segment t decoded ps of
        None \<Rightarrow> None
      | Some ps' \<Rightarrow> match_segments pd rest ps')"

definition match_template :: "(string \<Rightarrow> string option) \<Rightarrow> string \<Rightarrow> string \<Rightarrow> params option" where
  "match_template pd template actual =
     (if count_list template (CHR ''/'') \<noteq> count_list actual (CHR ''/'') then None
      else match_segments pd (zip (split_on (CHR ''/'') template) (split_on (CHR ''/'') actual)) [])"

definition count_literal_segments :: "string \<Rightarrow> nat" where
  "count_literal_segments t = length (filter (\<lambda>s. \<not> starts_with s ''{'') (split_on (CHR ''/'') t))"

section \<open>Servers and base paths\<close>

function expand_loop :: "string str_map option \<Rightarrow> string \<Rightarrow> string" where
  "expand_loop vars [] = []"
| "expand_loop vars (c # s) =
     (if c = CHR ''{'' then
        (case split_once (CHR ''}'') s of
           Some (name, rest) \<Rightarrow>
             (case Option.bind vars (\<lambda>v. map_of v name) of
                Some dflt \<Rightarrow> dflt
              | None \<Rightarrow> CHR ''{'' # name @ ''}'') @ expand_loop vars rest
         | None \<Rightarrow> c # expand_loop vars s)
      else push_byte_as_char c @ expand_loop vars s)"
  by pat_completeness auto
termination
  by (relation "measure (\<lambda>(vars, s). length s)") (auto dest!: split_once_SomeD)

definition expand_server_variables :: "string \<Rightarrow> string str_map option \<Rightarrow> string" where
  "expand_server_variables input vars =
     (if CHR ''{'' \<notin> set input then input else expand_loop vars input)"

definition trim_end_slashes :: "string \<Rightarrow> string" where
  "trim_end_slashes s = rev (dropWhile (\<lambda>c. c = CHR ''/'') (rev s))"

definition extract_path_from_url :: "string \<Rightarrow> string str_map option \<Rightarrow> string" where
  "extract_path_from_url url vars =
     (let expanded = expand_server_variables url vars in
      case find_sub expanded ''://'' of
        Some idx \<Rightarrow>
          (let after = drop (idx + 3) expanded in
           case find_sub after ''/'' of
             Some p \<Rightarrow> trim_end_slashes (drop p after)
           | None \<Rightarrow> [])
      | None \<Rightarrow> if starts_with expanded ''/'' then trim_end_slashes expanded else [])"

definition push_unique :: "string \<Rightarrow> string list \<Rightarrow> string list" where
  "push_unique s out = (if s \<in> set out then out else out @ [s])"

definition server_candidate :: "string \<Rightarrow> server \<Rightarrow> string" where
  "server_candidate path sv =
     (let base = extract_path_from_url (sv_url sv) (sv_variables sv) in
      if base = [] \<or> base = ''/'' then path
      else (case strip_prefix path base of
              Some rest \<Rightarrow>
                if rest = [] then ''/''
                else if starts_with rest ''/'' then rest
                else CHR ''/'' # rest
            | None \<Rightarrow> path))"

definition candidate_paths_for_servers_list :: "server list \<Rightarrow> string \<Rightarrow> string list" where
  "candidate_paths_for_servers_list servers path =
     (let out = fold (\<lambda>sv out. push_unique (server_candidate path sv) out) servers []
      in if out = [] then [path] else out)"

section \<open>Methods\<close>

definition get_operation :: "path_item \<Rightarrow> string \<Rightarrow> operation option" where
  "get_operation item method =
     (let m = to_ascii_uppercase method in
      if m = ''GET'' then pi_get item
      else if m = ''PUT'' then pi_put item
      else if m = ''POST'' then pi_post item
      else if m = ''DELETE'' then pi_delete item
      else if m = ''OPTIONS'' then pi_options item
      else if m = ''HEAD'' then pi_head item
      else if m = ''PATCH'' then pi_patch item
      else if m = ''TRACE'' then pi_trace item
      else None)"

definition candidate_paths_for_operation :: "openapi \<Rightarrow> path_item \<Rightarrow> string \<Rightarrow> string \<Rightarrow> string list" where
  "candidate_paths_for_operation spec item method path =
     (case get_operation item method of
        Some op \<Rightarrow>
          if op_servers op \<noteq> [] then candidate_paths_for_servers_list (op_servers op) path
          else if pi_servers item \<noteq> [] then candidate_paths_for_servers_list (pi_servers item) path
          else candidate_paths_for_servers_list (spec_servers spec) path
      | None \<Rightarrow>
          if pi_servers item \<noteq> [] then candidate_paths_for_servers_list (pi_servers item) path
          else candidate_paths_for_servers_list (spec_servers spec) path)"

definition allow_methods :: "path_item \<Rightarrow> bool \<Rightarrow> string list" where
  "allow_methods item strict =
     (if pi_get item \<noteq> None then [''GET''] else [])
     @ (if pi_put item \<noteq> None then [''PUT''] else [])
     @ (if pi_post item \<noteq> None then [''POST''] else [])
     @ (if pi_delete item \<noteq> None then [''DELETE''] else [])
     @ (if pi_options item \<noteq> None then [''OPTIONS''] else [])
     @ (if pi_head item \<noteq> None \<or> \<not> strict \<and> pi_get item \<noteq> None then [''HEAD''] else [])
     @ (if pi_patch item \<noteq> None then [''PATCH''] else [])
     @ (if pi_trace item \<noteq> None then [''TRACE''] else [])"

definition allow_header_for_path_item_with_strict :: "path_item \<Rightarrow> bool \<Rightarrow> string" where
  "allow_header_for_path_item_with_strict item strict =
     join '', '' (remdups_adj (sort (allow_methods item strict)))"

definition allow_header_for_path_item :: "path_item \<Rightarrow> string" where
  "allow_header_for_path_item item = allow_header_for_path_item_with_strict item False"

section \<open>The routing loop\<close>

record route_state =
  rt_best :: "(nat \<times> matched_operation) option"
  rt_best_path_item :: "path_item option"
  rt_method_not_allowed_seen :: bool

definition note_method_not_allowed :: "path_item \<Rightarrow> route_state \<Rightarrow> route_state" where
  "note_method_not_allowed item st =
     st\<lparr>rt_method_not_allowed_seen := True,
        rt_best_path_item := or_else (rt_best_path_item st) (Some item)\<rparr>"

definition select_operation :: "path_item \<Rightarrow> string \<Rightarrow> bool \<Rightarrow> operation option" where
  "select_operation item upper strict =
     (case get_operation item upper of
        Some op \<Rightarrow> Some op
      | None \<Rightarrow> if upper = ''HEAD'' \<and> \<not> strict then pi_get item else None)"

definition offer :: "nat \<Rightarrow> matched_operation \<Rightarrow> route_state \<Rightarrow> route_state" where
  "offer lits m st =
     (case rt_best st of
        None \<Rightarrow> st\<lparr>rt_best := Some (lits, m)\<rparr>
      | Some (best_count, _) \<Rightarrow> if best_count < lits then st\<lparr>rt_best := Some (lits, m)\<rparr> else st)"

text \<open>The inner loop over the candidate paths: \<open>continue\<close> keeps going, a routed match breaks.\<close>

fun try_candidates ::
  "(string \<Rightarrow> string option) \<Rightarrow> string \<Rightarrow> bool \<Rightarrow> string \<Rightarrow> path_item \<Rightarrow> string list
   \<Rightarrow> route_state \<Rightarrow> route_state" where
  "try_candidates pd upper strict template item [] st = st"
| "try_candidates pd upper strict template item (cand # cands) st =
     (case match_template pd template (normalise_trailing_slash cand) of
        None \<Rightarrow> try_candidates pd upper strict template item cands st
      | Some ps \<Rightarrow>
          (case select_operation item upper strict of
             None \<Rightarrow> try_candidates pd upper strict template item cands (note_method_not_allowed item st)
           | Some op \<Rightarrow>
               offer (count_literal_segments template)
                 \<lparr>mo_operation = op, mo_path_params = ps, mo_path_template = template\<rparr> st))"

fun route_loop ::
  "(string \<Rightarrow> string option) \<Rightarrow> openapi \<Rightarrow> string \<Rightarrow> string \<Rightarrow> bool
   \<Rightarrow> (string \<times> path_item ref_or) list \<Rightarrow> route_state \<Rightarrow> route_state" where
  "route_loop pd spec upper path strict [] st = st"
| "route_loop pd spec upper path strict ((template, path_ref) # rest) st =
     (case as_item path_ref of
        None \<Rightarrow> route_loop pd spec upper path strict rest st
      | Some item \<Rightarrow>
          route_loop pd spec upper path strict rest
            (try_candidates pd upper strict template item
               (candidate_paths_for_operation spec item upper path) st))"

definition route_request_with_strict ::
  "(string \<Rightarrow> string option) \<Rightarrow> openapi \<Rightarrow> string \<Rightarrow> string \<Rightarrow> bool \<Rightarrow> route_match" where
  "route_request_with_strict pd spec method path strict =
     (let upper = to_ascii_uppercase method;
          st = route_loop pd spec upper path strict (spec_paths spec)
                 \<lparr>rt_best = None, rt_best_path_item = None, rt_method_not_allowed_seen = False\<rparr>
      in case rt_best st of
           Some (_, m) \<Rightarrow> R_Operation m
         | None \<Rightarrow>
             (case (upper = ''OPTIONS'' \<and> \<not> strict, rt_best_path_item st) of
                (True, Some item) \<Rightarrow> R_SynthesisedOptions (allow_header_for_path_item item)
              | _ \<Rightarrow>
                  if rt_method_not_allowed_seen st then
                    R_MethodNotAllowed
                      (case rt_best_path_item st of
                         Some item \<Rightarrow> allow_header_for_path_item_with_strict item strict
                       | None \<Rightarrow> [])
                  else R_NotFound))"

definition route_request ::
  "(string \<Rightarrow> string option) \<Rightarrow> openapi \<Rightarrow> string \<Rightarrow> string \<Rightarrow> route_match" where
  "route_request pd spec method path = route_request_with_strict pd spec method path False"

section \<open>Template parts: facts\<close>

fun render_part :: "template_part \<Rightarrow> string" where
  "render_part (Lit l) = l"
| "render_part (Par n) = CHR ''{'' # n @ ''}''"

lemma split_parts_render:
  "is_ascii s \<Longrightarrow> concat (map render_part (split_parts buf s)) = buf @ s"
proof (induction buf s rule: split_parts.induct)
  case (2 buf c s)
  have c: "byte c < 128" "is_ascii s" using "2.prems" by (auto simp: is_ascii_def)
  have fl: "concat (map render_part (flush buf)) = buf" by (simp add: flush_def)
  show ?case
  proof (cases "c = CHR ''{''")
    case True
    show ?thesis
    proof (cases "split_once (CHR ''}'') s")
      case None
      with True 2 c fl show ?thesis by simp
    next
      case (Some nr)
      obtain n r where nr: "nr = (n, r)" by (cases nr)
      with Some have s: "s = n @ CHR ''}'' # r" by (auto dest: split_once_SomeD)
      with c have "is_ascii r" by (auto simp: is_ascii_def)
      with True Some nr s 2 fl show ?thesis by simp
    qed
  next
    case False
    with 2 c show ?thesis by simp
  qed
qed (simp add: flush_def)

text \<open>
  For an ASCII segment template the parsed parts, written back, are the template: no byte is lost
  or duplicated, unclosed braces included.
\<close>

theorem split_template_parts_roundtrip:
  "is_ascii t \<Longrightarrow> concat (map render_part (split_template_parts t)) = t"
  unfolding split_template_parts_def using split_parts_render [of t "[]"] by simp

theorem split_template_parts_roundtrip_witness:
  "concat (map render_part (split_template_parts ''users-{id}-v{n}{x'')) = ''users-{id}-v{n}{x''"
  by (rule split_template_parts_roundtrip) code_simp

text \<open>
  Outside ASCII the literal parts are re-encoded byte by byte, so the segment template caf(e-acute)-{id}
  does not match the segment caf(e-acute)-1 that instantiates it.
\<close>

theorem mixed_segment_non_ascii_literal_rejected:
  "match_segment (''caf'' @ [CHR 0xC3, CHR 0xA9] @ ''-{id}'') (''caf'' @ [CHR 0xC3, CHR 0xA9] @ ''-1'') [] = None
   \<and> match_segment ''cafe-{id}'' ''cafe-1'' [] = Some [(''id'', ''1'')]"
  by code_simp

text \<open>The intended reading of a mixed segment: each capture is a non-empty substring.\<close>

inductive renders :: "template_part list \<Rightarrow> string list \<Rightarrow> string \<Rightarrow> bool" where
  renders_Nil: "renders [] [] []"
| renders_Lit: "renders parts caps s \<Longrightarrow> renders (Lit l # parts) caps (l @ s)"
| renders_Par: "c \<noteq> [] \<Longrightarrow> renders parts caps s \<Longrightarrow> renders (Par n # parts) (c # caps) (c @ s)"

inductive_simps renders_Nil_simp [simp]: "renders [] caps s"
inductive_simps renders_Lit_simp: "renders (Lit l # parts) caps s"
inductive_simps renders_Par_simp: "renders (Par n # parts) caps s"

fun par_names :: "template_part list \<Rightarrow> string list" where
  "par_names [] = []"
| "par_names (Lit l # parts) = par_names parts"
| "par_names (Par n # parts) = n # par_names parts"

definition bind_params :: "string list \<Rightarrow> string list \<Rightarrow> params \<Rightarrow> params" where
  "bind_params ns cs ps = fold (\<lambda>(n, c) ps. AList.update n c ps) (zip ns cs) ps"

lemma bind_params_simps [simp]:
  "bind_params [] cs ps = ps"
  "bind_params (n # ns) (c # cs) ps = bind_params ns cs (AList.update n c ps)"
  by (simp_all add: bind_params_def)

lemma match_parts_sound:
  "match_parts parts s ps = Some ps' \<Longrightarrow>
     \<exists>caps. renders parts caps s \<and> ps' = bind_params (par_names parts) caps ps"
proof (induction parts s ps arbitrary: ps' rule: match_parts.induct)
  case (2 l parts rest ps)
  then obtain r where r: "rest = l @ r" by (auto simp: starts_with_iff split: if_splits)
  with 2 obtain caps where "renders parts caps r" "ps' = bind_params (par_names parts) caps ps"
    by (auto simp: starts_with_iff split: if_splits)
  with r show ?case by (auto intro: renders_Lit)
next
  case (3 name l parts rest ps)
  then obtain off where off: "find_sub rest l = Some off" "0 < off"
    and m: "match_parts (Lit l # parts) (drop off rest) (AList.update name (take off rest) ps) = Some ps'"
    by (auto split: option.splits if_splits)
  from "3.IH" [OF off m] obtain caps where caps: "renders (Lit l # parts) caps (drop off rest)"
    "ps' = bind_params (par_names (Lit l # parts)) caps (AList.update name (take off rest) ps)" by blast
  from off find_sub_SomeD have "take off rest \<noteq> []" by fastforce
  with caps(1) have "renders (Par name # Lit l # parts) (take off rest # caps) (take off rest @ drop off rest)"
    by (rule renders_Par [rotated])
  with caps(2) show ?case by (intro exI [of _ "take off rest # caps"]) simp
next
  case (5 name rest ps)
  then have "rest \<noteq> []" "ps' = AList.update name rest ps" by (auto split: if_splits)
  then show ?case
    using renders_Par [OF _ renders_Nil, of rest name] by (intro exI [of _ "[rest]"]) simp
qed (auto split: if_splits)

text \<open>
  What a mixed segment match captures is a reading of the segment: the literal parts occur in
  order, every capture is a non-empty substring between them, the whole segment is consumed, and the
  bindings are exactly the captures (a repeated name keeps the last).
\<close>

theorem match_mixed_segment_sound:
  assumes "match_mixed_segment t actual ps = Some ps'"
  shows "\<exists>caps. renders (split_template_parts t) caps actual
    \<and> ps' = bind_params (par_names (split_template_parts t)) caps ps"
  using match_parts_sound assms unfolding match_mixed_segment_def by blast

theorem match_mixed_segment_sound_witness:
  "\<exists>caps. renders (split_template_parts ''users-{id}'') caps ''users-42''
    \<and> [(''id'', ''42'')] = bind_params (par_names (split_template_parts ''users-{id}'')) caps []"
  by (rule match_mixed_segment_sound) code_simp

text \<open>
  The converse fails. The capture before a literal ends at the first occurrence of the literal and
  is never extended, so \<open>{name}.json\<close> rejects a segment that has it as its suffix twice, although
  the segment is an instance of the template.
\<close>

theorem mixed_segment_suffix_not_anchored:
  "renders (split_template_parts ''{name}.json'') [''a.json''] ''a.json.json''
   \<and> match_segment ''{name}.json'' ''a.json.json'' [] = None"
proof
  have "split_template_parts ''{name}.json'' = [Par ''name'', Lit ''.json'']" by code_simp
  moreover have "renders [Par ''name'', Lit ''.json''] [''a.json''] (''a.json'' @ ''.json'' @ [])"
    by (intro renders.intros) simp
  ultimately show "renders (split_template_parts ''{name}.json'') [''a.json''] ''a.json.json''" by simp
  show "match_segment ''{name}.json'' ''a.json.json'' [] = None" by code_simp
qed

section \<open>Templates of literal and pure-parameter segments\<close>

definition simple_segment :: "string \<Rightarrow> bool" where
  "simple_segment t \<longleftrightarrow> CHR ''{'' \<notin> set t \<or> is_pure_param t"

definition decoded :: "(string \<Rightarrow> string option) \<Rightarrow> string \<Rightarrow> string" where
  "decoded pd a = (if CHR ''%'' \<in> set a then decode_segment pd a else a)"

definition segment_spec :: "(string \<Rightarrow> string option) \<Rightarrow> string \<Rightarrow> string \<Rightarrow> bool" where
  "segment_spec pd t a \<longleftrightarrow> (if CHR ''{'' \<in> set t then decoded pd a \<noteq> [] else t = decoded pd a)"

lemma match_segment_simple:
  "simple_segment t \<Longrightarrow>
     match_segment t (decoded pd a) ps =
       (if segment_spec pd t a
        then Some (if CHR ''{'' \<in> set t then AList.update (butlast (tl t)) (decoded pd a) ps else ps)
        else None)"
  by (auto simp: simple_segment_def match_segment_def segment_spec_def)

lemma match_segments_simple:
  "(\<And>t a. (t, a) \<in> set tas \<Longrightarrow> simple_segment t) \<Longrightarrow>
     (\<exists>ps'. match_segments pd tas ps = Some ps') \<longleftrightarrow> (\<forall>(t, a) \<in> set tas. segment_spec pd t a)"
proof (induction tas arbitrary: ps)
  case (Cons ta tas)
  obtain t a where ta: "ta = (t, a)" by (cases ta)
  have dec: "(if CHR ''%'' \<in> set a then decode_segment pd a else a) = decoded pd a"
    by (simp add: decoded_def)
  have "simple_segment t" using Cons.prems [of t a] ta by simp
  moreover have "(\<exists>ps'. match_segments pd tas qs = Some ps') \<longleftrightarrow> (\<forall>(t, a) \<in> set tas. segment_spec pd t a)" for qs
    using Cons.prems by (intro Cons.IH) (metis list.set_intros(2))
  ultimately show ?case
    by (simp only: ta match_segments.simps Let_def dec match_segment_simple [of t pd a ps]) simp
qed simp

lemma count_slashes: "count_list s c = length (split_on c s) - 1"
  by (simp add: length_split_on)

text \<open>
  C21: A template made of literal segments and whole-segment parameters matches a path exactly when
  both have the same number of segments, each literal equals the percent-decoded path segment, and
  each parameter meets a segment that decodes to a non-empty text.
\<close>

theorem match_template_iff:
  assumes "\<And>t. t \<in> set (split_on (CHR ''/'') template) \<Longrightarrow> simple_segment t"
  shows "match_template pd template path \<noteq> None \<longleftrightarrow>
    list_all2 (segment_spec pd) (split_on (CHR ''/'') template) (split_on (CHR ''/'') path)"
proof -
  let ?ts = "split_on (CHR ''/'') template" and ?as = "split_on (CHR ''/'') path"
  have len: "count_list template (CHR ''/'') = count_list path (CHR ''/'') \<longleftrightarrow> length ?ts = length ?as"
    by (simp add: length_split_on)
  have "(\<exists>ps'. match_segments pd (zip ?ts ?as) [] = Some ps')
      \<longleftrightarrow> (\<forall>(t, a) \<in> set (zip ?ts ?as). segment_spec pd t a)"
    using assms by (intro match_segments_simple) (auto dest: set_zip_leftD)
  then show ?thesis using len by (auto simp: match_template_def list_all2_iff)
qed

theorem match_template_iff_witness:
  "match_template Some ''/pets/{petId}'' ''/pets/42'' \<noteq> None \<longleftrightarrow>
    list_all2 (segment_spec Some) (split_on (CHR ''/'') ''/pets/{petId}'') (split_on (CHR ''/'') ''/pets/42'')"
proof (rule match_template_iff)
  fix t assume "t \<in> set (split_on (CHR ''/'') ''/pets/{petId}'')"
  moreover have "split_on (CHR ''/'') ''/pets/{petId}'' = [[], ''pets'', ''{petId}'']" by simp
  moreover have "simple_segment []" "simple_segment ''pets''" "simple_segment ''{petId}''"
    by code_simp+
  ultimately show "simple_segment t" by auto
qed

section \<open>Base paths\<close>

lemma push_unique_props:
  "distinct out \<Longrightarrow> distinct (push_unique s out)" "set (push_unique s out) = insert s (set out)"
  by (auto simp: push_unique_def)

lemma fold_push_unique:
  "distinct out \<Longrightarrow> distinct (fold (\<lambda>sv out. push_unique (f sv) out) svs out)
     \<and> set (fold (\<lambda>sv out. push_unique (f sv) out) svs out) = set out \<union> f ` set svs"
proof (induction svs arbitrary: out)
  case (Cons sv svs)
  from Cons.IH [of "push_unique (f sv) out"] Cons.prems show ?case
    by (auto simp: push_unique_props)
qed simp

text \<open>
  The candidate paths are pairwise distinct, never empty, and are exactly the request path with the
  base path of each server taken off (the path itself when there is no server).
\<close>

theorem candidate_paths_characterised:
  "distinct (candidate_paths_for_servers_list svs path)
   \<and> candidate_paths_for_servers_list svs path \<noteq> []
   \<and> set (candidate_paths_for_servers_list svs path) =
       (if svs = [] then {path} else server_candidate path ` set svs)"
proof -
  let ?out = "fold (\<lambda>sv out. push_unique (server_candidate path sv) out) svs []"
  have "distinct ?out" "set ?out = server_candidate path ` set svs"
    using fold_push_unique [of "[]" "server_candidate path" svs] by simp_all
  moreover from this(2) have "?out = [] \<longleftrightarrow> svs = []" by (metis image_is_empty set_empty)
  ultimately show ?thesis by (auto simp: candidate_paths_for_servers_list_def Let_def)
qed

text \<open>
  The raw request path is not kept as a fallback once a server base path is a prefix of it, and the
  prefix is taken off even in the middle of a segment: with the server \<open>/api\<close> the only candidate for
  \<open>/api/pets\<close> is \<open>/pets\<close>, and the only candidate for \<open>/apiary/x\<close> is \<open>/ary/x\<close>.
\<close>

theorem base_path_strips_without_fallback:
  "candidate_paths_for_servers_list [\<lparr>sv_url = ''/api'', sv_variables = None\<rparr>] ''/api/pets'' = [''/pets'']
   \<and> candidate_paths_for_servers_list [\<lparr>sv_url = ''/api'', sv_variables = None\<rparr>] ''/apiary/x'' = [''/ary/x'']"
  by code_simp

section \<open>The routing loop: facts\<close>

definition path_match ::
  "(string \<Rightarrow> string option) \<Rightarrow> openapi \<Rightarrow> string \<Rightarrow> string \<Rightarrow> string \<Rightarrow> path_item \<Rightarrow> params option" where
  "path_match pd spec upper path template item =
     find_map (\<lambda>c. match_template pd template (normalise_trailing_slash c))
       (candidate_paths_for_operation spec item upper path)"

lemma note_idem [simp]:
  "note_method_not_allowed item (note_method_not_allowed item st) = note_method_not_allowed item st"
  by (cases "rt_best_path_item st") (simp_all add: note_method_not_allowed_def)

lemma try_candidates_some:
  assumes "select_operation item upper strict = Some op"
  shows "try_candidates pd upper strict template item cands st =
    (case find_map (\<lambda>c. match_template pd template (normalise_trailing_slash c)) cands of
       None \<Rightarrow> st
     | Some ps \<Rightarrow> offer (count_literal_segments template)
         \<lparr>mo_operation = op, mo_path_params = ps, mo_path_template = template\<rparr> st)"
  by (induction cands) (auto simp: assms split: option.splits)

lemma try_candidates_noted:
  assumes "select_operation item upper strict = None"
  shows "try_candidates pd upper strict template item cands (note_method_not_allowed item st)
    = note_method_not_allowed item st"
  by (induction cands) (auto simp: assms split: option.splits)

lemma try_candidates_none:
  assumes "select_operation item upper strict = None"
  shows "try_candidates pd upper strict template item cands st =
    (if find_map (\<lambda>c. match_template pd template (normalise_trailing_slash c)) cands = None then st
     else note_method_not_allowed item st)"
  by (induction cands) (auto simp: assms try_candidates_noted split: option.splits)

text \<open>What one entry of \<open>paths\<close> contributes: a routed match, or a path that lacks the method.\<close>

definition path_hit ::
  "(string \<Rightarrow> string option) \<Rightarrow> openapi \<Rightarrow> string \<Rightarrow> string \<Rightarrow> bool \<Rightarrow> string \<times> path_item ref_or
   \<Rightarrow> (nat \<times> matched_operation) option" where
  "path_hit pd spec upper path strict e =
     Option.bind (as_item (snd e)) (\<lambda>item.
     Option.bind (select_operation item upper strict) (\<lambda>op.
     Option.bind (path_match pd spec upper path (fst e) item) (\<lambda>ps.
       Some (count_literal_segments (fst e),
             \<lparr>mo_operation = op, mo_path_params = ps, mo_path_template = fst e\<rparr>))))"

definition path_miss ::
  "(string \<Rightarrow> string option) \<Rightarrow> openapi \<Rightarrow> string \<Rightarrow> string \<Rightarrow> bool \<Rightarrow> string \<times> path_item ref_or
   \<Rightarrow> path_item option" where
  "path_miss pd spec upper path strict e =
     Option.bind (as_item (snd e)) (\<lambda>item.
       if select_operation item upper strict = None
          \<and> path_match pd spec upper path (fst e) item \<noteq> None
       then Some item else None)"

lemma offer_simps [simp]:
  "rt_best (offer l m st) = pick (l, m) (rt_best st)"
  "rt_best_path_item (offer l m st) = rt_best_path_item st"
  "rt_method_not_allowed_seen (offer l m st) = rt_method_not_allowed_seen st"
  by (auto simp: offer_def split: option.splits)

lemma note_simps [simp]:
  "rt_best (note_method_not_allowed item st) = rt_best st"
  "rt_best_path_item (note_method_not_allowed item st) = or_else (rt_best_path_item st) (Some item)"
  "rt_method_not_allowed_seen (note_method_not_allowed item st)"
  by (simp_all add: note_method_not_allowed_def)

lemma route_loop_step:
  "route_loop pd spec upper path strict (e # rest) st =
     route_loop pd spec upper path strict rest
       (case path_hit pd spec upper path strict e of
          Some (l, m) \<Rightarrow> offer l m st
        | None \<Rightarrow>
            (case path_miss pd spec upper path strict e of
               Some item \<Rightarrow> note_method_not_allowed item st
             | None \<Rightarrow> st))"
proof (cases e)
  case (Pair template ref)
  show ?thesis
  proof (cases ref)
    case (Reference r)
    with Pair show ?thesis by (simp add: path_hit_def path_miss_def)
  next
    case (Item item)
    show ?thesis
    proof (cases "select_operation item upper strict")
      case None
      with Pair Item show ?thesis
        by (simp add: path_hit_def path_miss_def path_match_def try_candidates_none)
    next
      case (Some op)
      with Pair Item show ?thesis
        by (cases "path_match pd spec upper path template item")
           (simp_all add: path_hit_def path_miss_def path_match_def try_candidates_some)
    qed
  qed
qed

lemma path_hit_miss: "path_hit pd spec upper path strict e = Some h \<Longrightarrow> path_miss pd spec upper path strict e = None"
  by (auto simp: path_hit_def path_miss_def bind_eq_Some_conv)

lemma route_loop_result:
  fixes pd :: "string \<Rightarrow> string option" and spec :: openapi and upper path :: string and strict :: bool
  defines "hits es \<equiv> List.map_filter (path_hit pd spec upper path strict) es"
    and "misses es \<equiv> List.map_filter (path_miss pd spec upper path strict) es"
  shows "rt_best (route_loop pd spec upper path strict es st) = fold pick (hits es) (rt_best st)"
    and "rt_best_path_item (route_loop pd spec upper path strict es st) =
       or_else (rt_best_path_item st) (case misses es of [] \<Rightarrow> None | i # _ \<Rightarrow> Some i)"
    and "rt_method_not_allowed_seen (route_loop pd spec upper path strict es st) \<longleftrightarrow>
       rt_method_not_allowed_seen st \<or> misses es \<noteq> []"
proof (induction es arbitrary: st)
  case Nil
  { case 1 then show ?case by (simp add: hits_def List.map_filter_simps) }
  { case 2 then show ?case by (simp add: misses_def List.map_filter_simps) }
  { case 3 then show ?case by (simp add: misses_def List.map_filter_simps) }
next
  case (Cons e es)
  note step = route_loop_step [of pd spec upper path strict e es]
  note hm = path_hit_miss [of pd spec upper path strict e]
  { case 1
    then show ?case unfolding step
      by (cases "path_hit pd spec upper path strict e"; cases "path_miss pd spec upper path strict e")
         (auto simp: Cons.IH hits_def List.map_filter_simps) }
  { case 2
    then show ?case unfolding step using hm
      by (cases "path_hit pd spec upper path strict e"; cases "path_miss pd spec upper path strict e")
         (auto simp: Cons.IH misses_def List.map_filter_simps or_else_assoc) }
  { case 3
    then show ?case unfolding step using hm
      by (cases "path_hit pd spec upper path strict e"; cases "path_miss pd spec upper path strict e")
         (auto simp: Cons.IH misses_def List.map_filter_simps) }
qed

abbreviation route_hits where
  "route_hits pd spec method path strict \<equiv>
     List.map_filter (path_hit pd spec (to_ascii_uppercase method) path strict) (spec_paths spec)"

abbreviation route_misses where
  "route_misses pd spec method path strict \<equiv>
     List.map_filter (path_miss pd spec (to_ascii_uppercase method) path strict) (spec_paths spec)"

text \<open>The routing decision in terms of the entries that match.\<close>

lemma route_request_decision:
  "route_request_with_strict pd spec method path strict =
     (case fold pick (route_hits pd spec method path strict) None of
        Some (_, m) \<Rightarrow> R_Operation m
      | None \<Rightarrow>
          (case route_misses pd spec method path strict of
             [] \<Rightarrow> R_NotFound
           | item # _ \<Rightarrow>
               if to_ascii_uppercase method = ''OPTIONS'' \<and> \<not> strict
               then R_SynthesisedOptions (allow_header_for_path_item item)
               else R_MethodNotAllowed (allow_header_for_path_item_with_strict item strict)))"
  unfolding route_request_with_strict_def Let_def
  by (auto simp: route_loop_result split: option.splits list.splits prod.splits bool.splits)

lemma map_filter_split:
  assumes "List.map_filter f xs = pre @ y # post"
  shows "\<exists>as x bs. xs = as @ x # bs \<and> f x = Some y \<and> List.map_filter f as = pre
    \<and> List.map_filter f bs = post"
  using assms
proof (induction xs arbitrary: pre)
  case (Cons x xs)
  show ?case
  proof (cases "f x")
    case None
    with Cons obtain as x' bs where "xs = as @ x' # bs" "f x' = Some y" "List.map_filter f as = pre"
      "List.map_filter f bs = post" by (auto simp: List.map_filter_simps)
    with None show ?thesis
      by (intro exI [of _ "x # as"] exI [of _ x'] exI [of _ bs]) (simp add: List.map_filter_simps)
  next
    case (Some z)
    show ?thesis
    proof (cases pre)
      case Nil
      with Some Cons.prems show ?thesis
        by (intro exI [of _ "[]"] exI [of _ x] exI [of _ xs]) (simp add: List.map_filter_simps)
    next
      case (Cons p pre')
      with Some Cons.prems have "List.map_filter f xs = pre' @ y # post" "p = z"
        by (simp_all add: List.map_filter_simps)
      with Cons.IH obtain as x' bs where "xs = as @ x' # bs" "f x' = Some y"
        "List.map_filter f as = pre'" "List.map_filter f bs = post" by blast
      with Some \<open>p = z\<close> \<open>pre = p # pre'\<close> show ?thesis
        by (intro exI [of _ "x # as"] exI [of _ x'] exI [of _ bs]) (simp add: List.map_filter_simps)
    qed
  qed
qed (simp add: List.map_filter_simps)

lemma map_filter_memI: "x \<in> set xs \<Longrightarrow> f x = Some y \<Longrightarrow> y \<in> set (List.map_filter f xs)"
  by (induction xs) (auto simp: List.map_filter_simps split: option.splits)

lemma map_filter_Nil_iff: "List.map_filter f xs = [] \<longleftrightarrow> (\<forall>x \<in> set xs. f x = None)"
  by (induction xs) (auto simp: List.map_filter_simps split: option.splits)

text \<open>
  C19: When a request is routed to an operation, the chosen entry of \<open>paths\<close> matches the path and offers
  the method, no other such entry has more literal segments, and every such entry before it in
  document order has strictly fewer: the most literal template wins and ties go to the first.
\<close>

theorem route_most_literal_first:
  assumes "route_request_with_strict pd spec method path strict = R_Operation m"
  shows "\<exists>pre e post l. spec_paths spec = pre @ e # post
    \<and> path_hit pd spec (to_ascii_uppercase method) path strict e = Some (l, m)
    \<and> (\<forall>e' \<in> set pre. \<forall>l' m'. path_hit pd spec (to_ascii_uppercase method) path strict e' = Some (l', m') \<longrightarrow> l' < l)
    \<and> (\<forall>e' \<in> set post. \<forall>l' m'. path_hit pd spec (to_ascii_uppercase method) path strict e' = Some (l', m') \<longrightarrow> l' \<le> l)"
proof -
  let ?f = "path_hit pd spec (to_ascii_uppercase method) path strict"
  from assms obtain l where "fold pick (route_hits pd spec method path strict) None = Some (l, m)"
    by (auto simp: route_request_decision split: option.splits list.splits if_splits)
  from fold_pick_first_max [OF this] obtain hpre hpost where
    h: "route_hits pd spec method path strict = hpre @ (l, m) # hpost"
    and pre: "\<forall>x \<in> set hpre. fst x < l" and post: "\<forall>x \<in> set hpost. fst x \<le> l" by auto
  from map_filter_split [OF h] obtain as e bs where
    e: "spec_paths spec = as @ e # bs" "?f e = Some (l, m)"
    and ab: "List.map_filter ?f as = hpre" "List.map_filter ?f bs = hpost" by blast
  have "l' < l" if "e' \<in> set as" "?f e' = Some (l', m')" for e' l' m'
    using map_filter_memI [where f = ?f, OF that] ab(1) pre by fastforce
  moreover have "l' \<le> l" if "e' \<in> set bs" "?f e' = Some (l', m')" for e' l' m'
    using map_filter_memI [where f = ?f, OF that] ab(2) post by fastforce
  ultimately show ?thesis using e by blast
qed

text \<open>
  C20: A request is answered 404 exactly when no path item of the document matches it, for any method;
  when some path item matches but none of the matching ones offers the method, the answer is 405, or
  the synthesised OPTIONS answer outside strict mode.
\<close>

theorem route_not_found_iff:
  "route_request_with_strict pd spec method path strict = R_NotFound \<longleftrightarrow>
     (\<forall>template item. (template, Item item) \<in> set (spec_paths spec) \<longrightarrow>
        path_match pd spec (to_ascii_uppercase method) path template item = None)"
proof -
  let ?up = "to_ascii_uppercase method"
  have hits: "route_hits pd spec method path strict = [] \<longleftrightarrow>
      (\<forall>e \<in> set (spec_paths spec). path_hit pd spec ?up path strict e = None)"
    by (rule map_filter_Nil_iff)
  have misses: "route_misses pd spec method path strict = [] \<longleftrightarrow>
      (\<forall>e \<in> set (spec_paths spec). path_miss pd spec ?up path strict e = None)"
    by (rule map_filter_Nil_iff)
  have each: "path_hit pd spec ?up path strict e = None \<and> path_miss pd spec ?up path strict e = None \<longleftrightarrow>
      (\<forall>item. snd e = Item item \<longrightarrow> path_match pd spec ?up path (fst e) item = None)" for e
    by (cases "snd e"; cases "select_operation (the (as_item (snd e))) ?up strict")
       (auto simp: path_hit_def path_miss_def bind_eq_None_conv)
  have "route_request_with_strict pd spec method path strict = R_NotFound \<longleftrightarrow>
      route_hits pd spec method path strict = [] \<and> route_misses pd spec method path strict = []"
    by (auto simp: route_request_decision fold_pick_None_iff split: option.splits list.splits if_splits)
  also have "\<dots> \<longleftrightarrow> (\<forall>e \<in> set (spec_paths spec). path_hit pd spec ?up path strict e = None
      \<and> path_miss pd spec ?up path strict e = None)" unfolding hits misses by blast
  also have "\<dots> \<longleftrightarrow> (\<forall>e \<in> set (spec_paths spec). \<forall>item. snd e = Item item \<longrightarrow>
      path_match pd spec ?up path (fst e) item = None)" by (simp only: each)
  finally show ?thesis by force
qed

section \<open>The Allow header\<close>

definition http_methods :: "string list" where
  "http_methods = [''GET'', ''PUT'', ''POST'', ''DELETE'', ''OPTIONS'', ''HEAD'', ''PATCH'', ''TRACE'']"

lemma get_operation_methods:
  "get_operation item ''GET'' = pi_get item" "get_operation item ''PUT'' = pi_put item"
  "get_operation item ''POST'' = pi_post item" "get_operation item ''DELETE'' = pi_delete item"
  "get_operation item ''OPTIONS'' = pi_options item" "get_operation item ''HEAD'' = pi_head item"
  "get_operation item ''PATCH'' = pi_patch item" "get_operation item ''TRACE'' = pi_trace item"
  by (simp_all add: get_operation_def to_ascii_uppercase_def upper_byte_def byte_def)

lemma select_operation_methods:
  assumes "to_ascii_uppercase m = m" and "select_operation item m strict \<noteq> None"
  shows "m \<in> set http_methods"
  using assms
  by (auto simp: select_operation_def get_operation_def Let_def http_methods_def
      split: option.splits if_splits)

lemma in_if_singleton: "m \<in> set (if P then [x] else []) \<longleftrightarrow> P \<and> m = x"
  by (cases P) auto

lemma in_allow_methods:
  "m \<in> set (allow_methods item strict) \<longleftrightarrow>
     pi_get item \<noteq> None \<and> m = ''GET'' \<or> pi_put item \<noteq> None \<and> m = ''PUT''
     \<or> pi_post item \<noteq> None \<and> m = ''POST'' \<or> pi_delete item \<noteq> None \<and> m = ''DELETE''
     \<or> pi_options item \<noteq> None \<and> m = ''OPTIONS''
     \<or> (pi_head item \<noteq> None \<or> \<not> strict \<and> pi_get item \<noteq> None) \<and> m = ''HEAD''
     \<or> pi_patch item \<noteq> None \<and> m = ''PATCH'' \<or> pi_trace item \<noteq> None \<and> m = ''TRACE''"
  unfolding allow_methods_def by (simp only: set_append Un_iff in_if_singleton disj_assoc)

lemma select_operation_each:
  "select_operation item ''GET'' strict = pi_get item"
  "select_operation item ''PUT'' strict = pi_put item"
  "select_operation item ''POST'' strict = pi_post item"
  "select_operation item ''DELETE'' strict = pi_delete item"
  "select_operation item ''OPTIONS'' strict = pi_options item"
  "select_operation item ''HEAD'' strict = or_else (pi_head item) (if strict then None else pi_get item)"
  "select_operation item ''PATCH'' strict = pi_patch item"
  "select_operation item ''TRACE'' strict = pi_trace item"
proof -
  have other: "select_operation item m strict = get_operation item m" if "m \<noteq> ''HEAD''" for m
    using that by (simp add: select_operation_def split: option.splits)
  show "select_operation item ''GET'' strict = pi_get item"
    "select_operation item ''PUT'' strict = pi_put item"
    "select_operation item ''POST'' strict = pi_post item"
    "select_operation item ''DELETE'' strict = pi_delete item"
    "select_operation item ''OPTIONS'' strict = pi_options item"
    "select_operation item ''PATCH'' strict = pi_patch item"
    "select_operation item ''TRACE'' strict = pi_trace item"
    by (subst other, simp, simp only: get_operation_methods)+
  show "select_operation item ''HEAD'' strict = or_else (pi_head item) (if strict then None else pi_get item)"
    by (cases "pi_head item") (simp_all add: select_operation_def get_operation_methods)
qed

lemma set_allow_methods:
  "set (allow_methods item strict) =
     {m. to_ascii_uppercase m = m \<and> select_operation item m strict \<noteq> None}"
proof -
  have upper: "to_ascii_uppercase m = m" if "m \<in> set http_methods" for m
    using that by (auto simp: http_methods_def to_ascii_uppercase_def upper_byte_def byte_def)
  have head: "or_else a (if strict then None else b) \<noteq> None \<longleftrightarrow> a \<noteq> None \<or> \<not> strict \<and> b \<noteq> None"
    for a b :: "operation option" by (cases a) auto
  have iff: "m \<in> set (allow_methods item strict) \<longleftrightarrow> select_operation item m strict \<noteq> None"
    if "m \<in> set http_methods" for m
  proof -
    from that have "m \<in> {''GET'', ''PUT'', ''POST'', ''DELETE'', ''OPTIONS'', ''HEAD'', ''PATCH'', ''TRACE''}"
      by (simp add: http_methods_def)
    then show ?thesis
      by (elim insertE emptyE) (simp_all only: in_allow_methods select_operation_each head, simp_all)
  qed
  have "m \<in> set http_methods" if "m \<in> set (allow_methods item strict)" for m
    using that unfolding in_allow_methods http_methods_def by force
  then show ?thesis using upper select_operation_methods iff by blast
qed

lemma distinct_allow_methods: "distinct (allow_methods item strict)"
  by (auto simp: allow_methods_def)

text \<open>
  The Allow header of a 405 or OPTIONS answer lists, in ascending order and without repetition,
  exactly the methods that the router would route on that path item under the same strictness,
  HEAD standing in for GET included.
\<close>

theorem allow_header_lists_routable_methods:
  "\<exists>ms. allow_header_for_path_item_with_strict item strict = join '', '' ms
    \<and> sorted ms \<and> distinct ms
    \<and> set ms = {m. to_ascii_uppercase m = m \<and> select_operation item m strict \<noteq> None}"
proof (intro exI conjI)
  let ?ms = "sort (allow_methods item strict)"
  have d: "distinct ?ms" by (simp add: distinct_allow_methods)
  then have "remdups_adj ?ms = ?ms" by (simp add: remdups_adj_distinct)
  then show "allow_header_for_path_item_with_strict item strict = join '', '' ?ms"
    by (simp only: allow_header_for_path_item_with_strict_def)
  show "sorted ?ms" "distinct ?ms" using d by simp_all
  show "set ?ms = {m. to_ascii_uppercase m = m \<and> select_operation item m strict \<noteq> None}"
    by (simp add: set_allow_methods)
qed

text \<open>
  In strict mode the router never synthesises an OPTIONS answer and routes a request only to an
  operation declared for its own method.
\<close>

theorem strict_routes_declared_methods_only:
  "route_request_with_strict pd spec method path True \<noteq> R_SynthesisedOptions allow
   \<and> (route_request_with_strict pd spec method path True = R_Operation m \<longrightarrow>
       (\<exists>item. (mo_path_template m, Item item) \<in> set (spec_paths spec)
          \<and> get_operation item method = Some (mo_operation m)))"
proof (intro conjI impI)
  show "route_request_with_strict pd spec method path True \<noteq> R_SynthesisedOptions allow"
    by (auto simp: route_request_decision split: option.splits list.splits if_splits)
  assume "route_request_with_strict pd spec method path True = R_Operation m"
  then obtain l where "fold pick (route_hits pd spec method path True) None = Some (l, m)"
    by (auto simp: route_request_decision split: option.splits list.splits if_splits)
  from fold_pick_first_max [OF this] obtain hpre hpost where
    "route_hits pd spec method path True = hpre @ (l, m) # hpost" by blast
  from map_filter_split [OF this] obtain e where e: "e \<in> set (spec_paths spec)"
    "path_hit pd spec (to_ascii_uppercase method) path True e = Some (l, m)"
    by (metis in_set_conv_decomp)
  then obtain item where "snd e = Item item" "mo_path_template m = fst e"
    "select_operation item (to_ascii_uppercase method) True = Some (mo_operation m)"
    by (cases "snd e") (auto simp: path_hit_def bind_eq_Some_conv)
  moreover have "to_ascii_uppercase (to_ascii_uppercase method) = to_ascii_uppercase method"
    by (metis to_ascii_lower_upper to_ascii_upper_lower)
  ultimately show "\<exists>item. (mo_path_template m, Item item) \<in> set (spec_paths spec)
      \<and> get_operation item method = Some (mo_operation m)"
    using e(1) by (cases e) (auto simp: select_operation_def get_operation_def split: option.splits)
qed

section \<open>Routing an example document\<close>

definition op_example :: "string \<Rightarrow> operation" where
  "op_example name =
     \<lparr>op_operation_id = Some name, op_summary = None, op_parameters = [], op_request_body = None,
      op_responses = \<lparr>rs_default = None, rs_responses = []\<rparr>, op_security = None, op_servers = [],
      op_extensions = []\<rparr>"

definition item_empty :: path_item where
  "item_empty =
     \<lparr>pi_get = None, pi_put = None, pi_post = None, pi_delete = None, pi_options = None, pi_head = None,
      pi_patch = None, pi_trace = None, pi_servers = [], pi_parameters = []\<rparr>"

definition pets_spec :: openapi where
  "pets_spec =
     \<lparr>spec_openapi = ''3.0.3'', spec_title = ''t'', spec_version = ''1'', spec_paths =
        [(''/pets/{petId}'', Item (item_empty\<lparr>pi_get := Some (op_example ''showPet'')\<rparr>)),
         (''/pets/mine'', Item (item_empty\<lparr>pi_get := Some (op_example ''myPet'')\<rparr>))],
      spec_components = None, spec_security = None, spec_servers = [], spec_extensions = []\<rparr>"

lemma pets_spec_route:
  "route_request_with_strict Some pets_spec ''get'' ''/pets/mine/'' False =
     R_Operation \<lparr>mo_operation = op_example ''myPet'', mo_path_params = [], mo_path_template = ''/pets/mine''\<rparr>"
  by code_simp

theorem route_most_literal_first_witness:
  "\<exists>pre e post l. spec_paths pets_spec = pre @ e # post
    \<and> path_hit Some pets_spec (to_ascii_uppercase ''get'') ''/pets/mine/'' False e
       = Some (l, \<lparr>mo_operation = op_example ''myPet'', mo_path_params = [], mo_path_template = ''/pets/mine''\<rparr>)
    \<and> (\<forall>e' \<in> set pre. \<forall>l' m'. path_hit Some pets_spec (to_ascii_uppercase ''get'') ''/pets/mine/'' False e' = Some (l', m') \<longrightarrow> l' < l)
    \<and> (\<forall>e' \<in> set post. \<forall>l' m'. path_hit Some pets_spec (to_ascii_uppercase ''get'') ''/pets/mine/'' False e' = Some (l', m') \<longrightarrow> l' \<le> l)"
  by (rule route_most_literal_first [OF pets_spec_route])

theorem route_not_found_iff_witness:
  "route_request_with_strict Some pets_spec ''GET'' ''/owners'' False = R_NotFound"
proof -
  have "path_match Some pets_spec (to_ascii_uppercase ''GET'') ''/owners'' template item = None"
    if "(template, Item item) \<in> set (spec_paths pets_spec)" for template item
    using that by (auto simp: pets_spec_def) (code_simp, code_simp)
  then show ?thesis by (subst route_not_found_iff) blast
qed

theorem strict_routes_declared_methods_only_witness:
  "route_request_with_strict Some pets_spec ''GET'' ''/pets/mine'' True \<noteq> R_SynthesisedOptions ''GET''"
  using strict_routes_declared_methods_only by blast

end
