(* ===== verification/Security.thy ===== *)
theory Security
  imports Types
begin

text \<open>
  \<open>security.rs\<close>: the presence-only evaluation of security requirements. \<open>pd\<close> is the percent decoder of
  the \<open>percent_encoding\<close> crate (\<open>percent_decode_str(s).decode_utf8().ok()\<close>).
\<close>

datatype security_result = Authorized | Unauthorized_Result string "string option"

section \<open>Request lookups\<close>

definition find_header :: "mock_request \<Rightarrow> string \<Rightarrow> string option" where
  "find_header req name = find_entry (\<lambda>k. eq_ignore_ascii_case k name) (mr_headers req)"

definition normalize_cookie_value :: "(string \<Rightarrow> string option) \<Rightarrow> string \<Rightarrow> string" where
  "normalize_cookie_value pd v =
     (let unquoted =
        (if 2 \<le> length v \<and> starts_with v [CHR 0x22] \<and> ends_with v [CHR 0x22]
         then butlast (tl v) else v)
      in case pd unquoted of Some d \<Rightarrow> d | None \<Rightarrow> unquoted)"

definition find_cookie :: "(string \<Rightarrow> string option) \<Rightarrow> mock_request \<Rightarrow> string \<Rightarrow> string option" where
  "find_cookie pd req name =
     Option.bind (find_header req ''cookie'') (\<lambda>raw.
       find_map (\<lambda>pair.
         case split_once (CHR ''='') (trim pair) of
           Some (k, v) \<Rightarrow> if trim k = name then Some (normalize_cookie_value pd (trim v)) else None
         | None \<Rightarrow> None) (split_on (CHR '';'') raw))"

definition has_authorization_prefix :: "mock_request \<Rightarrow> string \<Rightarrow> bool" where
  "has_authorization_prefix req scheme =
     (case find_header req ''authorization'' of
        None \<Rightarrow> False
      | Some value \<Rightarrow>
          (let lower = to_ascii_lowercase (trim value); needle = scheme @ '' ''
           in starts_with lower needle \<and> length needle < length (trim value)))"

section \<open>Schemes\<close>

definition resolve_scheme_entry :: "components \<Rightarrow> security_scheme ref_or \<Rightarrow> security_scheme option" where
  "resolve_scheme_entry c entry =
     (case entry of
        Item s \<Rightarrow> Some s
      | Reference r \<Rightarrow>
          Option.bind (strip_prefix r ''#/components/securitySchemes/'') (\<lambda>target.
          Option.bind (map_of (c_security_schemes c) target) (\<lambda>nx.
            case nx of Item s \<Rightarrow> Some s | Reference _ \<Rightarrow> None)))"

definition lookup_scheme :: "openapi \<Rightarrow> string \<Rightarrow> security_scheme option" where
  "lookup_scheme spec name =
     Option.bind (spec_components spec) (\<lambda>c.
     Option.bind (map_of (c_security_schemes c) name) (resolve_scheme_entry c))"

definition realm :: "string \<Rightarrow> string" where
  "realm name = '' realm='' @ [CHR 0x22] @ name @ [CHR 0x22]"

definition www_authenticate_for :: "security_scheme \<Rightarrow> string \<Rightarrow> string option" where
  "www_authenticate_for scheme name =
     (case scheme of
        HTTP kind \<Rightarrow>
          (let k = to_ascii_lowercase kind in
           if k = ''bearer'' then Some (''Bearer'' @ realm name)
           else if k = ''basic'' then Some (''Basic'' @ realm name)
           else Some (k @ realm name))
      | OAuth2 \<Rightarrow> Some (''Bearer'' @ realm name)
      | OpenIDConnect \<Rightarrow> Some (''Bearer'' @ realm name)
      | APIKey _ _ \<Rightarrow> None)"

definition non_empty :: "string option \<Rightarrow> bool" where
  "non_empty v = (case v of Some s \<Rightarrow> s \<noteq> [] | None \<Rightarrow> False)"

definition is_scheme_satisfied :: "(string \<Rightarrow> string option) \<Rightarrow> security_scheme \<Rightarrow> mock_request \<Rightarrow> bool" where
  "is_scheme_satisfied pd scheme req =
     (case scheme of
        HTTP kind \<Rightarrow>
          (let k = to_ascii_lowercase kind in
           if k = ''bearer'' then has_authorization_prefix req ''bearer''
           else if k = ''basic'' then has_authorization_prefix req ''basic''
           else find_header req ''authorization'' \<noteq> None)
      | OAuth2 \<Rightarrow> has_authorization_prefix req ''bearer''
      | OpenIDConnect \<Rightarrow> has_authorization_prefix req ''bearer''
      | APIKey AL_Header name \<Rightarrow> non_empty (find_header req name)
      | APIKey AL_Query name \<Rightarrow> non_empty (map_of (mr_query req) name)
      | APIKey AL_Cookie name \<Rightarrow> non_empty (find_cookie pd req name))"

section \<open>Evaluation\<close>

record sec_state =
  ss_first_scheme :: "string option"
  ss_first_www :: "string option"
  ss_first_declared :: "string option"

text \<open>The inner loop over the keys of one requirement; the flag is \<open>all_satisfied\<close>.\<close>

fun check_keys ::
  "(string \<Rightarrow> string option) \<Rightarrow> openapi \<Rightarrow> mock_request \<Rightarrow> string list \<Rightarrow> bool \<Rightarrow> sec_state
   \<Rightarrow> bool \<times> sec_state" where
  "check_keys pd spec req [] ok st = (ok, st)"
| "check_keys pd spec req (name # names) ok st =
     (let st1 = st\<lparr>ss_first_declared := or_else (ss_first_declared st) (Some name)\<rparr> in
      case lookup_scheme spec name of
        None \<Rightarrow> check_keys pd spec req names False st1
      | Some scheme \<Rightarrow>
          (let st2 = (if ss_first_scheme st1 = None
                      then st1\<lparr>ss_first_scheme := Some name,
                               ss_first_www := www_authenticate_for scheme name\<rparr>
                      else st1)
           in check_keys pd spec req names (ok \<and> is_scheme_satisfied pd scheme req) st2))"

fun check_requirements ::
  "(string \<Rightarrow> string option) \<Rightarrow> openapi \<Rightarrow> mock_request \<Rightarrow> security_requirement list \<Rightarrow> sec_state
   \<Rightarrow> security_result" where
  "check_requirements pd spec req [] st =
     Unauthorized_Result
       (unwrap_or (or_else (ss_first_scheme st) (ss_first_declared st)) ''unknown'')
       (ss_first_www st)"
| "check_requirements pd spec req (r # rs) st =
     (if r = [] then Authorized
      else (case check_keys pd spec req (map fst r) True st of
              (True, _) \<Rightarrow> Authorized
            | (False, st') \<Rightarrow> check_requirements pd spec req rs st'))"

definition evaluate_security ::
  "(string \<Rightarrow> string option) \<Rightarrow> openapi \<Rightarrow> operation \<Rightarrow> mock_request \<Rightarrow> security_result" where
  "evaluate_security pd spec op req =
     (case or_else (op_security op) (spec_security spec) of
        None \<Rightarrow> Authorized
      | Some requirements \<Rightarrow>
          if requirements = [] then Authorized
          else check_requirements pd spec req requirements
                 \<lparr>ss_first_scheme = None, ss_first_www = None, ss_first_declared = None\<rparr>)"

section \<open>Facts\<close>

text \<open>One key is satisfied when it names a known scheme that the request satisfies.\<close>

definition key_satisfied :: "(string \<Rightarrow> string option) \<Rightarrow> openapi \<Rightarrow> mock_request \<Rightarrow> string \<Rightarrow> bool" where
  "key_satisfied pd spec req name \<longleftrightarrow>
     (case lookup_scheme spec name of Some s \<Rightarrow> is_scheme_satisfied pd s req | None \<Rightarrow> False)"

lemma check_keys_fst:
  "fst (check_keys pd spec req names ok st) \<longleftrightarrow> ok \<and> (\<forall>n \<in> set names. key_satisfied pd spec req n)"
  by (induction names arbitrary: ok st) (auto simp: key_satisfied_def Let_def split: option.splits)

lemma check_requirements_iff:
  "check_requirements pd spec req rs st = Authorized \<longleftrightarrow>
     (\<exists>r \<in> set rs. \<forall>n \<in> set (map fst r). key_satisfied pd spec req n)"
proof (induction rs arbitrary: st)
  case (Cons r rs)
  show ?case
  proof (cases "r = []")
    case False
    obtain ok st' where k: "check_keys pd spec req (map fst r) True st = (ok, st')" by fastforce
    then have "ok \<longleftrightarrow> (\<forall>n \<in> set (map fst r). key_satisfied pd spec req n)"
      using check_keys_fst [of pd spec req "map fst r" True st] by simp
    moreover have "check_requirements pd spec req (r # rs) st =
        (if ok then Authorized else check_requirements pd spec req rs st')"
      using False k by simp
    ultimately show ?thesis using Cons.IH by auto
  qed simp
qed simp

text \<open>
  C22: Access is granted exactly when the effective requirement list (the operation's own, else the
  document's) is absent or empty, or one of its requirements has all its schemes known and satisfied:
  a disjunction of conjunctions.
\<close>

theorem security_authorized_iff:
  "evaluate_security pd spec op req = Authorized \<longleftrightarrow>
     (case or_else (op_security op) (spec_security spec) of
        None \<Rightarrow> True
      | Some rs \<Rightarrow> rs = [] \<or> (\<exists>r \<in> set rs. \<forall>n \<in> set (map fst r). key_satisfied pd spec req n))"
  by (auto simp: evaluate_security_def check_requirements_iff split: option.splits)

lemma check_keys_declared:
  assumes "ss_first_declared st \<noteq> None \<or> names \<noteq> []"
  shows "ss_first_declared (snd (check_keys pd spec req names ok st)) =
    Some (case ss_first_declared st of Some d \<Rightarrow> d | None \<Rightarrow> hd names)"
  using assms
proof (induction names arbitrary: ok st)
  case (Cons n names)
  then show ?case by (cases "ss_first_declared st") (auto simp: Let_def split: option.splits)
qed auto

lemma check_keys_scheme:
  "ss_first_scheme (snd (check_keys pd spec req names ok st)) =
     or_else (ss_first_scheme st) (find (\<lambda>n. lookup_scheme spec n \<noteq> None) names)
   \<and> (ss_first_scheme st = None \<longrightarrow>
       ss_first_www (snd (check_keys pd spec req names ok st)) =
         (case find (\<lambda>n. lookup_scheme spec n \<noteq> None) names of
            None \<Rightarrow> ss_first_www st
          | Some n \<Rightarrow> www_authenticate_for (the (lookup_scheme spec n)) n))
   \<and> (ss_first_scheme st \<noteq> None \<longrightarrow>
       ss_first_www (snd (check_keys pd spec req names ok st)) = ss_first_www st)"
proof (induction names arbitrary: ok st)
  case (Cons n names)
  show ?case
  proof (cases "lookup_scheme spec n")
    case None
    then show ?thesis using Cons.IH by (simp add: Let_def split: option.splits)
  next
    case (Some s)
    show ?thesis
    proof (cases "ss_first_scheme st")
      case None
      then show ?thesis using Some Cons.IH by (simp add: Let_def)
    next
      case (Some f)
      then show ?thesis using \<open>lookup_scheme spec n = Some s\<close> Cons.IH by (simp add: Let_def)
    qed
  qed
qed simp

lemma or_else_find_append: "or_else (find p xs) (find p ys) = find p (xs @ ys)"
  by (induction xs) auto

text \<open>
  What a denial reports: the first key of the requirements that names a known scheme, with that
  scheme's challenge, or the first key at all when none does.
\<close>

definition reported :: "openapi \<Rightarrow> string list \<Rightarrow> string \<times> string option" where
  "reported spec names =
     (case find (\<lambda>n. lookup_scheme spec n \<noteq> None) names of
        Some n \<Rightarrow> (n, www_authenticate_for (the (lookup_scheme spec n)) n)
      | None \<Rightarrow> (hd names, None))"

definition sec_inv :: "openapi \<Rightarrow> string list \<Rightarrow> sec_state \<Rightarrow> bool" where
  "sec_inv spec seen st \<longleftrightarrow>
     ss_first_scheme st = find (\<lambda>n. lookup_scheme spec n \<noteq> None) seen
     \<and> ss_first_www st =
         (case find (\<lambda>n. lookup_scheme spec n \<noteq> None) seen of
            Some n \<Rightarrow> www_authenticate_for (the (lookup_scheme spec n)) n | None \<Rightarrow> None)
     \<and> ss_first_declared st = (case seen of [] \<Rightarrow> None | n # _ \<Rightarrow> Some n)"

lemma check_keys_inv:
  assumes "sec_inv spec seen st" and "names \<noteq> []"
  shows "sec_inv spec (seen @ names) (snd (check_keys pd spec req names ok st))"
proof -
  let ?p = "\<lambda>n. lookup_scheme spec n \<noteq> None"
  have s: "ss_first_scheme st = find ?p seen"
    and w: "ss_first_www st = (case find ?p seen of
        Some n \<Rightarrow> www_authenticate_for (the (lookup_scheme spec n)) n | None \<Rightarrow> None)"
    and d: "ss_first_declared st = (case seen of [] \<Rightarrow> None | n # _ \<Rightarrow> Some n)"
    using assms(1) by (simp_all only: sec_inv_def)
  note facts = check_keys_scheme [of pd spec req names ok st]
  have decl: "ss_first_declared (snd (check_keys pd spec req names ok st)) =
      (case seen @ names of [] \<Rightarrow> None | n # _ \<Rightarrow> Some n)"
    using check_keys_declared [of st names pd spec req ok] d assms(2)
    by (cases seen; cases names) simp_all
  have "find ?p (seen @ names) = or_else (find ?p seen) (find ?p names)"
    by (rule or_else_find_append [symmetric])
  then show ?thesis
    using facts s w decl unfolding sec_inv_def
    by (cases "find ?p seen"; cases "find ?p names") simp_all
qed

lemma check_requirements_reported:
  assumes "sec_inv spec seen st" and "check_requirements pd spec req rs st = Unauthorized_Result s w"
    and "seen @ concat (map (map fst) rs) \<noteq> []"
  shows "(s, w) = reported spec (seen @ concat (map (map fst) rs))"
  using assms
proof (induction rs arbitrary: seen st)
  case Nil
  then obtain n ns where seen: "seen = n # ns" by (cases seen) simp_all
  from Nil show ?case
    unfolding reported_def seen sec_inv_def
    by (cases "find (\<lambda>n. lookup_scheme spec n \<noteq> None) (n # ns)") (simp_all split: if_splits)
next
  case (Cons r rs)
  from Cons.prems(2) have r: "r \<noteq> []" by (auto split: if_splits)
  obtain ok st' where k: "check_keys pd spec req (map fst r) True st = (ok, st')" by fastforce
  with Cons.prems(2) r have rest: "check_requirements pd spec req rs st' = Unauthorized_Result s w"
    by (cases ok) simp_all
  have "sec_inv spec (seen @ map fst r) st'"
    using check_keys_inv [OF Cons.prems(1), of "map fst r" pd req True] r k by simp
  from Cons.IH [OF this rest] r show ?case by simp
qed

text \<open>
  A denial names the first declared scheme that the document defines, with its challenge (Bearer
  for OAuth2 and OpenID Connect, none for API keys); when no declared name is defined it names the
  first declared one without a challenge.
\<close>

theorem security_denial_report:
  assumes "evaluate_security pd spec op req = Unauthorized_Result s w"
  shows "\<exists>rs. or_else (op_security op) (spec_security spec) = Some rs
    \<and> (s, w) = reported spec (concat (map (map fst) rs))"
proof -
  let ?st = "\<lparr>ss_first_scheme = None, ss_first_www = None, ss_first_declared = None\<rparr>"
  from assms obtain rs where rs: "or_else (op_security op) (spec_security spec) = Some rs"
    "rs \<noteq> []" "check_requirements pd spec req rs ?st = Unauthorized_Result s w"
    by (auto simp: evaluate_security_def split: option.splits if_splits)
  have "concat (map (map fst) rs) \<noteq> []"
    using rs(2,3) by (cases rs) (auto split: if_splits)
  moreover have "sec_inv spec [] ?st" by (simp add: sec_inv_def)
  ultimately show ?thesis using check_requirements_reported [of spec "[]" ?st pd req rs s w] rs by simp
qed

text \<open>
  A request without an Authorization header never satisfies an HTTP, OAuth2 or OpenID Connect
  scheme, and an Authorization header that is only the scheme name does not satisfy bearer or basic.
\<close>

theorem missing_credential_denied:
  assumes "find_header req ''authorization'' = None"
    and "scheme \<in> {HTTP kind, OAuth2, OpenIDConnect}"
  shows "\<not> is_scheme_satisfied pd scheme req"
  using assms by (auto simp: is_scheme_satisfied_def has_authorization_prefix_def Let_def)

section \<open>Example\<close>

definition sec_spec :: openapi where
  "sec_spec =
     \<lparr>spec_openapi = ''3.0.3'', spec_title = ''t'', spec_version = ''1'', spec_paths = [],
      spec_components = Some
        \<lparr>c_schemas = [], c_responses = [], c_parameters = [], c_examples = [], c_request_bodies = [],
         c_headers = [],
         c_security_schemes =
           [(''key'', Item (APIKey AL_Header ''X-Key'')),
            (''bearer'', Reference ''#/components/securitySchemes/b''), (''b'', Item (HTTP ''Bearer''))]\<rparr>,
      spec_security = Some [[(''ghost'', [])], [(''bearer'', []), (''key'', [])]],
      spec_servers = [], spec_extensions = []\<rparr>"

definition sec_op :: operation where
  "sec_op =
     \<lparr>op_operation_id = None, op_summary = None, op_parameters = [], op_request_body = None,
      op_responses = \<lparr>rs_default = None, rs_responses = []\<rparr>, op_security = None, op_servers = [],
      op_extensions = []\<rparr>"

definition sec_req :: "string str_map \<Rightarrow> mock_request" where
  "sec_req hs = \<lparr>mr_method = ''GET'', mr_path = ''/'', mr_headers = hs, mr_query = [], mr_body = None\<rparr>"

lemma sec_denied:
  "evaluate_security Some sec_spec sec_op (sec_req [(''X-Key'', ''k'')]) =
     Unauthorized_Result ''bearer'' (Some (''Bearer'' @ realm ''bearer''))"
  by code_simp

theorem security_denial_report_witness:
  "\<exists>rs. or_else (op_security sec_op) (spec_security sec_spec) = Some rs
    \<and> (''bearer'', Some (''Bearer'' @ realm ''bearer'')) = reported sec_spec (concat (map (map fst) rs))"
  by (rule security_denial_report [OF sec_denied])

theorem missing_credential_denied_witness:
  "\<not> is_scheme_satisfied Some (HTTP ''digest'') (sec_req [(''X-Key'', ''k'')])"
  by (rule missing_credential_denied [where kind = "''digest''"]) (code_simp, simp)

theorem security_authorized_iff_witness:
  "evaluate_security Some sec_spec sec_op (sec_req [(''x-key'', ''k''), (''authorization'', ''bearer t'')])
   = Authorized"
  by (subst security_authorized_iff) (simp add: sec_spec_def sec_op_def, code_simp)

end
