(* ===== verification/Formats.thy ===== *)
theory Formats
  imports Types
begin

text \<open>
  \<open>validation.rs\<close>: the compiled-pattern cache and the \<open>format\<close> checks. \<open>rx p\<close> stands for
  \<open>regex::Regex::new(p).ok()\<close> of the \<open>regex\<close> crate, a compiled pattern being its \<open>is_match\<close>.
\<close>

type_synonym regex = "string \<Rightarrow> bool"
type_synonym compiler = "string \<Rightarrow> regex option"

section \<open>The pattern cache\<close>

definition REGEX_CACHE_CAPACITY :: nat where "REGEX_CACHE_CAPACITY = 256"
definition MAX_PATTERN_BYTES :: nat where "MAX_PATTERN_BYTES = 65536"

type_synonym regex_cache = "regex option str_map"

definition cached_regex :: "compiler \<Rightarrow> string \<Rightarrow> regex_cache \<Rightarrow> regex option \<times> regex_cache" where
  "cached_regex rx pattern cache =
     (if MAX_PATTERN_BYTES < length pattern then (None, cache)
      else (case map_of cache pattern of
              Some entry \<Rightarrow> (entry, cache)
            | None \<Rightarrow>
                (let cache' = (if REGEX_CACHE_CAPACITY \<le> length cache then [] else cache);
                     compiled = rx pattern
                 in (compiled, (pattern, compiled) # cache'))))"

text \<open>What a lookup means without the cache; the checks below use it.\<close>

definition regex_of :: "compiler \<Rightarrow> string \<Rightarrow> regex option" where
  "regex_of rx pattern = (if MAX_PATTERN_BYTES < length pattern then None else rx pattern)"

text \<open>
  The contract between a memoising lookup and its clients: results are those of a pure function and
  the state invariant is kept.
\<close>

locale memo_lookup =
  fixes step :: "'k \<Rightarrow> 's \<Rightarrow> 'v \<times> 's"
    and inv :: "'s \<Rightarrow> bool"
    and pure :: "'k \<Rightarrow> 'v"
  assumes step_result: "inv s \<Longrightarrow> fst (step k s) = pure k"
    and step_inv: "inv s \<Longrightarrow> inv (snd (step k s))"
begin

definition run_lookups :: "'k list \<Rightarrow> 's \<Rightarrow> 'v list \<times> 's" where
  "run_lookups ks s = foldl (\<lambda>(vs, s) k. (case step k s of (v, s') \<Rightarrow> (vs @ [v], s'))) ([], s) ks"

lemma run_lookups_gen:
  assumes "inv s"
  shows "fst (foldl (\<lambda>(vs, s) k. (case step k s of (v, s') \<Rightarrow> (vs @ [v], s'))) (ws, s) ks)
      = ws @ map pure ks
    \<and> inv (snd (foldl (\<lambda>(vs, s) k. (case step k s of (v, s') \<Rightarrow> (vs @ [v], s'))) (ws, s) ks))"
  using assms
proof (induction ks arbitrary: ws s)
  case (Cons k ks)
  obtain v s' where st: "step k s = (v, s')" by (cases "step k s")
  with Cons.prems step_result [of s k] step_inv [of s k] have "v = pure k" "inv s'" by simp_all
  with st Cons.IH [of s' "ws @ [v]"] show ?case by simp
qed simp

lemma transparent: "inv s \<Longrightarrow> fst (run_lookups ks s) = map pure ks"
  using run_lookups_gen [of s "[]" ks] by (simp add: run_lookups_def)

lemma keeps_inv: "inv s \<Longrightarrow> inv (snd (run_lookups ks s))"
  using run_lookups_gen [of s "[]" ks] by (simp add: run_lookups_def)

end

definition regex_cache_inv :: "compiler \<Rightarrow> regex_cache \<Rightarrow> bool" where
  "regex_cache_inv rx cache \<longleftrightarrow>
     wf_map cache \<and> length cache \<le> REGEX_CACHE_CAPACITY
     \<and> (\<forall>(p, e) \<in> set cache. e = rx p \<and> length p \<le> MAX_PATTERN_BYTES)"

lemma regex_cache_inv_empty: "regex_cache_inv rx []"
  by (simp add: regex_cache_inv_def wf_map_def)

interpretation rc: memo_lookup "cached_regex rx" "regex_cache_inv rx" "regex_of rx" for rx
proof
  fix s k assume inv: "regex_cache_inv rx s"
  show "fst (cached_regex rx k s) = regex_of rx k"
    using inv map_of_SomeD [of s k]
    by (auto simp: cached_regex_def regex_of_def regex_cache_inv_def Let_def split: option.splits)
  show "regex_cache_inv rx (snd (cached_regex rx k s))"
    using inv
    by (auto simp: cached_regex_def regex_cache_inv_def Let_def wf_map_def map_of_eq_None_iff
        REGEX_CACHE_CAPACITY_def split: option.splits)
qed

text \<open>
  Over any sequence of pattern lookups the cache is unobservable: every answer is the one a fresh
  compilation gives (none for a source above 65536 bytes), and the cache never exceeds 256 entries.
\<close>

theorem regex_cache_transparent:
  "fst (memo_lookup.run_lookups (cached_regex rx) ps []) = map (regex_of rx) ps
   \<and> length (snd (memo_lookup.run_lookups (cached_regex rx) ps [])) \<le> 256"
  using rc.transparent [OF regex_cache_inv_empty, of rx ps] rc.keeps_inv [OF regex_cache_inv_empty, of rx ps]
  by (simp add: regex_cache_inv_def REGEX_CACHE_CAPACITY_def)

section \<open>Dates and times\<close>

text \<open>\<open>s.get(a..b)\<close>: \<open>None\<close> out of range or off a character boundary.\<close>

definition str_get :: "string \<Rightarrow> nat \<Rightarrow> nat \<Rightarrow> string option" where
  "str_get s a b =
     (if a \<le> b \<and> b \<le> length s \<and> is_char_boundary s a \<and> is_char_boundary s b
      then Some (take (b - a) (drop a s)) else None)"

definition get_u32 :: "string \<Rightarrow> nat \<Rightarrow> nat \<Rightarrow> nat" where
  "get_u32 s a b = unwrap_or (Option.bind (str_get s a b) parse_u32) 0"

definition is_valid_ymd :: "nat \<Rightarrow> nat \<Rightarrow> nat \<Rightarrow> bool" where
  "is_valid_ymd year month day =
     (if \<not> (1 \<le> month \<and> month \<le> 12) \<or> day = 0 then False
      else
        let last =
          (if month \<in> {1, 3, 5, 7, 8, 10, 12} then 31
           else if month \<in> {4, 6, 9, 11} then 30
           else if (year mod 4 = 0 \<and> year mod 100 \<noteq> 0) \<or> year mod 400 = 0 then 29 else 28)
        in day \<le> last)"

definition bs :: "string \<Rightarrow> string" where "bs s = CHR 0x5C # s"

definition date_pattern :: string where
  "date_pattern = ''^'' @ bs ''d{4}-'' @ bs ''d{2}-'' @ bs ''d{2}$''"

definition time_pattern :: string where
  "time_pattern = ''^'' @ bs ''d{2}:'' @ bs ''d{2}:'' @ bs ''d{2}$''"

definition date_time_pattern :: string where
  "date_time_pattern = ''^'' @ bs ''d{4}-'' @ bs ''d{2}-'' @ bs ''d{2}[Tt]'' @ bs ''d{2}:'' @ bs ''d{2}:'' @ bs ''d{2}('' @ bs ''.'' @ bs ''d+)?([Zz]|[+'' @ bs ''-]'' @ bs ''d{2}:'' @ bs ''d{2})$''"

definition is_valid_rfc3339_date_time :: "compiler \<Rightarrow> string \<Rightarrow> bool" where
  "is_valid_rfc3339_date_time rx s =
     (case regex_of rx date_time_pattern of
        None \<Rightarrow> True
      | Some re \<Rightarrow>
          re s \<and> is_valid_ymd (get_u32 s 0 4) (get_u32 s 5 7) (get_u32 s 8 10)
          \<and> get_u32 s 11 13 < 24 \<and> get_u32 s 14 16 < 60 \<and> get_u32 s 17 19 \<le> 60)"

definition is_valid_iso_date :: "compiler \<Rightarrow> string \<Rightarrow> bool" where
  "is_valid_iso_date rx s =
     (if \<not> (case regex_of rx date_pattern of Some re \<Rightarrow> re s | None \<Rightarrow> False) then False
      else is_valid_ymd (get_u32 s 0 4) (get_u32 s 5 7) (get_u32 s 8 10))"

definition is_valid_iso_time :: "compiler \<Rightarrow> string \<Rightarrow> bool" where
  "is_valid_iso_time rx s =
     (if \<not> (case regex_of rx time_pattern of Some re \<Rightarrow> re s | None \<Rightarrow> False) then False
      else get_u32 s 0 2 < 24 \<and> get_u32 s 3 5 < 60 \<and> get_u32 s 6 8 \<le> 60)"

section \<open>Base64 and host names\<close>

definition is_ascii_alphanumeric :: "char \<Rightarrow> bool" where
  "is_ascii_alphanumeric c \<longleftrightarrow>
     48 \<le> byte c \<and> byte c \<le> 57 \<or> 65 \<le> byte c \<and> byte c \<le> 90 \<or> 97 \<le> byte c \<and> byte c \<le> 122"

definition is_base64_char :: "char \<Rightarrow> bool" where
  "is_base64_char b \<longleftrightarrow> is_ascii_alphanumeric b \<or> b = CHR ''+'' \<or> b = CHR ''/''"

definition is_valid_base64 :: "string \<Rightarrow> bool" where
  "is_valid_base64 s =
     (if s = [] then True
      else if length s mod 4 \<noteq> 0 then False
      else
        let e0 = length s;
            e1 = (if s ! (e0 - 1) = CHR ''='' then e0 - 1 else e0);
            e2 = (if 0 < e1 \<and> s ! (e1 - 1) = CHR ''='' then e1 - 1 else e1)
        in list_all is_base64_char (take e2 s) \<and> list_all (\<lambda>b. b = CHR ''='') (drop e2 s))"

definition hostname_pattern :: string where
  "hostname_pattern = ''^[a-zA-Z0-9-]+('' @ bs ''.[a-zA-Z0-9-]+)*$''"

definition is_valid_hostname :: "compiler \<Rightarrow> string \<Rightarrow> bool" where
  "is_valid_hostname rx s =
     (if \<not> (case regex_of rx hostname_pattern of Some re \<Rightarrow> re s | None \<Rightarrow> False) then False
      else list_all (\<lambda>label. label \<noteq> [] \<and> length label \<le> 63) (split_on (CHR ''.'') s))"

section \<open>IP addresses (standard library parsers)\<close>

definition hex_val :: "char \<Rightarrow> nat option" where
  "hex_val c =
     (let n = byte c in
      if 48 \<le> n \<and> n \<le> 57 then Some (n - 48)
      else if 97 \<le> n \<and> n \<le> 102 then Some (n - 87)
      else if 65 \<le> n \<and> n \<le> 70 then Some (n - 55)
      else None)"

definition is_hex :: "char \<Rightarrow> bool" where
  "is_hex c \<longleftrightarrow> hex_val c \<noteq> None"

definition read_octet :: "string \<Rightarrow> (nat \<times> string) option" where
  "read_octet s =
     (let ds = takeWhile is_digit s in
      if ds = [] \<or> 3 < length ds \<or> (1 < length ds \<and> hd ds = CHR ''0'') then None
      else (case digits_val 0 ds of
              Some n \<Rightarrow> if n \<le> 255 then Some (n, drop (length ds) s) else None
            | None \<Rightarrow> None))"

fun read_octets :: "nat \<Rightarrow> string \<Rightarrow> (nat list \<times> string) option" where
  "read_octets 0 s = Some ([], s)"
| "read_octets (Suc k) s =
     (case read_octet s of
        None \<Rightarrow> None
      | Some (n, r) \<Rightarrow>
          if k = 0 then Some ([n], r)
          else (case r of
                  c # r' \<Rightarrow>
                    if c = CHR ''.'' then
                      (case read_octets k r' of Some (ns, r'') \<Rightarrow> Some (n # ns, r'') | None \<Rightarrow> None)
                    else None
                | [] \<Rightarrow> None))"

definition parse_ipv4 :: "string \<Rightarrow> nat list option" where
  "parse_ipv4 s =
     (if 15 < length s then None
      else (case read_octets 4 s of Some (ns, r) \<Rightarrow> if r = [] then Some ns else None | None \<Rightarrow> None))"

definition read_group :: "string \<Rightarrow> (nat \<times> string) option" where
  "read_group s =
     (let hs = takeWhile is_hex s in
      if hs = [] \<or> 4 < length hs then None
      else Some (foldl (\<lambda>a c. 16 * a + the (hex_val c)) 0 hs, drop (length hs) s))"

definition skip_colon :: "bool \<Rightarrow> string \<Rightarrow> string option" where
  "skip_colon first s = (if first then Some s else strip_prefix s '':'')"

text \<open>\<open>read_groups\<close>: up to \<open>limit\<close> groups, the last two possibly written as an IPv4 address.\<close>

function read_groups :: "nat \<Rightarrow> nat \<Rightarrow> string \<Rightarrow> nat list \<times> bool \<times> string" where
  "read_groups i limit s =
     (if limit \<le> i then ([], False, s)
      else
        case (if i < limit - 1 then Option.bind (skip_colon (i = 0) s) (read_octets 4) else None) of
          Some (ns, r) \<Rightarrow> ([256 * ns ! 0 + ns ! 1, 256 * ns ! 2 + ns ! 3], True, r)
        | None \<Rightarrow>
            (case Option.bind (skip_colon (i = 0) s) read_group of
               Some (g, r) \<Rightarrow>
                 (case read_groups (Suc i) limit r of (gs, v4, r') \<Rightarrow> (g # gs, v4, r'))
             | None \<Rightarrow> ([], False, s)))"
  by pat_completeness auto
termination
  by (relation "measure (\<lambda>(i, limit, s). limit - i)") auto

declare read_groups.simps [simp del]

definition parse_ipv6 :: "string \<Rightarrow> nat list option" where
  "parse_ipv6 s =
     (case read_groups 0 8 s of
        (hs, v4, r) \<Rightarrow>
          if length hs = 8 then (if r = [] then Some hs else None)
          else if v4 then None
          else (case strip_prefix r ''::'' of
                  None \<Rightarrow> None
                | Some r' \<Rightarrow>
                    (case read_groups 0 (8 - (length hs + 1)) r' of
                       (ts, _, r'') \<Rightarrow>
                         if r'' = [] then Some (hs @ replicate (8 - length hs - length ts) 0 @ ts) else None)))"

section \<open>The format keyword\<close>

definition email_pattern :: string where
  "email_pattern = ''^[A-Za-z0-9._%+-]+@[A-Za-z0-9.-]+'' @ bs ''.[A-Za-z]{2,}$''"

definition uri_pattern :: string where
  "uri_pattern = ''^[A-Za-z][A-Za-z0-9+.'' @ bs ''-]*:''"

definition uuid_pattern :: string where
  "uuid_pattern =
     ''^[0-9a-fA-F]{8}-[0-9a-fA-F]{4}-[0-9a-fA-F]{4}-[0-9a-fA-F]{4}-[0-9a-fA-F]{12}$''"

definition matches_format :: "compiler \<Rightarrow> string \<Rightarrow> string \<Rightarrow> bool" where
  "matches_format rx v format =
     (let via = (\<lambda>p. case regex_of rx p of Some re \<Rightarrow> re v | None \<Rightarrow> True) in
      if format = ''email'' then via email_pattern
      else if format = ''uri'' \<or> format = ''uri-reference'' then via uri_pattern
      else if format = ''uuid'' then via uuid_pattern
      else if format = ''date-time'' then is_valid_rfc3339_date_time rx v
      else if format = ''date'' then is_valid_iso_date rx v
      else if format = ''time'' then is_valid_iso_time rx v
      else if format = ''ipv4'' then parse_ipv4 v \<noteq> None
      else if format = ''ipv6'' then parse_ipv6 v \<noteq> None
      else if format = ''hostname'' then is_valid_hostname rx v
      else if format = ''byte'' then is_valid_base64 v
      else True)"

definition string_type_format :: "str_format variant \<Rightarrow> string option" where
  "string_type_format f =
     (case f of
        VItem SF_Date \<Rightarrow> Some ''date''
      | VItem SF_DateTime \<Rightarrow> Some ''date-time''
      | VItem SF_Password \<Rightarrow> Some ''password''
      | VItem SF_Byte \<Rightarrow> Some ''byte''
      | VItem SF_Binary \<Rightarrow> Some ''binary''
      | VUnknown s \<Rightarrow> Some s
      | VEmpty \<Rightarrow> None)"

section \<open>The date, time, address and base64 formats\<close>

text \<open>Decimal fields of fixed width, and the shape the date pattern describes on ASCII text.\<close>

definition dig :: "nat \<Rightarrow> char" where "dig n = char_of (48 + n mod 10)"
definition pad2 :: "nat \<Rightarrow> string" where "pad2 n = [dig (n div 10), dig n]"
definition pad4 :: "nat \<Rightarrow> string" where "pad4 n = pad2 (n div 100) @ pad2 n"

definition date_text :: "nat \<Rightarrow> nat \<Rightarrow> nat \<Rightarrow> string" where
  "date_text y m d = pad4 y @ ''-'' @ pad2 m @ ''-'' @ pad2 d"

definition date_shape :: "string \<Rightarrow> bool" where
  "date_shape s \<longleftrightarrow> length s = 10 \<and> s ! 4 = CHR ''-'' \<and> s ! 7 = CHR ''-''
     \<and> list_all is_digit (take 4 s @ take 2 (drop 5 s) @ drop 8 s)"

lemma is_digit_byte: "is_digit c \<longleftrightarrow> 48 \<le> byte c \<and> byte c \<le> 57"
  by (simp add: is_digit_def digit_val_def)

lemma dig_props [simp]: "is_digit (dig n)" "digit_val (dig n) = Some (n mod 10)" "byte (dig n) = 48 + n mod 10"
  by (simp_all add: dig_def is_digit_byte digit_val_def byte_char_of)

lemma dig_cases: "is_digit c \<Longrightarrow> \<exists>n<10. c = dig n"
  by (rule exI [of _ "byte c - 48"]) (auto simp: is_digit_byte dig_def byte_def)

lemma digits_val_pad2: "digits_val acc (pad2 n) = Some (100 * acc + n mod 100)"
proof -
  have "n mod (10 * 10) = 10 * (n div 10 mod 10) + n mod 10" by (rule mod_mult2_eq)
  then show ?thesis by (simp add: pad2_def)
qed

lemma digits_val_pad4: "digits_val 0 (pad4 n) = Some (n mod 10000)"
proof -
  have "n mod (100 * 100) = 100 * (n div 100 mod 100) + n mod 100" by (rule mod_mult2_eq)
  then show ?thesis by (simp add: pad4_def digits_val_append digits_val_pad2)
qed

lemma get_u32_digits:
  assumes "is_ascii (a @ w @ b)" and "w \<noteq> []" and "digits_val 0 w = Some n" and "n < 10000"
    and "i = length a" and "j = length a + length w"
  shows "get_u32 (a @ w @ b) i j = n"
proof -
  have "w = c # r \<Longrightarrow> c \<noteq> CHR ''+''" for c r
    using assms(3) by (auto simp: digit_val_def byte_def split: option.splits if_splits)
  then have "strip_plus w = w" using assms(2) by (cases w) (auto simp: strip_plus_def)
  then have "parse_u32 w = Some n" using assms by (simp add: parse_u32_def parse_unsigned_def)
  moreover have "str_get (a @ w @ b) i j = Some w"
    using assms is_ascii_boundary [OF assms(1)] by (simp add: str_get_def)
  ultimately show ?thesis by (simp add: get_u32_def)
qed

lemma is_ascii_digits: "is_ascii (pad2 n)" "is_ascii (pad4 n)" 
proof -
  have "byte (dig k) < 128" for k by (simp add: less_le_trans [OF mod_less_divisor])
  then show "is_ascii (pad2 n)" "is_ascii (pad4 n)" by (simp_all add: is_ascii_def pad2_def pad4_def del: dig_props)
qed

lemma is_ascii_date_text: "is_ascii (date_text y m d)"
  unfolding date_text_def is_ascii_append using is_ascii_digits by (simp add: is_ascii_def byte_def)

lemma length_pad [simp]: "length (pad2 n) = 2" "length (pad4 n) = 4" "pad2 n \<noteq> []" "pad4 n \<noteq> []"
  by (simp_all add: pad2_def pad4_def)

lemma get_u32_date_text:
  assumes "y < 10000" "m < 100" "d < 100"
  shows "get_u32 (date_text y m d) 0 4 = y" "get_u32 (date_text y m d) 5 7 = m"
    "get_u32 (date_text y m d) 8 10 = d"
proof -
  note a = is_ascii_date_text [of y m d]
  show "get_u32 (date_text y m d) 0 4 = y"
    using get_u32_digits [of "[]" "pad4 y" "''-'' @ pad2 m @ ''-'' @ pad2 d"] a assms
    by (simp add: date_text_def digits_val_pad4)
  show "get_u32 (date_text y m d) 5 7 = m"
    using get_u32_digits [of "pad4 y @ ''-''" "pad2 m" "''-'' @ pad2 d"] a assms
    by (simp add: date_text_def digits_val_pad2)
  show "get_u32 (date_text y m d) 8 10 = d"
    using get_u32_digits [of "pad4 y @ ''-'' @ pad2 m @ ''-''" "pad2 d" "[]"] a assms
    by (simp add: date_text_def digits_val_pad2)
qed

lemma pad2_surj: "is_digit a \<Longrightarrow> is_digit b \<Longrightarrow> \<exists>n<100. [a, b] = pad2 n"
proof -
  assume "is_digit a" "is_digit b"
  then obtain i j where "i < 10" "a = dig i" "j < 10" "b = dig j" using dig_cases by metis
  then show ?thesis by (intro exI [of _ "10 * i + j"]) (auto simp: pad2_def dig_def)
qed

lemma pad4_surj:
  assumes "is_digit a" "is_digit b" "is_digit c" "is_digit d"
  shows "\<exists>n<10000. [a, b, c, d] = pad4 n"
proof -
  obtain i j where "i < 100" "[a, b] = pad2 i" "j < 100" "[c, d] = pad2 j"
    using pad2_surj assms by metis
  moreover have "dig (100 * i + j) = dig j" "dig ((100 * i + j) div 10) = dig (j div 10)"
  proof -
    have "100 * i + j = j + 10 * (10 * i)" by simp
    then have "(100 * i + j) mod 10 = j mod 10" "(100 * i + j) div 10 = j div 10 + 10 * i"
      by (metis mod_mult_self2, metis div_mult_self2 add.commute zero_neq_numeral)
    moreover have "(j div 10 + 10 * i) mod 10 = j div 10 mod 10" by simp
    ultimately show "dig (100 * i + j) = dig j" "dig ((100 * i + j) div 10) = dig (j div 10)"
      by (simp_all only: dig_def)
  qed
  moreover have "(100 * i + j) div 100 = i" using \<open>j < 100\<close> by simp
  ultimately show ?thesis by (intro exI [of _ "100 * i + j"]) (simp add: pad4_def pad2_def)
qed

lemma length_10: "length s = 10 \<Longrightarrow> \<exists>a b c d e f g h i j. s = [a,b,c,d,e,f,g,h,i,j]"
  by (auto simp: length_Suc_conv numeral_eq_Suc)

lemma date_shape_iff: "date_shape s \<longleftrightarrow> (\<exists>y m d. y < 10000 \<and> m < 100 \<and> d < 100 \<and> s = date_text y m d)"
proof
  assume sh: "date_shape s"
  then obtain a b c d e f g h i j where s: "s = [a,b,c,d,e,f,g,h,i,j]"
    using length_10 [of s] unfolding date_shape_def by metis
  with sh have "e = CHR ''-''" "h = CHR ''-''" "is_digit a" "is_digit b" "is_digit c" "is_digit d"
    "is_digit f" "is_digit g" "is_digit i" "is_digit j" by (simp_all add: date_shape_def)
  moreover from this obtain y m k where "y < 10000" "[a,b,c,d] = pad4 y" "m < 100" "[f, g] = pad2 m"
    "k < 100" "[i, j] = pad2 k" using pad4_surj pad2_surj by metis
  ultimately show "\<exists>y m d. y < 10000 \<and> m < 100 \<and> d < 100 \<and> s = date_text y m d"
    using s unfolding date_text_def by (metis append_Cons append_Nil)
next
  assume "\<exists>y m d. y < 10000 \<and> m < 100 \<and> d < 100 \<and> s = date_text y m d"
  then show "date_shape s" by (auto simp: date_shape_def date_text_def pad4_def pad2_def)
qed

text \<open>
  The date check decides the proleptic Gregorian calendar. When the pattern engine compiles the date
  pattern and decides its shape on ASCII text, an ASCII string is a valid \<open>date\<close> exactly when it is
  \<open>YYYY-MM-DD\<close> for a month of the year and a day of that month, leap years included.
\<close>

theorem iso_date_iff:
  assumes rx: "rx date_pattern = Some re" and ascii: "is_ascii s"
    and shape: "\<And>t. is_ascii t \<Longrightarrow> re t \<longleftrightarrow> date_shape t"
  shows "is_valid_iso_date rx s \<longleftrightarrow>
    (\<exists>y m d. s = date_text y m d \<and> y < 10000 \<and> 1 \<le> m \<and> m \<le> 12 \<and> 1 \<le> d
      \<and> d \<le> (if m = 2 then (if 4 dvd y \<and> (100 dvd y \<longrightarrow> 400 dvd y) then 29 else 28)
             else if m \<in> {4, 6, 9, 11} then 30 else 31))" (is "_ = ?R")
proof -
  have len: "length date_pattern \<le> MAX_PATTERN_BYTES" by (simp add: date_pattern_def bs_def MAX_PATTERN_BYTES_def)
  have "is_valid_iso_date rx s \<longleftrightarrow> date_shape s
    \<and> is_valid_ymd (get_u32 s 0 4) (get_u32 s 5 7) (get_u32 s 8 10)"
    using rx ascii shape len by (simp add: is_valid_iso_date_def regex_of_def)
  also have "\<dots> \<longleftrightarrow> (\<exists>y m d. s = date_text y m d \<and> y < 10000 \<and> m < 100 \<and> d < 100 \<and> is_valid_ymd y m d)"
  proof
    assume "date_shape s \<and> is_valid_ymd (get_u32 s 0 4) (get_u32 s 5 7) (get_u32 s 8 10)"
    moreover from this obtain y m d where "y < 10000" "m < 100" "d < 100" "s = date_text y m d"
      by (auto simp: date_shape_iff)
    ultimately show "\<exists>y m d. s = date_text y m d \<and> y < 10000 \<and> m < 100 \<and> d < 100 \<and> is_valid_ymd y m d"
      using get_u32_date_text [of y m d] by auto
  next
    assume "\<exists>y m d. s = date_text y m d \<and> y < 10000 \<and> m < 100 \<and> d < 100 \<and> is_valid_ymd y m d"
    then obtain y m d where d: "y < 10000" "m < 100" "d < 100" "s = date_text y m d" "is_valid_ymd y m d"
      by auto
    moreover from d(1-4) have "date_shape s" unfolding date_shape_iff by blast
    ultimately show "date_shape s \<and> is_valid_ymd (get_u32 s 0 4) (get_u32 s 5 7) (get_u32 s 8 10)"
      using get_u32_date_text [of y m d] by simp
  qed
  also have "\<dots> \<longleftrightarrow> ?R"
  proof -
    have "m < 100 \<and> d < 100 \<and> is_valid_ymd y m d \<longleftrightarrow> 1 \<le> m \<and> m \<le> 12 \<and> 1 \<le> d
      \<and> d \<le> (if m = 2 then (if 4 dvd y \<and> (100 dvd y \<longrightarrow> 400 dvd y) then 29 else 28)
             else if m \<in> {4, 6, 9, 11} then 30 else 31)" for y m d :: nat
    proof (cases "1 \<le> m \<and> m \<le> 12")
      case True
      then have "m \<in> {1,2,3,4,5,6,7,8,9,10,11,12}" by simp arith
      moreover have "400 dvd y \<Longrightarrow> 4 dvd y" by presburger
      ultimately show ?thesis
        by (elim insertE emptyE) (auto simp: is_valid_ymd_def dvd_eq_mod_eq_0)
    qed (auto simp: is_valid_ymd_def)
    then show ?thesis by metis
  qed
  finally show ?thesis .
qed


theorem iso_date_iff_witness:
  "is_valid_iso_date (\<lambda>_. Some date_shape) ''2024-02-29''
   \<and> \<not> is_valid_iso_date (\<lambda>_. Some date_shape) ''2023-02-29''"
proof
  have "is_ascii ''2024-02-29''" "''2024-02-29'' = date_text 2024 2 29" by code_simp+
  then show "is_valid_iso_date (\<lambda>_. Some date_shape) ''2024-02-29''"
    by (subst iso_date_iff [where re = date_shape]) (simp, simp, simp, rule exI [of _ 2024], rule exI [of _ 2], rule exI [of _ 29], simp)
  show "\<not> is_valid_iso_date (\<lambda>_. Some date_shape) ''2023-02-29''" by code_simp
qed

definition arabic_99_99_99 :: string where
  "arabic_99_99_99 = (let d = [CHR 0xD9, CHR 0xA9] in d @ d @ '':'' @ d @ d @ '':'' @ d @ d)"

text \<open>
  The time check accepts digits that are not ASCII. The pattern's \<open>d\<close> class is the Unicode class of
  decimal digits; for the Arabic-Indic text of 99:99:99 every numeric field then fails to parse and
  counts as 0, so the text passes the range checks.
\<close>

theorem iso_time_accepts_unicode_digits:
  assumes "rx time_pattern = Some re" and "re arabic_99_99_99"
  shows "is_valid_iso_time rx arabic_99_99_99"
proof -
  have "length time_pattern \<le> MAX_PATTERN_BYTES" by code_simp
  moreover have "get_u32 arabic_99_99_99 0 2 = 0" "get_u32 arabic_99_99_99 3 5 = 0"
    "get_u32 arabic_99_99_99 6 8 = 0" by code_simp+
  ultimately show ?thesis using assms by (simp add: is_valid_iso_time_def regex_of_def)
qed

theorem iso_time_accepts_unicode_digits_witness:
  "is_valid_iso_time (\<lambda>_. Some (\<lambda>t. length t = 14)) arabic_99_99_99"
  by (rule iso_time_accepts_unicode_digits [where re = "\<lambda>t. length t = 14"]) (simp, code_simp)

text \<open>Dotted decimal: an octet is the canonical decimal text of a number up to 255.\<close>

lemma is_digit_show_nat: "list_all is_digit (show_nat n)"
  using show_nat_digits by (auto simp: list_all_iff is_digit_byte)

lemma length_show_octet: "n \<le> 255 \<Longrightarrow> length (show_nat n) \<le> 3"
  by (auto simp: show_nat.simps [of n] show_nat.simps [of "n div 10"] show_nat.simps [of "n div 10 div 10"])

definition stops :: "string \<Rightarrow> bool" where
  "stops r \<longleftrightarrow> (case r of [] \<Rightarrow> True | c # _ \<Rightarrow> \<not> is_digit c)"

lemma digits_prefix: "stops r \<Longrightarrow> takeWhile is_digit (show_nat n @ r) = show_nat n"
proof -
  assume st: "stops r"
  have "\<And>x. x \<in> set (show_nat n) \<Longrightarrow> is_digit x" using is_digit_show_nat [of n] by (simp add: list_all_iff)
  then have "takeWhile is_digit (show_nat n @ r) = show_nat n @ takeWhile is_digit r"
    by (rule takeWhile_append2)
  with st show ?thesis by (cases r) (simp_all add: stops_def)
qed

lemma read_octet_iff: "read_octet s = Some (n, r) \<longleftrightarrow> s = show_nat n @ r \<and> n \<le> 255 \<and> stops r"
proof
  assume ro: "read_octet s = Some (n, r)"
  define ds where "ds = takeWhile is_digit s"
  from ro have d: "ds \<noteq> []" "1 < length ds \<longrightarrow> hd ds \<noteq> CHR ''0''" "digits_val 0 ds = Some n" "n \<le> 255"
    "r = drop (length ds) s"
    by (auto simp: read_octet_def ds_def [symmetric] Let_def split: if_splits option.splits)
  have "ds = show_nat n" using show_nat_unique d by blast
  moreover have r: "r = dropWhile is_digit s" using d(5) by (simp add: ds_def dropWhile_eq_drop)
  then have "s = ds @ r" by (simp add: ds_def)
  moreover have "r \<noteq> [] \<Longrightarrow> \<not> is_digit (hd r)" unfolding r by (rule hd_dropWhile)
  then have "stops r" by (cases r) (simp_all add: stops_def)
  ultimately show "s = show_nat n @ r \<and> n \<le> 255 \<and> stops r" using d(4) by simp
next
  assume "s = show_nat n @ r \<and> n \<le> 255 \<and> stops r"
  moreover from this have "takeWhile is_digit s = show_nat n" by (simp add: digits_prefix)
  ultimately show "read_octet s = Some (n, r)"
    using length_show_octet [of n] show_nat_head [of n]
    by (auto simp: read_octet_def digits_val_show_nat Let_def)
qed

lemma stops_dot: "stops (CHR ''.'' # r)"
  by (simp add: stops_def is_digit_byte byte_def)

lemma read_octets_iff:
  "read_octets (Suc k) s = Some (ns, r) \<longleftrightarrow>
     length ns = Suc k \<and> list_all (\<lambda>n. n \<le> 255) ns \<and> s = join ''.'' (map show_nat ns) @ r \<and> stops r"
proof (induction k arbitrary: s ns)
  case 0
  have "read_octets (Suc 0) s = Some (ns, r) \<longleftrightarrow> (\<exists>n. ns = [n] \<and> read_octet s = Some (n, r))"
    by (auto split: option.splits)
  then show ?case by (auto simp: read_octet_iff length_Suc_conv)
next
  case (Suc k)
  have "read_octets (Suc (Suc k)) s = Some (ns, r) \<longleftrightarrow>
    (\<exists>n ms q. read_octet s = Some (n, CHR ''.'' # q) \<and> read_octets (Suc k) q = Some (ms, r) \<and> ns = n # ms)"
  proof (cases "read_octet s")
    case (Some nq)
    obtain n q where "nq = (n, q)" by (cases nq)
    with Some show ?thesis
      by (cases q) (auto split: option.splits prod.splits simp del: read_octets.simps(2) simp: read_octets.simps(2) [of "Suc k"])
  qed simp
  also have "\<dots> \<longleftrightarrow> (\<exists>n ms. ns = n # ms \<and> length ms = Suc k \<and> n \<le> 255 \<and> list_all (\<lambda>n. n \<le> 255) ms
      \<and> s = show_nat n @ ''.'' @ join ''.'' (map show_nat ms) @ r \<and> stops r)"
    unfolding Suc.IH read_octet_iff using stops_dot by auto
  also have "\<dots> \<longleftrightarrow> length ns = Suc (Suc k) \<and> list_all (\<lambda>n. n \<le> 255) ns
      \<and> s = join ''.'' (map show_nat ns) @ r \<and> stops r"
    by (auto simp: length_Suc_conv)
  finally show ?case .
qed

lemma length_4: "length ns = 4 \<longleftrightarrow> (\<exists>a b c d. ns = [a, b, c, d])"
  by (auto simp: length_Suc_conv numeral_eq_Suc)

text \<open>
  The \<open>ipv4\<close> format accepts exactly the four-part dotted decimals whose parts are the canonical
  (no leading zero) texts of numbers up to 255.
\<close>

theorem ipv4_format_iff:
  "matches_format rx v ''ipv4'' \<longleftrightarrow>
     (\<exists>a b c d. v = join ''.'' (map show_nat [a, b, c, d]) \<and> a \<le> 255 \<and> b \<le> 255 \<and> c \<le> 255 \<and> d \<le> 255)"
proof -
  have four: "read_octets 4 v = Some (ns, []) \<longleftrightarrow> length ns = 4 \<and> list_all (\<lambda>n. n \<le> 255) ns
    \<and> v = join ''.'' (map show_nat ns)" for ns
    using read_octets_iff [of 3 v ns "[]"] by (simp add: stops_def del: read_octets.simps)
  have "matches_format rx v ''ipv4'' \<longleftrightarrow> length v \<le> 15 \<and> (\<exists>ns. read_octets 4 v = Some (ns, []))"
    by (auto simp: matches_format_def parse_ipv4_def split: option.splits prod.splits if_splits
        simp del: read_octets.simps)
  also have "\<dots> \<longleftrightarrow> length v \<le> 15 \<and> (\<exists>a b c d. v = join ''.'' (map show_nat [a, b, c, d])
      \<and> a \<le> 255 \<and> b \<le> 255 \<and> c \<le> 255 \<and> d \<le> 255)"
    unfolding four length_4 by force
  also have "\<dots> \<longleftrightarrow> (\<exists>a b c d. v = join ''.'' (map show_nat [a, b, c, d])
      \<and> a \<le> 255 \<and> b \<le> 255 \<and> c \<le> 255 \<and> d \<le> 255)"
  proof -
    have "length (join ''.'' (map show_nat [a, b, c, d])) \<le> 15"
      if "a \<le> 255" "b \<le> 255" "c \<le> 255" "d \<le> 255" for a b c d
      using that [THEN length_show_octet] by simp
    then show ?thesis by blast
  qed
  finally show ?thesis .
qed

text \<open>Base64: at most two padding characters, at the end.\<close>

lemma eq_not_base64: "\<not> is_base64_char CHR ''=''"
  by (simp add: is_base64_char_def is_ascii_alphanumeric_def byte_def)

lemma is_valid_base64_snoc2:
  "is_valid_base64 (u @ [d, c]) \<longleftrightarrow> length (u @ [d, c]) mod 4 = 0 \<and>
     list_all is_base64_char
       (if c \<noteq> CHR ''='' then u @ [d, c] else if d \<noteq> CHR ''='' then u @ [d] else u)"
  by (simp add: is_valid_base64_def nth_append Let_def)

lemma last_two: "2 \<le> length v \<Longrightarrow> \<exists>u d c. v = u @ [d, c]"
  by (cases v rule: rev_cases) (auto, metis append.assoc append_Cons append_Nil list.size(3) not_one_le_zero rev_exhaust One_nat_def)

lemma base64_split_snoc2:
  "(\<exists>body pad. u @ [d, c] = body @ pad \<and> list_all is_base64_char body \<and> pad \<in> {[], ''='', ''==''})
   \<longleftrightarrow> list_all is_base64_char
       (if c \<noteq> CHR ''='' then u @ [d, c] else if d \<noteq> CHR ''='' then u @ [d] else u)" (is "?L \<longleftrightarrow> ?R")
proof
  assume ?L
  then obtain body pad where bp: "u @ [d, c] = body @ pad" "list_all is_base64_char body"
    "pad = [] \<or> pad = ''='' \<or> pad = ''==''" by auto
  from bp(3) show ?R
  proof (elim disjE)
    assume "pad = []"
    with bp eq_not_base64 show ?R by auto
  next
    assume "pad = ''=''"
    with bp(1) have "body = u @ [d]" "c = CHR ''=''" by simp_all
    with bp(2) eq_not_base64 show ?R by auto
  next
    assume "pad = ''==''"
    with bp(1) have "body = u" "d = CHR ''=''" "c = CHR ''=''" by simp_all
    with bp(2) show ?R by simp
  qed
next
  assume R: ?R
  consider "c \<noteq> CHR ''=''" | "c = CHR ''=''" "d \<noteq> CHR ''=''" | "c = CHR ''=''" "d = CHR ''=''" by blast
  then show ?L
  proof cases
    case 1
    with R show ?thesis by (intro exI [of _ "u @ [d, c]"] exI [of _ "[]"]) simp
  next
    case 2
    with R show ?thesis by (intro exI [of _ "u @ [d]"] exI [of _ "''=''"]) simp
  next
    case 3
    with R show ?thesis by (intro exI [of _ u] exI [of _ "''==''"]) simp
  qed
qed

text \<open>
  The \<open>byte\<close> format accepts exactly the texts whose length is a multiple of four and that are a run of
  base64 characters followed by at most two padding characters.
\<close>

theorem base64_format_iff:
  "matches_format rx v ''byte'' \<longleftrightarrow> length v mod 4 = 0 \<and>
     (\<exists>body pad. v = body @ pad \<and> list_all is_base64_char body \<and> pad \<in> {[], ''='', ''==''})"
proof (cases "length v < 2")
  case True
  then have "v = [] \<or> (\<exists>c. v = [c])" by (cases v) auto
  then show ?thesis by (auto simp: matches_format_def is_valid_base64_def)
next
  case False
  then obtain u d c where v: "v = u @ [d, c]" using last_two [of v] by auto
  show ?thesis unfolding v base64_split_snoc2 by (simp add: matches_format_def is_valid_base64_snoc2)
qed


end
