(* ===== verification/Validation.thy ===== *)
theory Validation
  imports Formats
begin

text \<open>
  \<open>validation.rs\<close>: the schema validator \<open>validate_value\<close> and its helpers. The errors a call pushes
  to the shared vector are its result; the recursion of \<open>validate_value\<close> over schemas and references is
  bounded by a budget, \<open>Fuel\<close> being its exhaustion. Each arm of the Rust \<open>match\<close> is one definition;
  the arms that recurse take the recursive call as an argument \<open>rec\<close>.
\<close>

type_synonym errors = "validation_error list"
type_synonym validator = "schema \<Rightarrow> json \<Rightarrow> validation_location \<Rightarrow> string \<Rightarrow> errors run"

section \<open>References\<close>

definition resolve_schema :: "openapi \<Rightarrow> schema ref_or \<Rightarrow> schema option" where
  "resolve_schema spec s =
     (case s of
        Item sc \<Rightarrow> Some sc
      | Reference reference \<Rightarrow>
          Option.bind (strip_prefix reference ''#/components/schemas/'') (\<lambda>name.
          Option.bind (spec_components spec) (\<lambda>c.
          Option.bind (map_of (c_schemas c) name) as_item)))"

text \<open>The same function on a boxed item.\<close>

definition resolve_boxed_schema :: "openapi \<Rightarrow> schema ref_or \<Rightarrow> schema option" where
  "resolve_boxed_schema spec s =
     (case s of
        Item sc \<Rightarrow> Some sc
      | Reference reference \<Rightarrow>
          Option.bind (strip_prefix reference ''#/components/schemas/'') (\<lambda>name.
          Option.bind (spec_components spec) (\<lambda>c.
          Option.bind (map_of (c_schemas c) name) as_item)))"

interpretation rs: one_hop resolve_schema "''#/components/schemas/''" c_schemas
  by unfold_locales (simp_all add: resolve_schema_def)

interpretation rbs: one_hop resolve_boxed_schema "''#/components/schemas/''" c_schemas
  by unfold_locales (simp_all add: resolve_boxed_schema_def)

section \<open>Scalar checks\<close>

definition quoted :: "string \<Rightarrow> string" where
  "quoted s = CHR 0x27 # s @ [CHR 0x27]"

definition type_error :: "validation_location \<Rightarrow> string \<Rightarrow> string \<Rightarrow> validation_error" where
  "type_error loc field expected = verr loc field ''type'' (''expected '' @ expected)"

definition check_pattern ::
  "compiler \<Rightarrow> string \<Rightarrow> string \<Rightarrow> validation_location \<Rightarrow> string \<Rightarrow> errors" where
  "check_pattern rx s pattern loc field =
     (case regex_of rx pattern of
        None \<Rightarrow> []
      | Some re \<Rightarrow>
          if re s then []
          else [verr loc field ''pattern'' (''value did not match pattern '' @ pattern)])"

definition validate_format ::
  "compiler \<Rightarrow> string \<Rightarrow> string \<Rightarrow> validation_location \<Rightarrow> string \<Rightarrow> errors" where
  "validate_format rx v format loc field =
     (if matches_format rx v format then []
      else [verr loc field ''format'' (''value '' @ quoted v @ '' is not a valid '' @ format)])"

definition float_eq :: "f64 \<Rightarrow> f64 \<Rightarrow> bool" where
  "float_eq a b =
     (let diff = f_abs (f_sub a b); scale = f_max (f_max (f_abs a) (f_abs b)) (Fin 1)
      in f_le diff (f_mul (f_mul f_epsilon scale) (Fin 64)))"

definition passes_strict_multiple_of_check :: "f64 \<Rightarrow> f64 \<Rightarrow> bool" where
  "passes_strict_multiple_of_check v multiple_of =
     (let remainder = f_rem_one (f_div v multiple_of)
      in f_lt (f_abs remainder) f_epsilon
         \<or> f_lt (f_abs (f_sub (Fin 1) (f_abs remainder))) f_epsilon)"

fun has_duplicate_json_values :: "json list \<Rightarrow> bool" where
  "has_duplicate_json_values [] = False"
| "has_duplicate_json_values (x # xs) = (list_ex (\<lambda>y. x = y) xs \<or> has_duplicate_json_values xs)"

section \<open>The typed arms\<close>

definition validate_string ::
  "compiler \<Rightarrow> string_type \<Rightarrow> json \<Rightarrow> validation_location \<Rightarrow> string \<Rightarrow> errors" where
  "validate_string rx st v loc field =
     (case as_str v of
        None \<Rightarrow> [type_error loc field ''string'']
      | Some s \<Rightarrow>
          if st_enumeration st \<noteq> [] \<and> \<not> list_ex (\<lambda>opt. opt = Some s) (st_enumeration st) then
            [verr loc field ''enum'' (''value '' @ quoted s @ '' not in enum'')]
          else
            (case st_min_length st of
               Some mn \<Rightarrow>
                 if chars_count s < mn then
                   [verr loc field ''minLength'' (''length below minLength '' @ show_nat mn)] else []
             | None \<Rightarrow> [])
            @ (case st_max_length st of
                 Some mx \<Rightarrow>
                   if mx < chars_count s then
                     [verr loc field ''maxLength'' (''length above maxLength '' @ show_nat mx)] else []
               | None \<Rightarrow> [])
            @ (case st_pattern st of Some pat \<Rightarrow> check_pattern rx s pat loc field | None \<Rightarrow> [])
            @ (case string_type_format (st_format st) of
                 Some fmt \<Rightarrow> validate_format rx s fmt loc field
               | None \<Rightarrow> []))"

definition int_minimum_errors :: "integer_type \<Rightarrow> int \<Rightarrow> validation_location \<Rightarrow> string \<Rightarrow> errors" where
  "int_minimum_errors it n loc field =
     (case it_minimum it of
        Some mn \<Rightarrow>
          if (if it_exclusive_minimum it then mn < n else mn \<le> n) then []
          else [verr loc field (if it_exclusive_minimum it then ''exclusiveMinimum'' else ''minimum'')
                  (''value '' @ show_int n @ '' below minimum '' @ show_int mn)]
      | None \<Rightarrow> [])"

definition int_maximum_errors :: "integer_type \<Rightarrow> int \<Rightarrow> validation_location \<Rightarrow> string \<Rightarrow> errors" where
  "int_maximum_errors it n loc field =
     (case it_maximum it of
        Some mx \<Rightarrow>
          if (if it_exclusive_maximum it then n < mx else n \<le> mx) then []
          else [verr loc field (if it_exclusive_maximum it then ''exclusiveMaximum'' else ''maximum'')
                  (''value '' @ show_int n @ '' above maximum '' @ show_int mx)]
      | None \<Rightarrow> [])"

definition int_multiple_errors ::
  "integer_type \<Rightarrow> int \<Rightarrow> validation_location \<Rightarrow> string \<Rightarrow> errors run" where
  "int_multiple_errors it n loc field =
     (case it_multiple_of it of
        Some multiple \<Rightarrow>
          if multiple = 0 then Done []
          else run_map (\<lambda>r. if r = 0 then []
                            else [verr loc field ''multipleOf''
                                    (''value '' @ show_int n @ '' is not a multiple of '' @ show_int multiple)])
                 (rem_i64 n multiple)
      | None \<Rightarrow> Done [])"

definition i32_min :: int where "i32_min = - (2 ^ 31)"
definition i32_max :: int where "i32_max = 2 ^ 31 - 1"

definition validate_integer ::
  "integer_type \<Rightarrow> json \<Rightarrow> validation_location \<Rightarrow> string \<Rightarrow> errors run" where
  "validate_integer it v loc field =
     (case as_i64 v of
        None \<Rightarrow> Done [type_error loc field ''integer'']
      | Some n \<Rightarrow>
          if it_format it = VItem IF_Int32 \<and> \<not> (i32_min \<le> n \<and> n \<le> i32_max) then
            Done [verr loc field ''format''
                    (''value '' @ show_int n @ '' is outside the int32 range ['' @ show_int i32_min @ '', ''
                     @ show_int i32_max @ '']'')]
          else if it_enumeration it \<noteq> [] \<and> \<not> list_ex (\<lambda>opt. opt = Some n) (it_enumeration it) then
            Done [verr loc field ''enum'' (''value '' @ show_int n @ '' not in enum'')]
          else
            run_map (\<lambda>es. int_minimum_errors it n loc field @ int_maximum_errors it n loc field @ es)
              (int_multiple_errors it n loc field))"

definition num_bound_errors :: "number_type \<Rightarrow> f64 \<Rightarrow> validation_location \<Rightarrow> string \<Rightarrow> errors" where
  "num_bound_errors nt n loc field =
     (case nt_minimum nt of
        Some mn \<Rightarrow>
          if (if nt_exclusive_minimum nt then f_lt mn n else f_le mn n) then []
          else [verr loc field (if nt_exclusive_minimum nt then ''exclusiveMinimum'' else ''minimum'')
                  (''value '' @ show_f64 n @ '' below minimum '' @ show_f64 mn)]
      | None \<Rightarrow> [])
     @ (case nt_maximum nt of
          Some mx \<Rightarrow>
            if (if nt_exclusive_maximum nt then f_lt n mx else f_le n mx) then []
            else [verr loc field (if nt_exclusive_maximum nt then ''exclusiveMaximum'' else ''maximum'')
                    (''value '' @ show_f64 n @ '' above maximum '' @ show_f64 mx)]
        | None \<Rightarrow> [])"

definition validate_number ::
  "number_type \<Rightarrow> json \<Rightarrow> validation_location \<Rightarrow> string \<Rightarrow> errors" where
  "validate_number nt v loc field =
     (case as_f64 v of
        None \<Rightarrow> [type_error loc field ''number'']
      | Some n \<Rightarrow>
          if nt_enumeration nt \<noteq> []
             \<and> \<not> list_ex (\<lambda>opt. case opt of Some x \<Rightarrow> float_eq x n | None \<Rightarrow> False) (nt_enumeration nt) then
            [verr loc field ''enum'' (''value '' @ show_f64 n @ '' not in enum'')]
          else
            num_bound_errors nt n loc field
            @ (case nt_multiple_of nt of
                 Some multiple \<Rightarrow>
                   if \<not> f_eq multiple (Fin 0) \<and> \<not> passes_strict_multiple_of_check n multiple then
                     [verr loc field ''multipleOf''
                        (''value '' @ show_f64 n @ '' is not a multiple of '' @ show_f64 multiple)]
                   else []
               | None \<Rightarrow> []))"

definition validate_boolean ::
  "boolean_type \<Rightarrow> json \<Rightarrow> validation_location \<Rightarrow> string \<Rightarrow> errors" where
  "validate_boolean bt v loc field =
     (case as_bool v of
        None \<Rightarrow> [type_error loc field ''boolean'']
      | Some b \<Rightarrow>
          if bt_enumeration bt \<noteq> [] \<and> \<not> list_ex (\<lambda>opt. opt = Some b) (bt_enumeration bt) then
            [verr loc field ''enum'' (''value '' @ (if b then ''true'' else ''false'') @ '' not in enum'')]
          else [])"

definition sub_field :: "string \<Rightarrow> string \<Rightarrow> string" where
  "sub_field field key = field @ ''.'' @ key"

definition index_field :: "string \<Rightarrow> nat \<Rightarrow> string" where
  "index_field field idx = field @ ''['' @ show_nat idx @ '']''"

definition required_errors :: "string list \<Rightarrow> obj \<Rightarrow> validation_location \<Rightarrow> string \<Rightarrow> errors" where
  "required_errors required m loc field =
     concat (map (\<lambda>r. if contains_key m r then []
                      else [verr loc (sub_field field r) ''required'' ''missing required property'']) required)"

definition property_runs ::
  "validator \<Rightarrow> openapi \<Rightarrow> (string \<times> schema ref_or) list \<Rightarrow> obj \<Rightarrow> validation_location \<Rightarrow> string \<Rightarrow> errors run list" where
  "property_runs rec spec properties m loc field =
     map (\<lambda>(key, prop_ref).
            case map_of m key of
              None \<Rightarrow> Done []
            | Some child \<Rightarrow>
                (case resolve_boxed_schema spec prop_ref of
                   None \<Rightarrow> Done []
                 | Some prop_schema \<Rightarrow> rec prop_schema child loc (sub_field field key))) properties"

definition additional_runs ::
  "validator \<Rightarrow> openapi \<Rightarrow> object_type \<Rightarrow> obj \<Rightarrow> validation_location \<Rightarrow> string \<Rightarrow> errors run list" where
  "additional_runs rec spec ot m loc field =
     (case ot_additional ot of
        Some (AP_Schema ap) \<Rightarrow>
          (case resolve_schema spec ap of
             None \<Rightarrow> []
           | Some extra_schema \<Rightarrow>
               map (\<lambda>(key, child).
                      if contains_key (ot_properties ot) key then Done []
                      else rec extra_schema child loc (sub_field field key)) m)
      | _ \<Rightarrow> [])"

definition forbidden_errors :: "object_type \<Rightarrow> obj \<Rightarrow> validation_location \<Rightarrow> string \<Rightarrow> errors" where
  "forbidden_errors ot m loc field =
     (if ot_additional ot = Some (AP_Any False) then
        concat (map (\<lambda>(key, child).
          if contains_key (ot_properties ot) key then []
          else [verr loc (sub_field field key) ''additionalProperties'' ''additional property is not allowed'']) m)
      else [])"

definition validate_object ::
  "validator \<Rightarrow> openapi \<Rightarrow> object_type \<Rightarrow> json \<Rightarrow> validation_location \<Rightarrow> string \<Rightarrow> errors run" where
  "validate_object rec spec ot v loc field =
     (case as_object v of
        None \<Rightarrow> Done [type_error loc field ''object'']
      | Some m \<Rightarrow>
          run_concat
            (Done (required_errors (ot_required ot) m loc field)
             # property_runs rec spec (ot_properties ot) m loc field
             @ additional_runs rec spec ot m loc field
             @ [Done (forbidden_errors ot m loc field)]))"

definition validate_array ::
  "validator \<Rightarrow> openapi \<Rightarrow> array_type \<Rightarrow> json \<Rightarrow> validation_location \<Rightarrow> string \<Rightarrow> errors run" where
  "validate_array rec spec aty v loc field =
     (case as_array v of
        None \<Rightarrow> Done [type_error loc field ''array'']
      | Some arr \<Rightarrow>
          run_concat
            (Done (case at_min_items aty of
                     Some mn \<Rightarrow>
                       if length arr < mn then
                         [verr loc field ''minItems'' (''array length below minItems '' @ show_nat mn)] else []
                   | None \<Rightarrow> [])
             # Done (case at_max_items aty of
                       Some mx \<Rightarrow>
                         if mx < length arr then
                           [verr loc field ''maxItems'' (''array length above maxItems '' @ show_nat mx)] else []
                     | None \<Rightarrow> [])
             # (case at_items aty of
                  None \<Rightarrow> []
                | Some item_ref \<Rightarrow>
                    (case resolve_boxed_schema spec item_ref of
                       None \<Rightarrow> []
                     | Some item_schema \<Rightarrow>
                         map (\<lambda>(idx, child). rec item_schema child loc (index_field field idx))
                           (enumerate 0 arr)))
             @ [Done (if at_unique_items aty \<and> has_duplicate_json_values arr then
                        [verr loc field ''uniqueItems'' ''array items are not unique''] else [])]))"

section \<open>The compositions\<close>

text \<open>\<open>validate_value_silently(..).is_empty()\<close>.\<close>

definition matches_silently :: "validator \<Rightarrow> json \<Rightarrow> schema \<Rightarrow> bool run" where
  "matches_silently rec v s = run_map (\<lambda>es. es = []) (rec s v LBody ''_'')"

definition resolve_discriminated_branch ::
  "openapi \<Rightarrow> schema ref_or list \<Rightarrow> discriminator \<Rightarrow> json \<Rightarrow> schema option" where
  "resolve_discriminated_branch spec branches disc v =
     (case Option.bind (as_object v) (\<lambda>m. Option.bind (map_of m (property_name disc)) as_str) of
        None \<Rightarrow> None
      | Some key \<Rightarrow>
          (case find (\<lambda>branch. case branch of
                        Item _ \<Rightarrow> False
                      | Reference reference \<Rightarrow>
                          map_of (mapping disc) key = Some reference
                          \<or> (case strip_prefix reference ''#/components/schemas/'' of
                               Some name \<Rightarrow> eq_ignore_ascii_case name key
                             | None \<Rightarrow> False)) branches of
             Some branch \<Rightarrow> resolve_schema spec branch
           | None \<Rightarrow> None))"

definition one_of_errors :: "nat \<Rightarrow> nat \<Rightarrow> validation_location \<Rightarrow> string \<Rightarrow> errors" where
  "one_of_errors match_count branches loc field =
     (if match_count \<noteq> 1 then
        [verr loc field ''oneOf''
           (''value matches '' @ show_nat match_count @ '' of '' @ show_nat branches
            @ '' oneOf branches (must match exactly 1)'')]
      else [])"

definition validate_one_of ::
  "validator \<Rightarrow> openapi \<Rightarrow> schema_data \<Rightarrow> schema ref_or list \<Rightarrow> json \<Rightarrow> validation_location \<Rightarrow> string \<Rightarrow> errors run" where
  "validate_one_of rec spec sd one_of v loc field =
     (case Option.bind (sd_discriminator sd) (\<lambda>disc. resolve_discriminated_branch spec one_of disc v) of
        Some branch \<Rightarrow> rec branch v loc field
      | None \<Rightarrow>
          (let resolved = List.map_filter (resolve_schema spec) one_of
           in run_map (\<lambda>match_count. one_of_errors match_count (length resolved) loc field)
                (run_count (map (matches_silently rec v) resolved))))"

definition validate_any_of ::
  "validator \<Rightarrow> openapi \<Rightarrow> schema ref_or list \<Rightarrow> json \<Rightarrow> validation_location \<Rightarrow> string \<Rightarrow> errors run" where
  "validate_any_of rec spec any_of v loc field =
     run_map (\<lambda>any_match.
                if any_match then [] else [verr loc field ''anyOf'' ''value did not match any anyOf branch''])
       (run_any (map (matches_silently rec v) (List.map_filter (resolve_schema spec) any_of)))"

definition declared_properties :: "schema \<Rightarrow> string list" where
  "declared_properties sub =
     (case schema_kind sub of
        KObject ot \<Rightarrow> map fst (ot_properties ot)
      | KAny any \<Rightarrow> map fst (any_properties any)
      | _ \<Rightarrow> [])"

definition collect_allof_declared_properties :: "openapi \<Rightarrow> schema ref_or list \<Rightarrow> string list" where
  "collect_allof_declared_properties spec branches =
     concat (map declared_properties (List.map_filter (resolve_schema spec) branches))"

definition excused :: "string list \<Rightarrow> validation_error \<Rightarrow> bool" where
  "excused declared err \<longleftrightarrow>
     ve_code err = ''additionalProperties'' \<and> last (split_on (CHR ''.'') (ve_field err)) \<in> set declared"

definition validate_allof_branch ::
  "validator \<Rightarrow> schema \<Rightarrow> json \<Rightarrow> validation_location \<Rightarrow> string \<Rightarrow> string list \<Rightarrow> errors run" where
  "validate_allof_branch rec s v loc field declared =
     (let suppresses_additional = (case schema_kind s of KObject _ \<Rightarrow> True | KAny _ \<Rightarrow> True | _ \<Rightarrow> False)
      in if \<not> suppresses_additional then rec s v loc field
         else run_map (filter (\<lambda>err. \<not> excused declared err)) (rec s v loc field))"

definition validate_all_of ::
  "validator \<Rightarrow> openapi \<Rightarrow> schema ref_or list \<Rightarrow> json \<Rightarrow> validation_location \<Rightarrow> string \<Rightarrow> errors run" where
  "validate_all_of rec spec all_of v loc field =
     (let declared = collect_allof_declared_properties spec all_of
      in run_concat (map (\<lambda>sub. validate_allof_branch rec sub v loc field declared)
           (List.map_filter (resolve_schema spec) all_of)))"

definition validate_not ::
  "validator \<Rightarrow> openapi \<Rightarrow> schema ref_or \<Rightarrow> json \<Rightarrow> validation_location \<Rightarrow> string \<Rightarrow> errors run" where
  "validate_not rec spec not_ref v loc field =
     (case resolve_schema spec not_ref of
        None \<Rightarrow> Done []
      | Some sub \<Rightarrow>
          run_map (\<lambda>matched.
                     if matched then
                       [verr loc field ''not'' ''value matched a schema it was required not to match'']
                     else [])
            (matches_silently rec v sub))"

definition any_type_ok :: "string \<Rightarrow> json \<Rightarrow> bool" where
  "any_type_ok typ v =
     (if typ = ''string'' then as_str v \<noteq> None
      else if typ = ''integer'' then as_i64 v \<noteq> None
      else if typ = ''number'' then is_number v
      else if typ = ''boolean'' then as_bool v \<noteq> None
      else if typ = ''object'' then as_object v \<noteq> None
      else if typ = ''array'' then as_array v \<noteq> None
      else True)"

definition any_leaf_errors ::
  "compiler \<Rightarrow> any_schema \<Rightarrow> json \<Rightarrow> validation_location \<Rightarrow> string \<Rightarrow> errors" where
  "any_leaf_errors rx any v loc field =
     (if any_enumeration any \<noteq> [] \<and> \<not> list_ex (\<lambda>e. e = v) (any_enumeration any) then
        [verr loc field ''enum'' ''value not in enum'']
      else [])
     @ (case (as_str v, any_pattern any) of
          (Some s, Some pat) \<Rightarrow> check_pattern rx s pat loc field
        | _ \<Rightarrow> [])
     @ (case (as_str v, any_format any) of
          (Some s, Some fmt) \<Rightarrow> validate_format rx s fmt loc field
        | _ \<Rightarrow> [])"

definition validate_any_schema ::
  "compiler \<Rightarrow> validator \<Rightarrow> openapi \<Rightarrow> any_schema \<Rightarrow> json \<Rightarrow> validation_location \<Rightarrow> string \<Rightarrow> errors run" where
  "validate_any_schema rx rec spec any v loc field =
     (let mismatch = (case any_typ any of Some typ \<Rightarrow> \<not> any_type_ok typ v | None \<Rightarrow> False)
      in if mismatch then Done [type_error loc field (unwrap_or (any_typ any) [])]
         else
           run_concat
             (Done (any_leaf_errors rx any v loc field)
              # (case any_not any of
                   Some not_ref \<Rightarrow> validate_not rec spec not_ref v loc field
                 | None \<Rightarrow> Done [])
              # (case as_object v of
                   Some m \<Rightarrow>
                     Done (required_errors (any_required any) m loc field)
                     # property_runs rec spec (any_properties any) m loc field
                 | None \<Rightarrow> [])))"

section \<open>The validator\<close>

definition validate_step :: "compiler \<Rightarrow> openapi \<Rightarrow> validator \<Rightarrow> validator" where
  "validate_step rx spec rec s v loc field =
     (if v = JNull \<and> sd_nullable (schema_data s) then Done []
      else
        case schema_kind s of
          KString st \<Rightarrow> Done (validate_string rx st v loc field)
        | KInteger it \<Rightarrow> validate_integer it v loc field
        | KNumber nt \<Rightarrow> Done (validate_number nt v loc field)
        | KBoolean bt \<Rightarrow> Done (validate_boolean bt v loc field)
        | KObject ot \<Rightarrow> validate_object rec spec ot v loc field
        | KArray aty \<Rightarrow> validate_array rec spec aty v loc field
        | KOneOf one_of \<Rightarrow> validate_one_of rec spec (schema_data s) one_of v loc field
        | KAnyOf any_of \<Rightarrow> validate_any_of rec spec any_of v loc field
        | KAllOf all_of \<Rightarrow> validate_all_of rec spec all_of v loc field
        | KNot not_ref \<Rightarrow> validate_not rec spec not_ref v loc field
        | KAny any \<Rightarrow> validate_any_schema rx rec spec any v loc field)"

primrec validate_value :: "compiler \<Rightarrow> openapi \<Rightarrow> nat \<Rightarrow> validator" where
  "validate_value rx spec 0 = (\<lambda>s v loc field. Fuel)"
| "validate_value rx spec (Suc n) = validate_step rx spec (validate_value rx spec n)"

end
