(* ===== verification/ValidationFacts.thy ===== *)
theory ValidationFacts
  imports Validation
begin

text \<open>
  What the schema validator guarantees: its outcome is stable in the budget, it returns whenever the
  schemas composed on one value are well-founded, its errors do not depend on where the value sits,
  and what it accepts is characterised keyword by keyword.
\<close>

section \<open>More fuel never changes an outcome\<close>

definition vle :: "validator \<Rightarrow> validator \<Rightarrow> bool" where
  "vle r r' \<longleftrightarrow> (\<forall>s v loc f. run_le (r s v loc f) (r' s v loc f))"

lemma vleD [simp]: "vle r r' \<Longrightarrow> run_le (r s v loc f) (r' s v loc f)"
  by (simp add: vle_def)

lemma list_all2_map_le: "(\<And>x. run_le (f x) (g x)) \<Longrightarrow> list_all2 run_le (map f xs) (map g xs)"
  by (simp add: list_all2_conv_all_nth)

lemma list_all2_refl_le [simp]: "list_all2 run_le rs rs"
  by (simp add: list_all2_conv_all_nth)

lemma matches_silently_le: "vle r r' \<Longrightarrow> run_le (matches_silently r v s) (matches_silently r' v s)"
  by (simp add: matches_silently_def run_le_map)

lemma property_runs_le:
  "vle r r' \<Longrightarrow> list_all2 run_le (property_runs r spec ps m loc f) (property_runs r' spec ps m loc f)"
  unfolding property_runs_def by (intro list_all2_map_le) (auto split: option.splits)

lemma additional_runs_le:
  "vle r r' \<Longrightarrow> list_all2 run_le (additional_runs r spec ot m loc f) (additional_runs r' spec ot m loc f)"
  unfolding additional_runs_def
  by (auto split: option.splits additional.splits intro!: list_all2_map_le)

lemma validate_object_le:
  "vle r r' \<Longrightarrow> run_le (validate_object r spec ot v loc f) (validate_object r' spec ot v loc f)"
  unfolding validate_object_def
  by (auto split: option.split intro!: run_le_concat list_all2_appendI property_runs_le additional_runs_le
      simp del: run_concat.simps)

lemma validate_array_le:
  "vle r r' \<Longrightarrow> run_le (validate_array r spec aty v loc f) (validate_array r' spec aty v loc f)"
  unfolding validate_array_def
  by (auto split: option.split intro!: run_le_concat list_all2_appendI list_all2_map_le
      simp del: run_concat.simps)

lemma validate_not_le:
  "vle r r' \<Longrightarrow> run_le (validate_not r spec n v loc f) (validate_not r' spec n v loc f)"
  unfolding validate_not_def by (auto split: option.split intro!: run_le_map matches_silently_le)

lemma validate_any_schema_le:
  "vle r r' \<Longrightarrow> run_le (validate_any_schema rx r spec a v loc f) (validate_any_schema rx r' spec a v loc f)"
  unfolding validate_any_schema_def Let_def
  by (auto split: option.split intro!: run_le_concat property_runs_le validate_not_le
      simp del: run_concat.simps)

lemma validate_all_of_le:
  "vle r r' \<Longrightarrow> run_le (validate_all_of r spec xs v loc f) (validate_all_of r' spec xs v loc f)"
  unfolding validate_all_of_def validate_allof_branch_def Let_def
  by (intro run_le_concat list_all2_map_le) (auto intro!: run_le_map)

lemma validate_any_of_le:
  "vle r r' \<Longrightarrow> run_le (validate_any_of r spec xs v loc f) (validate_any_of r' spec xs v loc f)"
  unfolding validate_any_of_def
  by (intro run_le_map run_le_any list_all2_map_le matches_silently_le)

lemma validate_one_of_le:
  "vle r r' \<Longrightarrow> run_le (validate_one_of r spec sd xs v loc f) (validate_one_of r' spec sd xs v loc f)"
  unfolding validate_one_of_def Let_def
  by (auto split: option.split intro!: run_le_map run_le_count list_all2_map_le matches_silently_le)

lemma validate_step_le: "vle r r' \<Longrightarrow> vle (validate_step rx spec r) (validate_step rx spec r')"
  unfolding vle_def [of "validate_step rx spec r"] validate_step_def
  by (auto split: schema_kind.split
      simp: validate_object_le validate_array_le validate_one_of_le validate_any_of_le validate_all_of_le
        validate_not_le validate_any_schema_le)

lemma validate_value_le: "n \<le> m \<Longrightarrow> vle (validate_value rx spec n) (validate_value rx spec m)"
proof (induction n arbitrary: m)
  case 0
  then show ?case by (simp add: vle_def)
next
  case (Suc n)
  then obtain k where "m = Suc k" "n \<le> k" by (cases m) auto
  with Suc.IH [of k] show ?case by (simp add: validate_step_le)
qed

lemma validate_value_stable:
  "validate_value rx spec n s v loc f = r \<Longrightarrow> r \<noteq> Fuel \<Longrightarrow> n \<le> m \<Longrightarrow> validate_value rx spec m s v loc f = r"
  using validate_value_le [of n m rx spec] unfolding vle_def run_le_def by metis

section \<open>Termination\<close>

text \<open>
  The schemas that a schema hands the same value to, and the calls on strictly smaller values.
\<close>

definition operand_refs :: "schema \<Rightarrow> schema ref_or list" where
  "operand_refs s =
     (case schema_kind s of
        KOneOf xs \<Rightarrow> xs
      | KAnyOf xs \<Rightarrow> xs
      | KAllOf xs \<Rightarrow> xs
      | KNot x \<Rightarrow> [x]
      | KAny a \<Rightarrow> (case any_not a of Some x \<Rightarrow> [x] | None \<Rightarrow> [])
      | _ \<Rightarrow> [])"

definition operands :: "openapi \<Rightarrow> schema \<Rightarrow> schema list" where
  "operands spec s = List.map_filter (resolve_schema spec) (operand_refs s)"

definition prop_children :: "openapi \<Rightarrow> (string \<times> schema ref_or) list \<Rightarrow> obj \<Rightarrow> (schema \<times> json) list" where
  "prop_children spec ps m =
     List.map_filter (\<lambda>(key, pr).
       Option.bind (map_of m key) (\<lambda>w. map_option (\<lambda>t. (t, w)) (resolve_boxed_schema spec pr))) ps"

definition extra_children :: "openapi \<Rightarrow> object_type \<Rightarrow> obj \<Rightarrow> (schema \<times> json) list" where
  "extra_children spec ot m =
     (case ot_additional ot of
        Some (AP_Schema ap) \<Rightarrow>
          (case resolve_schema spec ap of
             Some t \<Rightarrow> map (Pair t \<circ> snd) (filter (\<lambda>(k, _). \<not> contains_key (ot_properties ot) k) m)
           | None \<Rightarrow> [])
      | _ \<Rightarrow> [])"

definition children :: "openapi \<Rightarrow> schema \<Rightarrow> json \<Rightarrow> (schema \<times> json) list" where
  "children spec s v =
     (case (schema_kind s, v) of
        (KObject ot, JObj m) \<Rightarrow>
          prop_children spec (ot_properties ot) m @ extra_children spec ot m
      | (KArray aty, JArr xs) \<Rightarrow>
          (case Option.bind (at_items aty) (resolve_boxed_schema spec) of
             Some t \<Rightarrow> map (Pair t) xs
           | None \<Rightarrow> [])
      | (KAny a, JObj m) \<Rightarrow> prop_children spec (any_properties a) m
      | _ \<Rightarrow> [])"

definition total_on :: "validator \<Rightarrow> (schema \<times> json) list \<Rightarrow> bool" where
  "total_on r ps \<longleftrightarrow> (\<forall>t w. (t, w) \<in> set ps \<longrightarrow> (\<forall>loc f. r t w loc f \<noteq> Fuel))"

lemma total_on_append [simp]: "total_on r (ps @ qs) \<longleftrightarrow> total_on r ps \<and> total_on r qs"
  by (auto simp: total_on_def)

lemma total_onD: "total_on r ps \<Longrightarrow> (t, w) \<in> set ps \<Longrightarrow> r t w loc f \<noteq> Fuel"
  by (simp add: total_on_def)

lemma map_filter_member: "t \<in> set (List.map_filter g xs) \<longleftrightarrow> (\<exists>x \<in> set xs. g x = Some t)"
  by (auto simp: List.map_filter_def image_iff)

lemma size_lookup: "map_of m k = Some w \<Longrightarrow> size w < size (JObj m)"
proof -
  assume "map_of m k = Some w"
  then have "(k, w) \<in> set m" by (rule map_of_SomeD)
  then have "size_prod (\<lambda>x. 0) size (k, w) < size (JObj m)" by (simp add: size_list_estimation less_Suc_eq_le size_list_estimation')
  then show ?thesis by simp
qed

lemma size_member: "w \<in> set xs \<Longrightarrow> size w < size (JArr xs)"
  by (simp add: less_Suc_eq_le size_list_estimation')

lemma size_entry: "(k, w) \<in> set m \<Longrightarrow> size w < size (JObj m)"
proof -
  assume "(k, w) \<in> set m"
  then have "size_prod (\<lambda>x. 0) size (k, w) < size (JObj m)" by (simp add: less_Suc_eq_le size_list_estimation')
  then show ?thesis by simp
qed

lemma enumerate_member: "(i, w) \<in> set (enumerate k xs) \<Longrightarrow> w \<in> set xs"
  by (auto simp: in_set_enumerate_eq)

lemma children_smaller: "(t, w) \<in> set (children spec s v) \<Longrightarrow> size w < size v"
proof -
  have "(t, w) \<in> set (prop_children spec ps m) \<Longrightarrow> size w < size (JObj m)" for ps m
    using size_lookup [of m] by (auto simp: prop_children_def map_filter_member bind_eq_Some_conv simp del: json.size)
  then show "(t, w) \<in> set (children spec s v) \<Longrightarrow> size w < size v"
    using size_member size_entry
    by (cases v; cases "schema_kind s")
       (auto simp: children_def extra_children_def simp del: json.size split: option.splits additional.splits)
qed

lemma property_runs_total:
  assumes "total_on r (prop_children spec ps m)"
  shows "Fuel \<notin> set (property_runs r spec ps m loc f)"
proof
  assume "Fuel \<in> set (property_runs r spec ps m loc f)"
  then obtain k pr w t where "(k, pr) \<in> set ps" "map_of m k = Some w" "resolve_boxed_schema spec pr = Some t"
    "r t w loc (sub_field f k) = Fuel"
    by (auto simp: run_simps property_runs_def split: option.splits)
  moreover from this have "(t, w) \<in> set (prop_children spec ps m)"
    by (auto simp: prop_children_def map_filter_member intro!: bexI [of _ "(k, pr)"])
  ultimately show False using assms by (auto simp: total_on_def)
qed

lemma additional_runs_total:
  assumes "schema_kind s = KObject ot" and "total_on r (children spec s (JObj m))"
  shows "Fuel \<notin> set (additional_runs r spec ot m loc f)"
proof
  assume "Fuel \<in> set (additional_runs r spec ot m loc f)"
  then obtain ap x k w where e: "ot_additional ot = Some (AP_Schema ap)" "resolve_schema spec ap = Some x"
    "(k, w) \<in> set m" "\<not> contains_key (ot_properties ot) k" "r x w loc (sub_field f k) = Fuel"
    by (auto simp: run_simps additional_runs_def split: option.splits additional.splits if_splits) metis
  then have "(x, w) \<in> set (children spec s (JObj m))"
    using assms(1) by (auto simp: children_def extra_children_def image_iff intro!: bexI [of _ "(k, w)"])
  with assms(2) e(5) show False using total_onD by fast
qed

lemma validate_object_total:
  assumes "schema_kind s = KObject ot" and "total_on r (children spec s v)"
  shows "validate_object r spec ot v loc f \<noteq> Fuel"
proof (cases v)
  case (JObj m)
  with assms have "total_on r (prop_children spec (ot_properties ot) m)" by (simp add: children_def)
  with JObj assms property_runs_total additional_runs_total show ?thesis
    by (auto simp: validate_object_def as_object_def simp del: run_concat.simps intro!: run_concat_not_Fuel)
qed (simp_all add: validate_object_def as_object_def)

lemma validate_array_total:
  assumes "schema_kind s = KArray aty" and "total_on r (children spec s v)"
  shows "validate_array r spec aty v loc f \<noteq> Fuel"
proof (cases v)
  case (JArr xs)
  have "resolve_boxed_schema spec it = Some t \<Longrightarrow> at_items aty = Some it \<Longrightarrow> x \<in> set xs \<Longrightarrow> r t x loc g \<noteq> Fuel"
    for it t x g using assms JArr by (auto simp: children_def total_on_def)
  with JArr show ?thesis
    by (auto simp: run_simps validate_array_def as_array_def simp del: run_concat.simps
        intro!: run_concat_not_Fuel dest!: enumerate_member split: option.split)
qed (simp_all add: validate_array_def as_array_def)

lemma discriminated_operand:
  "resolve_discriminated_branch spec xs disc v = Some b \<Longrightarrow> b \<in> set (List.map_filter (resolve_schema spec) xs)"
  by (auto simp: resolve_discriminated_branch_def map_filter_member dest!: find_SomeD split: option.splits)

lemma validate_one_of_total:
  assumes "\<And>t loc f. t \<in> set (List.map_filter (resolve_schema spec) xs) \<Longrightarrow> r t v loc f \<noteq> Fuel"
  shows "validate_one_of r spec sd xs v loc f \<noteq> Fuel"
  unfolding validate_one_of_def Let_def using assms
  by (auto split: option.split intro!: run_map_not_Fuel run_count_not_Fuel
      dest: discriminated_operand simp: bind_eq_Some_conv matches_silently_def run_simps)

lemma validate_any_of_total:
  assumes "\<And>t loc f. t \<in> set (List.map_filter (resolve_schema spec) xs) \<Longrightarrow> r t v loc f \<noteq> Fuel"
  shows "validate_any_of r spec xs v loc f \<noteq> Fuel"
  unfolding validate_any_of_def using assms
  by (intro run_map_not_Fuel run_any_not_Fuel) (auto simp: matches_silently_def run_simps)

lemma validate_all_of_total:
  assumes "\<And>t loc f. t \<in> set (List.map_filter (resolve_schema spec) xs) \<Longrightarrow> r t v loc f \<noteq> Fuel"
  shows "validate_all_of r spec xs v loc f \<noteq> Fuel"
  unfolding validate_all_of_def Let_def validate_allof_branch_def using assms
  by (intro run_concat_not_Fuel) (auto simp: run_simps split: if_splits)

lemma validate_not_total:
  assumes "\<And>t loc f. resolve_schema spec x = Some t \<Longrightarrow> r t v loc f \<noteq> Fuel"
  shows "validate_not r spec x v loc f \<noteq> Fuel"
  unfolding validate_not_def using assms
  by (auto split: option.split simp: matches_silently_def run_simps)

lemma validate_any_schema_total:
  assumes "schema_kind s = KAny a" and "total_on r (children spec s v)"
    and "\<And>x t loc f. any_not a = Some x \<Longrightarrow> resolve_schema spec x = Some t \<Longrightarrow> r t v loc f \<noteq> Fuel"
  shows "validate_any_schema rx r spec a v loc f \<noteq> Fuel"
proof -
  have "any_not a = Some x \<Longrightarrow> validate_not r spec x v loc f \<noteq> Fuel" for x
    using assms(3) by (rule validate_not_total)
  moreover have "v = JObj m \<Longrightarrow> Fuel \<notin> set (property_runs r spec (any_properties a) m loc f)" for m
    using property_runs_total assms(1,2) by (simp add: children_def)
  ultimately show ?thesis
    unfolding validate_any_schema_def Let_def
    by (cases v) (auto simp: as_object_def simp del: run_concat.simps split: option.split
        intro!: run_concat_not_Fuel)
qed

lemma validate_step_total:
  assumes small: "total_on r (children spec s v)"
    and same: "\<And>t loc f. t \<in> set (operands spec s) \<Longrightarrow> r t v loc f \<noteq> Fuel"
  shows "validate_step rx spec r s v loc f \<noteq> Fuel"
proof (cases "schema_kind s")
  case (KInteger it)
  then show ?thesis
    by (auto simp: validate_step_def validate_integer_def int_multiple_errors_def rem_i64_def
        split: option.splits)
next
  case (KAny a)
  with same have "validate_any_schema rx r spec a v loc f \<noteq> Fuel"
    by (intro validate_any_schema_total [of s] small) (auto simp: operands_def operand_refs_def map_filter_member)
  with KAny show ?thesis by (simp add: validate_step_def)
next
  case (KNot x)
  with same have "validate_not r spec x v loc f \<noteq> Fuel"
    by (intro validate_not_total) (auto simp: operands_def operand_refs_def map_filter_member)
  with KNot show ?thesis by (simp add: validate_step_def)
next
  case (KOneOf xs)
  with same have "validate_one_of r spec (schema_data s) xs v loc f \<noteq> Fuel"
    by (intro validate_one_of_total) (simp add: operands_def operand_refs_def)
  with KOneOf show ?thesis by (simp add: validate_step_def)
next
  case (KAnyOf xs)
  with same have "validate_any_of r spec xs v loc f \<noteq> Fuel"
    by (intro validate_any_of_total) (simp add: operands_def operand_refs_def)
  with KAnyOf show ?thesis by (simp add: validate_step_def)
next
  case (KAllOf xs)
  with same have "validate_all_of r spec xs v loc f \<noteq> Fuel"
    by (intro validate_all_of_total) (simp add: operands_def operand_refs_def)
  with KAllOf show ?thesis by (simp add: validate_step_def)
next
  case (KObject ot)
  with validate_object_total [OF KObject small] show ?thesis by (simp add: validate_step_def)
next
  case (KArray aty)
  with validate_array_total [OF KArray small] show ?thesis by (simp add: validate_step_def)
qed (simp_all add: validate_step_def)

text \<open>Enough fuel for finitely many calls.\<close>

definition returns :: "compiler \<Rightarrow> openapi \<Rightarrow> schema \<Rightarrow> json \<Rightarrow> bool" where
  "returns rx spec s v \<longleftrightarrow> (\<exists>n. \<forall>loc f. validate_value rx spec n s v loc f \<noteq> Fuel)"

lemma returns_stable:
  "validate_value rx spec n s v loc f \<noteq> Fuel \<Longrightarrow> n \<le> m \<Longrightarrow> validate_value rx spec m s v loc f \<noteq> Fuel"
  using validate_value_stable by metis

lemma returns_upto:
  "(\<And>t w. (t, w) \<in> set ps \<Longrightarrow> returns rx spec t w) \<Longrightarrow> \<exists>n. total_on (validate_value rx spec n) ps"
proof (induction ps)
  case (Cons p ps)
  obtain t w where p: "p = (t, w)" by (cases p)
  with Cons.prems obtain n where n: "\<And>loc f. validate_value rx spec n t w loc f \<noteq> Fuel"
    by (fastforce simp: returns_def)
  from Cons obtain m where m: "total_on (validate_value rx spec m) ps" by fastforce
  have "total_on (validate_value rx spec (max n m)) (p # ps)"
    unfolding total_on_def
  proof clarify
    fix t' w' loc f
    assume tw: "(t', w') \<in> set (p # ps)" and F: "validate_value rx spec (max n m) t' w' loc f = Fuel"
    from tw n m have "validate_value rx spec n t' w' loc f \<noteq> Fuel \<or> validate_value rx spec m t' w' loc f \<noteq> Fuel"
      by (auto simp: p total_on_def)
    with F show False using returns_stable [of rx spec _ t' w' loc f "max n m"] by fastforce
  qed
  then show ?case by blast
qed (simp add: total_on_def)

lemma returns_step:
  assumes "\<And>t w. (t, w) \<in> set (children spec s v) \<Longrightarrow> returns rx spec t w"
    and "\<And>t. t \<in> set (operands spec s) \<Longrightarrow> returns rx spec t v"
  shows "returns rx spec s v"
proof -
  obtain n where n: "total_on (validate_value rx spec n) (children spec s v @ map (\<lambda>t. (t, v)) (operands spec s))"
    using returns_upto [of "children spec s v @ map (\<lambda>t. (t, v)) (operands spec s)" rx spec] assms by auto
  then have "validate_value rx spec (Suc n) s v loc f \<noteq> Fuel" for loc f
    by (simp only: validate_value.simps)
       (rule validate_step_total, auto simp: total_on_def image_iff)
  then show ?thesis unfolding returns_def by blast
qed

text \<open>
  The validator returns. When no schema is, through \<open>oneOf\<close>/\<open>anyOf\<close>/\<open>allOf\<close>/\<open>not\<close> and references,
  composed of itself on the same value, there is a budget from which on every validation of the value
  ends, whatever the schema's recursion through properties and items.
\<close>

theorem validate_value_returns:
  assumes "wfp (\<lambda>t s. t \<in> set (operands spec s))"
  shows "\<exists>n. \<forall>m \<ge> n. \<forall>loc f. validate_value rx spec m s v loc f \<noteq> Fuel"
proof -
  have "returns rx spec s v" for s
  proof (induction v arbitrary: s rule: measure_induct_rule [of size])
    case (less v)
    note smaller = less
    show ?case using assms
    proof (induction s rule: wfp_induct_rule)
      case (less t)
      show ?case by (rule returns_step) (use smaller less children_smaller in blast)+
    qed
  qed
  then show ?thesis using returns_stable unfolding returns_def by metis
qed

definition no_regex :: compiler where
  "no_regex p = None"

definition plain_data :: schema_data where
  "plain_data = \<lparr>sd_nullable = False, sd_discriminator = None, sd_example = None\<rparr>"

definition plain_integer :: integer_type where
  "plain_integer = \<lparr>it_format = VEmpty, it_multiple_of = None, it_exclusive_minimum = False,
     it_exclusive_maximum = False, it_minimum = None, it_maximum = None, it_enumeration = []\<rparr>"

definition plain_string :: string_type where
  "plain_string = \<lparr>st_format = VEmpty, st_pattern = None, st_enumeration = [], st_min_length = None,
     st_max_length = None\<rparr>"

definition schemas_only :: "schema ref_or str_map \<Rightarrow> openapi" where
  "schemas_only schemas =
     \<lparr>spec_openapi = ''3.0.3'', spec_title = ''t'', spec_version = ''1'', spec_paths = [],
      spec_components = Some \<lparr>c_schemas = schemas, c_responses = [], c_parameters = [], c_examples = [],
        c_request_bodies = [], c_headers = [], c_security_schemes = []\<rparr>,
      spec_security = None, spec_servers = [], spec_extensions = []\<rparr>"

text \<open>A tree of nodes: recursive through \<open>children\<close>, composed with a string by \<open>allOf\<close>.\<close>

definition node_ref :: "schema ref_or" where
  "node_ref = Reference ''#/components/schemas/Node''"

definition node_schema :: schema where
  "node_schema = Schema plain_data (KObject (Object_Type
     [(''children'', Item (Schema plain_data (KArray (Array_Type (Some node_ref) None None False)))),
      (''name'', Item (Schema plain_data (KAllOf [Item (Schema plain_data (KString plain_string))])))]
     [''name''] None))"

definition tree_spec :: openapi where
  "tree_spec = schemas_only [(''Node'', Item node_schema)]"

lemma inline_smaller: "Item t \<in> set xs \<Longrightarrow> size t < Suc (size_list (size_ref_or size) xs)"
  using size_list_estimation' [of "Item t" xs "size t" "size_ref_or size"] by (simp add: less_Suc_eq_le)

lemma operand_ref_smaller: "Item t \<in> set (operand_refs s) \<Longrightarrow> size t < size s"
proof (cases s)
  case (Schema d k)
  then show "Item t \<in> set (operand_refs s) \<Longrightarrow> size t < size s"
  proof (cases k)
    case (KAny a)
    with Schema show "Item t \<in> set (operand_refs s) \<Longrightarrow> size t < size s"
      by (cases a) (auto simp: operand_refs_def split: option.splits)
  qed (use inline_smaller [of t] Schema in \<open>auto simp: operand_refs_def dest: less_SucI\<close>)
qed

lemma operand_cases:
  assumes "t \<in> set (operands spec s)"
  shows "size t < size s \<or> (\<exists>r. Reference r \<in> set (operand_refs s) \<and> resolve_schema spec (Reference r) = Some t)"
proof -
  from assms obtain x where x: "x \<in> set (operand_refs s)" "resolve_schema spec x = Some t"
    by (auto simp: operands_def map_filter_member)
  show ?thesis
  proof (cases x)
    case (Item u)
    with x have "u = t" by (simp add: rs.resolve_item)
    with x Item operand_ref_smaller show ?thesis by blast
  qed (use x in blast)
qed

lemma tree_spec_wf: "wfp (\<lambda>t s. t \<in> set (operands tree_spec s))"
proof (rule wfp_if_convertible_to_nat [where f = "\<lambda>s. if s = node_schema then 0 else Suc (size s)"])
  fix t s assume op: "t \<in> set (operands tree_spec s)"
  then have "s \<noteq> node_schema" by (auto simp: operands_def operand_refs_def node_schema_def)
  moreover have "resolve_schema tree_spec (Reference r) = Some t \<Longrightarrow> t = node_schema" for r
    using rs.resolve_SomeD [of tree_spec "Reference r" t]
    by (auto simp: tree_spec_def schemas_only_def split: if_splits)
  ultimately show "(if t = node_schema then 0 else Suc (size t)) < (if s = node_schema then 0 else Suc (size s))"
    using operand_cases [OF op] by auto
qed

theorem validate_value_returns_witness:
  "\<exists>n. \<forall>m \<ge> n. \<forall>loc f. validate_value no_regex tree_spec m node_schema (JObj [(''name'', JStr ''a'')]) loc f \<noteq> Fuel"
  by (rule validate_value_returns [OF tree_spec_wf])

text \<open>
  C39: Without that condition the validator does not return: a schema whose \<open>allOf\<close> leads back to itself
  exhausts every budget on every value that is not an accepted null, so a request for it recurses
  until the stack overflows.
\<close>

theorem self_referential_all_of_diverges:
  assumes "schema_kind s = KAllOf (x # xs)" and "resolve_schema spec x = Some s"
    and "v = JNull \<Longrightarrow> \<not> sd_nullable (schema_data s)"
  shows "validate_value rx spec n s v loc f = Fuel"
proof (induction n)
  case (Suc n)
  with assms show ?case
    by (auto simp: validate_step_def validate_all_of_def validate_allof_branch_def map_filter_simps)
qed simp

definition loop_schema :: schema where
  "loop_schema = Schema plain_data (KAllOf [node_ref])"

theorem self_referential_all_of_diverges_witness:
  "\<forall>n. validate_value no_regex (schemas_only [(''Node'', Item loop_schema)]) n loop_schema (JStr ''x'') LBody ''body'' = Fuel"
proof
  fix n
  have "resolve_schema (schemas_only [(''Node'', Item loop_schema)]) node_ref = Some loop_schema" by code_simp
  then show "validate_value no_regex (schemas_only [(''Node'', Item loop_schema)]) n loop_schema (JStr ''x'') LBody ''body'' = Fuel"
    by (intro self_referential_all_of_diverges [where x = node_ref and xs = "[]"]) (simp_all add: loop_schema_def)
qed

text \<open>
  An integer schema with \<open>multipleOf: -1\<close> and no other constraint makes the validator panic on
  the least 64-bit integer, and on no other integer value.
\<close>

theorem integer_multiple_of_panic:
  "validate_value rx spec (Suc n)
     (Schema plain_data (KInteger (plain_integer\<lparr>it_multiple_of := Some (-1)\<rparr>))) (JNum (JInt i)) loc f = Panic
   \<longleftrightarrow> i = i64_min"
proof -
  have "run_map g m = Panic \<longleftrightarrow> m = Panic" for g :: "int \<Rightarrow> errors" and m by (cases m) auto
  moreover have "run_map g m = Panic \<longleftrightarrow> m = Panic" for g :: "errors \<Rightarrow> errors" and m by (cases m) auto
  moreover have "in_i64 i64_min" by (simp add: in_i64_def i64_min_def i64_max_def)
  ultimately show ?thesis
    by (auto simp: validate_step_def validate_integer_def int_multiple_errors_def as_i64_def plain_data_def
        plain_integer_def rem_i64_def split: if_splits)
qed

section \<open>Errors do not depend on where the value sits\<close>

text \<open>An error relative to the field of the value: the path below it, the code and the message.\<close>

type_synonym template = "string \<times> string \<times> string"

definition instantiate :: "validation_location \<Rightarrow> string \<Rightarrow> template \<Rightarrow> validation_error" where
  "instantiate loc f t = (case t of (w, c, m) \<Rightarrow> verr loc (f @ w) c m)"

definition template_ok :: "template \<Rightarrow> bool" where
  "template_ok t = (case t of (w, c, m) \<Rightarrow> c = ''additionalProperties'' \<longrightarrow> CHR ''.'' \<in> set w)"

definition uniform_list :: "(validation_location \<Rightarrow> string \<Rightarrow> errors) \<Rightarrow> bool" where
  "uniform_list g \<longleftrightarrow> (\<exists>ts. list_all template_ok ts \<and> (\<forall>loc f. g loc f = map (instantiate loc f) ts))"

definition uniform :: "(validation_location \<Rightarrow> string \<Rightarrow> errors run) \<Rightarrow> bool" where
  "uniform g \<longleftrightarrow>
     (\<exists>ts. list_all template_ok ts \<and> (\<forall>loc f. g loc f = Done (map (instantiate loc f) ts)))
     \<or> (\<forall>loc f. g loc f = Panic) \<or> (\<forall>loc f. g loc f = Fuel)"

lemma uniform_list_Nil: "uniform_list (\<lambda>loc f. [])"
  unfolding uniform_list_def by (rule exI [of _ "[]"]) simp

lemma uniform_list_here: "c \<noteq> ''additionalProperties'' \<Longrightarrow> uniform_list (\<lambda>loc f. [verr loc f c m])"
  unfolding uniform_list_def
  by (rule exI [of _ "[([], c, m)]"]) (simp add: instantiate_def template_ok_def)

lemma uniform_list_below: "uniform_list (\<lambda>loc f. [verr loc (sub_field f k) c m])"
  unfolding uniform_list_def
  by (rule exI [of _ "[(''.'' @ k, c, m)]"]) (simp add: instantiate_def template_ok_def sub_field_def)

lemma uniform_list_append:
  "uniform_list g \<Longrightarrow> uniform_list h \<Longrightarrow> uniform_list (\<lambda>loc f. g loc f @ h loc f)"
  unfolding uniform_list_def by (metis list_all_append map_append)

lemma uniform_list_if:
  "uniform_list g \<Longrightarrow> uniform_list h \<Longrightarrow> uniform_list (\<lambda>loc f. if b then g loc f else h loc f)"
  by (cases b) simp_all

lemma uniform_list_option:
  "uniform_list g \<Longrightarrow> (\<And>x. o' = Some x \<Longrightarrow> uniform_list (h x))
   \<Longrightarrow> uniform_list (\<lambda>loc f. case o' of None \<Rightarrow> g loc f | Some x \<Rightarrow> h x loc f)"
  by (cases o') simp_all

lemma uniform_list_concat:
  "(\<And>x. x \<in> set xs \<Longrightarrow> uniform_list (g x)) \<Longrightarrow> uniform_list (\<lambda>loc f. concat (map (\<lambda>x. g x loc f) xs))"
  by (induction xs) (simp_all add: uniform_list_Nil uniform_list_append)

lemma uniform_list_type: "uniform_list (\<lambda>loc f. [type_error loc f e])"
  unfolding type_error_def by (rule uniform_list_here) simp

lemma uniform_list_pattern: "uniform_list (check_pattern rx s p)"
  unfolding check_pattern_def
  by (intro uniform_list_option uniform_list_if uniform_list_Nil uniform_list_here) simp

lemma uniform_list_format: "uniform_list (validate_format rx s p)"
  unfolding validate_format_def by (intro uniform_list_if uniform_list_Nil uniform_list_here) simp

lemmas uniform_list_intros = uniform_list_Nil uniform_list_here uniform_list_below uniform_list_append
  uniform_list_if uniform_list_option uniform_list_type uniform_list_pattern uniform_list_format

lemma uniform_Done: "uniform_list g \<Longrightarrow> uniform (\<lambda>loc f. Done (g loc f))"
  unfolding uniform_def uniform_list_def by simp

lemma uniform_if: "uniform g \<Longrightarrow> uniform h \<Longrightarrow> uniform (\<lambda>loc f. if b then g loc f else h loc f)"
  by (cases b) simp_all

lemma uniform_option:
  "uniform g \<Longrightarrow> (\<And>x. o' = Some x \<Longrightarrow> uniform (h x))
   \<Longrightarrow> uniform (\<lambda>loc f. case o' of None \<Rightarrow> g loc f | Some x \<Rightarrow> h x loc f)"
  by (cases o') simp_all

lemma uniform_map_list: "uniform_list g \<Longrightarrow> uniform h \<Longrightarrow>
  uniform (\<lambda>loc f. run_map (\<lambda>es. g loc f @ es) (h loc f))"
proof -
  assume g: "uniform_list g" and h: "uniform h"
  from g obtain ts where ts: "list_all template_ok ts" "\<And>loc f. g loc f = map (instantiate loc f) ts"
    by (auto simp: uniform_list_def)
  from h consider us where "list_all template_ok us" "\<And>loc f. h loc f = Done (map (instantiate loc f) us)"
    | "\<And>loc f. h loc f = Panic" | "\<And>loc f. h loc f = Fuel" by (auto simp: uniform_def)
  then show ?thesis
  proof cases
    case 1
    with ts show ?thesis unfolding uniform_def by (intro disjI1 exI [of _ "ts @ us"]) simp
  qed (simp_all add: uniform_def)
qed

lemma uniform_concat:
  "(\<And>g. g \<in> set gs \<Longrightarrow> uniform g) \<Longrightarrow> uniform (\<lambda>loc f. run_concat (map (\<lambda>g. g loc f) gs))"
proof (induction gs)
  case Nil
  then show ?case by (simp add: uniform_Done uniform_list_Nil)
next
  case (Cons g gs)
  then have rest: "uniform (\<lambda>loc f. run_concat (map (\<lambda>g. g loc f) gs))" by simp
  from Cons.prems [of g] consider us where "list_all template_ok us"
    "\<And>loc f. g loc f = Done (map (instantiate loc f) us)"
    | "\<And>loc f. g loc f = Panic" | "\<And>loc f. g loc f = Fuel" by (auto simp: uniform_def)
  then show ?case
  proof cases
    case 1
    then have "uniform_list (\<lambda>loc f. map (instantiate loc f) us)" by (auto simp: uniform_list_def)
    from uniform_map_list [OF this rest] 1 show ?thesis by simp
  qed (simp_all add: uniform_def)
qed

lemma uniform_shift: "uniform g \<Longrightarrow> uniform (\<lambda>loc f. g loc (f @ w))"
proof -
  assume "uniform g"
  then consider us where "list_all template_ok us"
    "\<And>loc f. g loc f = Done (map (instantiate loc f) us)"
    | "\<And>loc f. g loc f = Panic" | "\<And>loc f. g loc f = Fuel" by (auto simp: uniform_def)
  then show ?thesis
  proof cases
    case 1
    then show ?thesis unfolding uniform_def
      by (intro disjI1 exI [of _ "map (\<lambda>(v, c, m). (w @ v, c, m)) us"])
         (auto simp: instantiate_def template_ok_def list_all_iff comp_def split: prod.splits)
  qed (simp_all add: uniform_def)
qed

lemma uniform_map_const:
  assumes "\<And>x. uniform_list (g x)"
  shows "uniform (\<lambda>loc f. run_map (\<lambda>x. g x loc f) r)"
  using assms by (cases r) (simp_all add: uniform_Done, simp_all add: uniform_def)

lemma last_split_suffix:
  "CHR ''.'' \<in> set w \<Longrightarrow> last (split_on (CHR ''.'') (f @ w)) = last (split_on (CHR ''.'') w)"
proof (induction f)
  case (Cons x f)
  have ne: "split_on (CHR ''.'') (f @ w) = p # ps \<Longrightarrow> ps \<noteq> []" for p ps
    using Cons.prems length_split_on [of "CHR ''.''" "f @ w"] count_list_0_iff [of "f @ w" "CHR ''.''"]
    by (cases ps) auto
  with Cons show ?case by (auto split: list.split)
qed simp

lemma uniform_filter:
  assumes "uniform g"
  shows "uniform (\<lambda>loc f. run_map (filter (\<lambda>e. \<not> excused declared e)) (g loc f))"
proof -
  from assms consider us where "list_all template_ok us"
    "\<And>loc f. g loc f = Done (map (instantiate loc f) us)"
    | "\<And>loc f. g loc f = Panic" | "\<And>loc f. g loc f = Fuel" by (auto simp: uniform_def)
  then show ?thesis
  proof cases
    case 1
    define keep where "keep = (\<lambda>(w, c, m :: string).
      \<not> (c = ''additionalProperties'' \<and> last (split_on (CHR ''.'') w) \<in> set declared))"
    have keep: "template_ok t \<Longrightarrow> (\<not> excused declared (instantiate loc f t)) = keep t" for loc f t
      using last_split_suffix by (auto simp: excused_def instantiate_def template_ok_def keep_def split: prod.splits)
    have "filter (\<lambda>e. \<not> excused declared e) (map (instantiate loc f) us) = map (instantiate loc f) (filter keep us)" for loc f
      using 1(1) keep unfolding filter_map comp_def list_all_iff
      by (intro arg_cong [where f = "map (instantiate loc f)"] filter_cong) blast+
    with 1 show ?thesis unfolding uniform_def
      by (intro disjI1 exI [of _ "filter keep us"]) (auto simp: list_all_iff)
  qed (simp_all add: uniform_def)
qed

lemma uniform_list_string: "uniform_list (validate_string rx st v)"
  unfolding validate_string_def
  by (intro uniform_list_intros) simp_all

lemma uniform_integer: "uniform (validate_integer it v)"
proof -
  have "uniform (int_multiple_errors it n)" for n
    unfolding int_multiple_errors_def
    by (intro uniform_option uniform_if uniform_Done uniform_map_const uniform_list_intros) simp_all
  moreover have "uniform_list (\<lambda>loc f. int_minimum_errors it n loc f @ int_maximum_errors it n loc f)" for n
    unfolding int_minimum_errors_def int_maximum_errors_def
    by (intro uniform_list_intros) simp_all
  ultimately have "uniform (\<lambda>loc f. run_map (\<lambda>es. int_minimum_errors it n loc f @ int_maximum_errors it n loc f @ es)
      (int_multiple_errors it n loc f))" for n
    using uniform_map_list [of "\<lambda>loc f. int_minimum_errors it n loc f @ int_maximum_errors it n loc f"
        "int_multiple_errors it n"] by (simp add: append_assoc)
  then show ?thesis
    unfolding validate_integer_def
    by (intro uniform_option uniform_if uniform_Done uniform_list_intros) simp_all
qed

lemma uniform_list_number: "uniform_list (validate_number nt v)"
  unfolding validate_number_def num_bound_errors_def
  by (intro uniform_list_intros) simp_all

lemma uniform_list_boolean: "uniform_list (validate_boolean bt v)"
  unfolding validate_boolean_def
  by (intro uniform_list_intros) simp_all

lemma uniform_list_required: "uniform_list (required_errors rs m)"
  unfolding required_errors_def by (intro uniform_list_concat uniform_list_intros)

lemma uniform_list_forbidden: "uniform_list (forbidden_errors ot m)"
  unfolding forbidden_errors_def
  by (intro uniform_list_if uniform_list_concat uniform_list_Nil) (auto intro!: uniform_list_intros)


definition uniform_validator :: "validator \<Rightarrow> bool" where
  "uniform_validator r \<longleftrightarrow> (\<forall>s v. uniform (r s v))"

lemma uniform_call: "uniform_validator r \<Longrightarrow> uniform (\<lambda>loc f. r s v loc f)"
  by (simp add: uniform_validator_def)

lemma uniform_below: "uniform_validator r \<Longrightarrow> uniform (\<lambda>loc f. r s v loc (sub_field f k))"
  unfolding sub_field_def by (rule uniform_shift) (rule uniform_call)

lemma uniform_index: "uniform_validator r \<Longrightarrow> uniform (\<lambda>loc f. r s v loc (index_field f i))"
  unfolding index_field_def by (rule uniform_shift) (rule uniform_call)

lemma uniform_Done_Nil: "uniform (\<lambda>loc f. Done [])"
  by (intro uniform_Done uniform_list_Nil)

text \<open>A sequence of calls given as a list that depends on the place only through its elements.\<close>

definition uniform_seq :: "(validation_location \<Rightarrow> string \<Rightarrow> errors run list) \<Rightarrow> bool" where
  "uniform_seq h \<longleftrightarrow> (\<exists>gs. (\<forall>g \<in> set gs. uniform g) \<and> (\<forall>loc f. h loc f = map (\<lambda>g. g loc f) gs))"

lemma uniform_seq_concat: "uniform_seq h \<Longrightarrow> uniform (\<lambda>loc f. run_concat (h loc f))"
  unfolding uniform_seq_def using uniform_concat by fastforce

lemma uniform_seq_Nil: "uniform_seq (\<lambda>loc f. [])"
  unfolding uniform_seq_def by (rule exI [of _ "[]"]) simp

lemma uniform_seq_Cons: "uniform g \<Longrightarrow> uniform_seq h \<Longrightarrow> uniform_seq (\<lambda>loc f. g loc f # h loc f)"
  unfolding uniform_seq_def by (elim exE conjE, rule_tac x = "g # gs" in exI) simp

lemma uniform_seq_append:
  "uniform_seq g \<Longrightarrow> uniform_seq h \<Longrightarrow> uniform_seq (\<lambda>loc f. g loc f @ h loc f)"
  unfolding uniform_seq_def by (elim exE conjE, rule_tac x = "gs @ gsa" in exI) auto

lemma uniform_seq_map:
  "(\<And>x. x \<in> set xs \<Longrightarrow> uniform (g x)) \<Longrightarrow> uniform_seq (\<lambda>loc f. map (\<lambda>x. g x loc f) xs)"
  unfolding uniform_seq_def by (intro exI [of _ "map g xs"]) (simp add: comp_def)

lemma uniform_seq_option:
  "uniform_seq g \<Longrightarrow> (\<And>x. o' = Some x \<Longrightarrow> uniform_seq (h x))
   \<Longrightarrow> uniform_seq (\<lambda>loc f. case o' of None \<Rightarrow> g loc f | Some x \<Rightarrow> h x loc f)"
  by (cases o') simp_all

lemmas uniform_intros = uniform_option uniform_if uniform_Done uniform_Done_Nil uniform_below uniform_index
  uniform_call uniform_seq_concat uniform_seq_Nil uniform_seq_Cons uniform_seq_append uniform_seq_option

lemma uniform_properties: "uniform_validator r \<Longrightarrow> uniform_seq (property_runs r spec ps m)"
  unfolding property_runs_def
proof (rule uniform_seq_map, clarify)
  fix k pr
  assume "uniform_validator r"
  then show "uniform (\<lambda>loc f. case map_of m k of None \<Rightarrow> Done [] | Some child \<Rightarrow>
      (case resolve_boxed_schema spec pr of None \<Rightarrow> Done [] | Some t \<Rightarrow> r t child loc (sub_field f k)))"
    by (intro uniform_intros)
qed

lemma uniform_additional: "uniform_validator r \<Longrightarrow> uniform_seq (additional_runs r spec ot m)"
proof -
  assume r: "uniform_validator r"
  have extra: "uniform_seq (\<lambda>loc f. map (\<lambda>(k, c). if contains_key (ot_properties ot) k then Done []
      else r t c loc (sub_field f k)) m)" for t
  proof (rule uniform_seq_map, clarify)
    fix k c
    from r show "uniform (\<lambda>loc f. if contains_key (ot_properties ot) k then Done [] else r t c loc (sub_field f k))"
      by (intro uniform_intros)
  qed
  show ?thesis
    unfolding additional_runs_def
    by (rule uniform_seq_option [OF uniform_seq_Nil], rename_tac ap, case_tac ap)
       (simp_all add: uniform_seq_Nil uniform_seq_option extra)
qed

lemma uniform_items:
  "uniform_validator r \<Longrightarrow> uniform_seq (\<lambda>loc f. map (\<lambda>(i, c). r t c loc (index_field f i)) xs)"
  by (rule uniform_seq_map) (auto intro: uniform_index split: prod.split)

lemma uniform_object: "uniform_validator r \<Longrightarrow> uniform (validate_object r spec ot v)"
  unfolding validate_object_def
  by (intro uniform_intros uniform_properties uniform_additional uniform_list_required
      uniform_list_forbidden uniform_list_type)

lemma uniform_array: "uniform_validator r \<Longrightarrow> uniform (validate_array r spec aty v)"
  unfolding validate_array_def
  by (intro uniform_option uniform_seq_concat uniform_seq_Cons uniform_seq_append uniform_seq_option
      uniform_items uniform_seq_Nil uniform_Done uniform_list_intros) simp_all

lemma uniform_not: "uniform (validate_not r spec x v)"
  unfolding validate_not_def
  by (intro uniform_intros uniform_map_const uniform_list_intros) simp

lemma uniform_any_of: "uniform (validate_any_of r spec xs v)"
  unfolding validate_any_of_def by (intro uniform_map_const uniform_list_intros) simp

lemma uniform_one_of: "uniform_validator r \<Longrightarrow> uniform (validate_one_of r spec sd xs v)"
  unfolding validate_one_of_def Let_def one_of_errors_def
  by (intro uniform_intros uniform_map_const uniform_list_intros) simp_all

lemma uniform_all_of: "uniform_validator r \<Longrightarrow> uniform (validate_all_of r spec xs v)"
  unfolding validate_all_of_def validate_allof_branch_def Let_def
  by (intro uniform_seq_concat uniform_seq_map uniform_if uniform_filter uniform_call)

lemma uniform_any: "uniform_validator r \<Longrightarrow> uniform (validate_any_schema rx r spec a v)"
proof -
  assume r: "uniform_validator r"
  have "uniform_list (any_leaf_errors rx a v)"
    unfolding any_leaf_errors_def
    by (cases "as_str v"; cases "any_pattern a"; cases "any_format a")
       (auto intro!: uniform_list_intros)
  with r show ?thesis
    unfolding validate_any_schema_def Let_def
    by (intro uniform_intros uniform_list_intros uniform_not uniform_properties uniform_list_required)
qed

lemma uniform_step: "uniform_validator r \<Longrightarrow> uniform (validate_step rx spec r s v)"
  unfolding validate_step_def
  by (cases "schema_kind s")
     (auto intro!: uniform_if uniform_Done_Nil uniform_Done uniform_list_string uniform_integer
        uniform_list_number uniform_list_boolean uniform_object uniform_array uniform_one_of uniform_any_of
        uniform_all_of uniform_not uniform_any)

lemma uniform_validate_value: "uniform (validate_value rx spec n s v)"
proof (induction n arbitrary: s v)
  case 0
  then show ?case by (simp add: uniform_def)
next
  case (Suc n)
  then show ?case by (simp add: uniform_step uniform_validator_def)
qed

text \<open>
  C2: The verdict on a value does not depend on where it occurs. A validation has one list of relative
  findings (path below the value, code, message); validated at any location and under any field name
  it reports exactly these, each at that location, below that field and with severity \<open>Error\<close>.
\<close>

theorem validation_place_independent:
  "(\<exists>ts. \<forall>loc f. validate_value rx spec n s v loc f =
       Done (map (\<lambda>(below, code, message). verr loc (f @ below) code message) ts))
   \<or> (\<forall>loc f. validate_value rx spec n s v loc f = Panic)
   \<or> (\<forall>loc f. validate_value rx spec n s v loc f = Fuel)"
  using uniform_validate_value [of rx spec n s v]
  unfolding uniform_def instantiate_def [abs_def] by blast

section \<open>What the validator accepts\<close>

text \<open>\<open>accepts rx spec s v\<close>: with enough fuel, validating \<open>v\<close> reports nothing.\<close>

definition passes :: "compiler \<Rightarrow> openapi \<Rightarrow> nat \<Rightarrow> schema \<Rightarrow> json \<Rightarrow> bool" where
  "passes rx spec n s v \<longleftrightarrow> validate_value rx spec n s v LBody [] = Done []"

definition accepts :: "compiler \<Rightarrow> openapi \<Rightarrow> schema \<Rightarrow> json \<Rightarrow> bool" where
  "accepts rx spec s v \<longleftrightarrow> (\<exists>n. passes rx spec n s v)"

lemma passes_anywhere: "validate_value rx spec n s v loc f = Done [] \<longleftrightarrow> passes rx spec n s v"
  using uniform_validate_value [of rx spec n s v] unfolding uniform_def passes_def
  by (elim disjE exE conjE) simp_all

lemma passes_mono: "passes rx spec n s v \<Longrightarrow> n \<le> m \<Longrightarrow> passes rx spec m s v"
  unfolding passes_def by (rule validate_value_stable) simp_all

lemma passes_all:
  "(\<exists>n. \<forall>(t, w) \<in> set ps. passes rx spec n t w) \<longleftrightarrow> (\<forall>(t, w) \<in> set ps. accepts rx spec t w)"
proof
  assume "\<forall>(t, w) \<in> set ps. accepts rx spec t w"
  then show "\<exists>n. \<forall>(t, w) \<in> set ps. passes rx spec n t w"
  proof (induction ps)
    case (Cons p ps)
    obtain t w where p: "p = (t, w)" by (cases p)
    from Cons p obtain n k where nk: "passes rx spec n t w" "\<forall>(t, w) \<in> set ps. passes rx spec k t w"
      by (auto simp: accepts_def)
    then have "\<forall>(t, w) \<in> set (p # ps). passes rx spec (max n k) t w"
      using passes_mono [of rx spec _ _ _ "max n k"] by (fastforce simp: p)
    then show ?case by blast
  qed simp
qed (auto simp: accepts_def)

lemma accepts_step:
  "accepts rx spec s v \<longleftrightarrow> (\<exists>n. validate_step rx spec (validate_value rx spec n) s v LBody [] = Done [])"
  unfolding accepts_def passes_def
proof
  assume "\<exists>n. validate_value rx spec n s v LBody [] = Done []"
  then obtain n where n: "validate_value rx spec n s v LBody [] = Done []" by blast
  then obtain k where "n = Suc k" by (cases n) simp_all
  with n show "\<exists>n. validate_step rx spec (validate_value rx spec n) s v LBody [] = Done []" by auto
next
  assume "\<exists>n. validate_step rx spec (validate_value rx spec n) s v LBody [] = Done []"
  then obtain n where "validate_value rx spec (Suc n) s v LBody [] = Done []" by auto
  then show "\<exists>n. validate_value rx spec n s v LBody [] = Done []" by blast
qed

lemma run_concat_Nil_iff: "run_concat rs = Done [] \<longleftrightarrow> (\<forall>r \<in> set rs. r = Done [])"
  by (induction rs) auto

lemma property_runs_pass:
  "(\<forall>x \<in> set (property_runs (validate_value rx spec n) spec ps m loc f). x = Done [])
   \<longleftrightarrow> (\<forall>(t, w) \<in> set (prop_children spec ps m). passes rx spec n t w)"
  unfolding property_runs_def prop_children_def
  by (induction ps) (auto simp: map_filter_simps passes_anywhere split: option.splits)

lemma additional_runs_pass:
  "(\<forall>x \<in> set (additional_runs (validate_value rx spec n) spec ot m loc f). x = Done [])
   \<longleftrightarrow> (\<forall>(t, w) \<in> set (extra_children spec ot m). passes rx spec n t w)"
proof -
  have "(\<forall>x \<in> set (map (\<lambda>(key, child). if contains_key ps key then Done []
        else validate_value rx spec n t child loc (sub_field f key)) m). x = Done [])
    \<longleftrightarrow> (\<forall>(t, w) \<in> set (map (Pair t \<circ> snd) (filter (\<lambda>(k, _). \<not> contains_key ps k) m)). passes rx spec n t w)"
    for t and ps :: "(string \<times> schema ref_or) list"
    by (induction m) (auto simp: passes_anywhere)
  note pass = this
  show ?thesis
    unfolding additional_runs_def extra_children_def
  proof (cases "ot_additional ot")
    case (Some ad)
    show "(\<forall>x \<in> set (case ot_additional ot of Some (AP_Schema ap) \<Rightarrow>
            (case resolve_schema spec ap of None \<Rightarrow> []
             | Some t \<Rightarrow> map (\<lambda>(key, child). if contains_key (ot_properties ot) key then Done []
                 else validate_value rx spec n t child loc (sub_field f key)) m) | _ \<Rightarrow> []). x = Done [])
      \<longleftrightarrow> (\<forall>(t, w) \<in> set (case ot_additional ot of Some (AP_Schema ap) \<Rightarrow>
            (case resolve_schema spec ap of
               Some t \<Rightarrow> map (Pair t \<circ> snd) (filter (\<lambda>(k, _). \<not> contains_key (ot_properties ot) k) m)
             | None \<Rightarrow> []) | _ \<Rightarrow> []). passes rx spec n t w)"
    proof (cases ad)
      case (AP_Schema ap)
      with Some show ?thesis by (cases "resolve_schema spec ap") (simp, simp only: option.case additional.case pass)
    qed (simp add: Some)
  qed simp
qed

lemma required_Nil: "required_errors rs m loc f = [] \<longleftrightarrow> (\<forall>r \<in> set rs. contains_key m r)"
  by (auto simp: required_errors_def)

lemma forbidden_Nil: "forbidden_errors ot m loc f = [] \<longleftrightarrow>
  (ot_additional ot = Some (AP_Any False) \<longrightarrow> (\<forall>k \<in> fst ` set m. contains_key (ot_properties ot) k))"
proof -
  have "concat (map (\<lambda>(key, child). if contains_key (ot_properties ot) key then []
      else [verr loc (sub_field f key) ''additionalProperties'' ''additional property is not allowed'']) m) = []
    \<longleftrightarrow> (\<forall>k \<in> fst ` set m. contains_key (ot_properties ot) k)"
    by (induction m) (auto split: if_splits)
  then show ?thesis by (simp add: forbidden_errors_def)
qed

lemma object_pass:
  assumes "schema_kind s = KObject ot"
  shows "validate_object (validate_value rx spec n) spec ot (JObj m) loc f = Done [] \<longleftrightarrow>
    (\<forall>r \<in> set (ot_required ot). contains_key m r)
    \<and> (\<forall>(t, w) \<in> set (children spec s (JObj m)). passes rx spec n t w)
    \<and> (ot_additional ot = Some (AP_Any False) \<longrightarrow> (\<forall>k \<in> fst ` set m. contains_key (ot_properties ot) k))"
proof -
  have "set (children spec s (JObj m)) = set (prop_children spec (ot_properties ot) m) \<union> set (extra_children spec ot m)"
    using assms by (simp add: children_def)
  moreover have "validate_object (validate_value rx spec n) spec ot (JObj m) loc f = Done [] \<longleftrightarrow>
    required_errors (ot_required ot) m loc f = []
    \<and> (\<forall>x \<in> set (property_runs (validate_value rx spec n) spec (ot_properties ot) m loc f). x = Done [])
    \<and> (\<forall>x \<in> set (additional_runs (validate_value rx spec n) spec ot m loc f). x = Done [])
    \<and> forbidden_errors ot m loc f = []"
    by (auto simp: validate_object_def as_object_def run_concat_Nil_iff simp del: run_concat.simps)
  ultimately show ?thesis
    by (simp add: property_runs_pass additional_runs_pass required_Nil forbidden_Nil ball_Un conj_assoc)
qed


text \<open>A value is decided when its validation returns normally.\<close>

definition decided :: "compiler \<Rightarrow> openapi \<Rightarrow> schema \<Rightarrow> json \<Rightarrow> bool" where
  "decided rx spec s v \<longleftrightarrow> (\<exists>n es. validate_value rx spec n s v LBody ''_'' = Done es)"

lemma decided_matches:
  assumes "\<And>t. t \<in> set ts \<Longrightarrow> decided rx spec t v"
  shows "\<exists>n. \<forall>m \<ge> n. \<forall>t \<in> set ts. matches_silently (validate_value rx spec m) v t = Done (accepts rx spec t v)"
  using assms
proof (induction ts)
  case (Cons t ts)
  obtain n es where n: "validate_value rx spec n t v LBody ''_'' = Done es"
    using Cons.prems [of t] by (auto simp: decided_def)
  have es: "es = [] \<longleftrightarrow> accepts rx spec t v"
  proof
    assume "es = []"
    with n show "accepts rx spec t v" using passes_anywhere accepts_def by blast
  next
    assume "accepts rx spec t v"
    then obtain k where "validate_value rx spec k t v LBody ''_'' = Done []"
      unfolding accepts_def using passes_anywhere by blast
    then have "validate_value rx spec (max n k) t v LBody ''_'' = Done []" by (rule validate_value_stable) simp_all
    moreover from n have "validate_value rx spec (max n k) t v LBody ''_'' = Done es" by (rule validate_value_stable) simp_all
    ultimately show "es = []" by simp
  qed
  have t: "matches_silently (validate_value rx spec m) v t = Done (accepts rx spec t v)" if "n \<le> m" for m
    using validate_value_stable [OF n _ that] es by (simp add: matches_silently_def)
  obtain k where "\<forall>m \<ge> k. \<forall>t \<in> set ts. matches_silently (validate_value rx spec m) v t = Done (accepts rx spec t v)"
    using Cons by auto
  with t show ?case by (intro exI [of _ "max n k"]) auto
qed simp

lemma run_count_Done: "run_count (map (\<lambda>t. Done (p t)) ts) = Done (length (filter p ts))"
  by (induction ts) auto

text \<open>
  C4: \<open>oneOf\<close> means exactly one. Without a discriminator that names a branch, a \<open>oneOf\<close> whose resolvable
  branches all decide the value accepts it exactly when one and only one of them accepts it.
\<close>

theorem accepts_one_of_iff:
  assumes "v = JNull \<Longrightarrow> \<not> sd_nullable sd"
    and "\<And>disc. sd_discriminator sd = Some disc \<Longrightarrow> resolve_discriminated_branch spec xs disc v = None"
    and "\<And>t. t \<in> set (List.map_filter (resolve_schema spec) xs) \<Longrightarrow> decided rx spec t v"
  shows "accepts rx spec (Schema sd (KOneOf xs)) v \<longleftrightarrow>
    length (filter (\<lambda>t. accepts rx spec t v) (List.map_filter (resolve_schema spec) xs)) = 1"
proof -
  let ?ts = "List.map_filter (resolve_schema spec) xs"
  obtain n where n: "\<And>m. n \<le> m \<Longrightarrow> \<forall>t \<in> set ?ts. matches_silently (validate_value rx spec m) v t = Done (accepts rx spec t v)"
    using decided_matches [of ?ts rx spec v] assms(3) by blast
  have disc: "Option.bind (sd_discriminator sd) (\<lambda>disc. resolve_discriminated_branch spec xs disc v) = None"
    using assms(2) by (cases "sd_discriminator sd") simp_all
  have step: "validate_value rx spec (Suc m) (Schema sd (KOneOf xs)) v LBody [] = Done []
      \<longleftrightarrow> length (filter (\<lambda>t. accepts rx spec t v) ?ts) = 1" if "n \<le> m" for m
  proof -
    have "map (matches_silently (validate_value rx spec m) v) ?ts = map (\<lambda>t. Done (accepts rx spec t v)) ?ts"
      using n [OF that] by simp
    then have "run_count (map (matches_silently (validate_value rx spec m) v) ?ts)
        = Done (length (filter (\<lambda>t. accepts rx spec t v) ?ts))"
      using run_count_Done by metis
    then show ?thesis
      using assms(1) disc by (auto simp: validate_step_def validate_one_of_def one_of_errors_def Let_def)
  qed
  show ?thesis
  proof
    assume "accepts rx spec (Schema sd (KOneOf xs)) v"
    then obtain k where "passes rx spec k (Schema sd (KOneOf xs)) v" by (auto simp: accepts_def)
    then have "passes rx spec (Suc (max n k)) (Schema sd (KOneOf xs)) v" by (rule passes_mono) simp
    then show "length (filter (\<lambda>t. accepts rx spec t v) ?ts) = 1" using step [of "max n k"] by (simp add: passes_def)
  next
    assume "length (filter (\<lambda>t. accepts rx spec t v) ?ts) = 1"
    then show "accepts rx spec (Schema sd (KOneOf xs)) v" using step [of n] unfolding accepts_def passes_def by blast
  qed
qed

lemma rem_i64_zero:
  "d \<noteq> 0 \<Longrightarrow> rem_i64 i d = Done 0 \<longleftrightarrow> d dvd i \<and> \<not> (i = - (2 ^ 63) \<and> d = -1)"
proof -
  assume d: "d \<noteq> 0"
  show ?thesis
  proof (cases "i = i64_min \<and> d = -1")
    case False
    with d have r: "rem_i64 i d = Done (sgn i * (\<bar>i\<bar> mod \<bar>d\<bar>))" by (auto simp: rem_i64_def)
    with rem_i64_zero_iff [OF r] False show ?thesis by (simp add: i64_min_def)
  qed (simp add: rem_i64_def i64_min_def)
qed

text \<open>
  C5: an integer schema accepts exactly the 64-bit integers that satisfy its keywords: the \<open>int32\<close>
  range, membership of a non-empty enumeration, the bounds with their exclusive variants, and
  divisibility by a non-zero \<open>multipleOf\<close>, the one overflowing remainder apart.
\<close>

theorem accepts_integer_iff:
  "accepts rx spec (Schema sd (KInteger it)) v \<longleftrightarrow>
     (sd_nullable sd \<and> v = JNull) \<or>
     (\<exists>i. v = JNum (JInt i) \<and> in_i64 i
       \<and> (it_format it = VItem IF_Int32 \<longrightarrow> - (2 ^ 31) \<le> i \<and> i < 2 ^ 31)
       \<and> (it_enumeration it \<noteq> [] \<longrightarrow> Some i \<in> set (it_enumeration it))
       \<and> (\<forall>b. it_minimum it = Some b \<longrightarrow> b \<le> i \<and> (it_exclusive_minimum it \<longrightarrow> b < i))
       \<and> (\<forall>b. it_maximum it = Some b \<longrightarrow> i \<le> b \<and> (it_exclusive_maximum it \<longrightarrow> i < b))
       \<and> (\<forall>d. it_multiple_of it = Some d \<and> d \<noteq> 0 \<longrightarrow> d dvd i \<and> \<not> (i = - (2 ^ 63) \<and> d = -1)))"
proof -
  have step: "validate_step rx spec r (Schema sd (KInteger it)) v LBody [] = Done [] \<longleftrightarrow>
    (sd_nullable sd \<and> v = JNull) \<or> (\<exists>i. as_i64 v = Some i \<and> validate_integer it v LBody [] = Done [])" for r
    by (auto simp: validate_step_def validate_integer_def split: option.split)
  have mult: "int_multiple_errors it i LBody [] = Done [] \<longleftrightarrow>
    (\<forall>d. it_multiple_of it = Some d \<and> d \<noteq> 0 \<longrightarrow> d dvd i \<and> \<not> (i = - (2 ^ 63) \<and> d = -1))" for i
    using rem_i64_zero
    by (cases "it_multiple_of it") (auto simp: int_multiple_errors_def)
  have mn: "int_minimum_errors it i LBody [] = [] \<longleftrightarrow>
    (\<forall>b. it_minimum it = Some b \<longrightarrow> b \<le> i \<and> (it_exclusive_minimum it \<longrightarrow> b < i))" for i
    by (auto simp: int_minimum_errors_def split: option.splits)
  have mx: "int_maximum_errors it i LBody [] = [] \<longleftrightarrow>
    (\<forall>b. it_maximum it = Some b \<longrightarrow> i \<le> b \<and> (it_exclusive_maximum it \<longrightarrow> i < b))" for i
    by (auto simp: int_maximum_errors_def split: option.splits)
  have enum: "list_ex (\<lambda>opt. opt = Some i) xs \<longleftrightarrow> Some i \<in> set xs" for i :: int and xs
    by (auto simp: list_ex_iff)
  have i64: "as_i64 v = Some i \<longleftrightarrow> v = JNum (JInt i) \<and> in_i64 i" for i
    by (auto simp: as_i64_def split: json.splits jnum.splits if_splits)
  have "as_i64 v = Some i \<Longrightarrow> validate_integer it v LBody [] = Done [] \<longleftrightarrow>
    (it_format it = VItem IF_Int32 \<longrightarrow> i32_min \<le> i \<and> i \<le> i32_max)
    \<and> (it_enumeration it \<noteq> [] \<longrightarrow> Some i \<in> set (it_enumeration it))
    \<and> int_minimum_errors it i LBody [] = [] \<and> int_maximum_errors it i LBody [] = []
    \<and> int_multiple_errors it i LBody [] = Done []" for i
    by (auto simp: validate_integer_def enum)
  moreover have "i \<le> i32_max \<longleftrightarrow> i < 2 ^ 31" "i32_min = - (2 ^ 31)" for i by (auto simp: i32_max_def i32_min_def)
  ultimately show ?thesis
    unfolding accepts_step step mn mx mult i64 by auto
qed

theorem accepts_integer_iff_witness:
  "accepts no_regex tree_spec (Schema plain_data (KInteger (plain_integer\<lparr>it_multiple_of := Some 3, it_maximum := Some 9\<rparr>)))
     (JNum (JInt 9))"
  by (simp add: accepts_integer_iff in_i64_def i64_min_def i64_max_def plain_integer_def)

definition int_or_string :: "schema ref_or list" where
  "int_or_string = [Item (Schema plain_data (KString plain_string)), Item (Schema plain_data (KInteger plain_integer))]"


theorem accepts_one_of_iff_witness:
  "accepts no_regex tree_spec (Schema plain_data (KOneOf int_or_string)) (JNum (JInt 3))"
proof -
  have ts: "List.map_filter (resolve_schema tree_spec) int_or_string
      = [Schema plain_data (KString plain_string), Schema plain_data (KInteger plain_integer)]"
    by (simp add: int_or_string_def map_filter_simps rs.resolve_item)
  have s: "validate_value no_regex tree_spec 1 (Schema plain_data (KString plain_string)) (JNum (JInt 3)) LBody ''_''
      = Done [type_error LBody ''_'' ''string'']"
    and i: "validate_value no_regex tree_spec 1 (Schema plain_data (KInteger plain_integer)) (JNum (JInt 3)) LBody ''_'' = Done []"
    by code_simp+
  have "accepts no_regex tree_spec (Schema plain_data (KInteger plain_integer)) (JNum (JInt 3))"
    using i passes_anywhere unfolding accepts_def by blast
  moreover have "\<not> accepts no_regex tree_spec (Schema plain_data (KString plain_string)) (JNum (JInt 3))"
    by (simp add: accepts_step validate_step_def validate_string_def as_str_def)
  moreover have "decided no_regex tree_spec (Schema plain_data (KString plain_string)) (JNum (JInt 3))"
    "decided no_regex tree_spec (Schema plain_data (KInteger plain_integer)) (JNum (JInt 3))"
    using s i unfolding decided_def by blast+
  moreover have "sd_discriminator plain_data = None" "\<not> sd_nullable plain_data" by (simp_all add: plain_data_def)
  ultimately have one: "length (filter (\<lambda>t. accepts no_regex tree_spec t (JNum (JInt 3)))
      (List.map_filter (resolve_schema tree_spec) int_or_string)) = 1"
    and dec: "\<And>t. t \<in> set (List.map_filter (resolve_schema tree_spec) int_or_string) \<Longrightarrow> decided no_regex tree_spec t (JNum (JInt 3))"
    and "sd_discriminator plain_data = None"
    unfolding ts by (simp_all only: filter.simps if_True if_False list.size, auto)
  then show ?thesis using accepts_one_of_iff [of "JNum (JInt 3)" plain_data tree_spec int_or_string no_regex] by simp
qed

end
