(* ===== verification/Params.thy ===== *)
theory Params
  imports ValidationFacts "HOL-Library.Sublist"
begin

text \<open>
  \<open>validation.rs\<close>: parameters and bodies of a request. \<open>vv\<close> is the schema validator
  (\<open>validate_value\<close> with its budget); every function returns the errors it pushes. A map of the
  request (query, headers, path parameters) is an association list in iteration order.
\<close>

section \<open>References and overriding\<close>

definition resolve_parameter :: "openapi \<Rightarrow> parameter ref_or \<Rightarrow> parameter option" where
  "resolve_parameter spec p =
     (case p of
        Item param \<Rightarrow> Some param
      | Reference reference \<Rightarrow>
          Option.bind (strip_prefix reference ''#/components/parameters/'') (\<lambda>name.
          Option.bind (spec_components spec) (\<lambda>c.
          Option.bind (map_of (c_parameters c) name) as_item)))"

definition resolve_request_body :: "openapi \<Rightarrow> request_body ref_or \<Rightarrow> request_body option" where
  "resolve_request_body spec rb =
     (case rb of
        Item b \<Rightarrow> Some b
      | Reference reference \<Rightarrow>
          Option.bind (strip_prefix reference ''#/components/requestBodies/'') (\<lambda>name.
          Option.bind (spec_components spec) (\<lambda>c.
          Option.bind (map_of (c_request_bodies c) name) as_item)))"

interpretation rp: one_hop resolve_parameter "''#/components/parameters/''" c_parameters
  by unfold_locales (simp_all add: resolve_parameter_def)

interpretation rrb: one_hop resolve_request_body "''#/components/requestBodies/''" c_request_bodies
  by unfold_locales (simp_all add: resolve_request_body_def)

definition path_item_parameters_for_template :: "openapi \<Rightarrow> string \<Rightarrow> parameter ref_or list option" where
  "path_item_parameters_for_template spec template =
     map_option pi_parameters (Option.bind (map_of (spec_paths spec) template) as_item)"

fun parameter_data_of :: "parameter \<Rightarrow> parameter_data" where
  "parameter_data_of (P_Path d _) = d"
| "parameter_data_of (P_Query d _) = d"
| "parameter_data_of (P_Header d) = d"
| "parameter_data_of (P_Cookie d) = d"

fun parameter_in :: "parameter \<Rightarrow> string" where
  "parameter_in (P_Path _ _) = ''path''"
| "parameter_in (P_Query _ _) = ''query''"
| "parameter_in (P_Header _) = ''header''"
| "parameter_in (P_Cookie _) = ''cookie''"

definition parameter_dedupe_key :: "parameter \<Rightarrow> string \<times> string" where
  "parameter_dedupe_key p = (pd_name (parameter_data_of p), parameter_in p)"

text \<open>The loop over the reversed list: a parameter whose key was seen is dropped.\<close>

fun dedupe_loop :: "parameter list \<Rightarrow> (string \<times> string) list \<Rightarrow> parameter list" where
  "dedupe_loop [] seen = []"
| "dedupe_loop (p # ps) seen =
     (if parameter_dedupe_key p \<in> set seen then dedupe_loop ps seen
      else p # dedupe_loop ps (parameter_dedupe_key p # seen))"

definition dedupe_parameters :: "parameter list \<Rightarrow> parameter list" where
  "dedupe_parameters ps = rev (dedupe_loop (rev ps) [])"

section \<open>Unsupported styles\<close>

text \<open>The process-wide set of pairs warned about; a warning is emitted when the pair is new.\<close>

type_synonym warned = "(string \<times> string) list"

definition record_unsupported_style :: "string \<Rightarrow> string \<Rightarrow> warned \<Rightarrow> bool \<times> warned" where
  "record_unsupported_style op_key param w =
     (if (op_key, param) \<in> set w then (False, w) else (True, (op_key, param) # w))"

definition operation_dedupe_key :: "operation \<Rightarrow> string" where
  "operation_dedupe_key op = unwrap_or (or_else (op_operation_id op) (op_summary op)) ''<anonymous>''"

definition warn_once_unsupported_path_style ::
  "operation \<Rightarrow> parameter_data \<Rightarrow> path_style \<Rightarrow> warned \<Rightarrow> string list \<times> warned" where
  "warn_once_unsupported_path_style op d style w =
     (case style of
        PS_Simple \<Rightarrow> ([], w)
      | PS_Matrix \<Rightarrow>
          (case record_unsupported_style (operation_dedupe_key op) (pd_name d) w of
             (new, w') \<Rightarrow> (if new then [''matrix''] else [], w'))
      | PS_Label \<Rightarrow>
          (case record_unsupported_style (operation_dedupe_key op) (pd_name d) w of
             (new, w') \<Rightarrow> (if new then [''label''] else [], w')))"

definition warn_once_unsupported_query_style ::
  "operation \<Rightarrow> parameter_data \<Rightarrow> query_style \<Rightarrow> warned \<Rightarrow> string list \<times> warned" where
  "warn_once_unsupported_query_style op d style w =
     (case style of
        QS_Form \<Rightarrow> ([], w)
      | QS_DeepObject \<Rightarrow> ([], w)
      | QS_PipeDelimited \<Rightarrow>
          (case record_unsupported_style (operation_dedupe_key op) (pd_name d) w of
             (new, w') \<Rightarrow> (if new then [''pipeDelimited''] else [], w'))
      | QS_SpaceDelimited \<Rightarrow>
          (case record_unsupported_style (operation_dedupe_key op) (pd_name d) w of
             (new, w') \<Rightarrow> (if new then [''spaceDelimited''] else [], w')))"

section \<open>Coercion of wire strings\<close>

definition any_label :: "string \<Rightarrow> string option" where
  "any_label t =
     (if t \<in> set [''string'', ''integer'', ''number'', ''boolean'', ''object'', ''array'']
      then Some t else None)"

definition primary_type_label :: "schema_kind \<Rightarrow> string option" where
  "primary_type_label kind =
     (case kind of
        KString _ \<Rightarrow> Some ''string''
      | KInteger _ \<Rightarrow> Some ''integer''
      | KNumber _ \<Rightarrow> Some ''number''
      | KBoolean _ \<Rightarrow> Some ''boolean''
      | KObject _ \<Rightarrow> Some ''object''
      | KArray _ \<Rightarrow> Some ''array''
      | KAny any \<Rightarrow> Option.bind (any_typ any) any_label
      | _ \<Rightarrow> None)"

datatype coercion = CValue json | CIntegerOverflow

definition coerce_string_to_schema_value :: "string \<Rightarrow> schema_kind \<Rightarrow> coercion" where
  "coerce_string_to_schema_value raw kind =
     (case primary_type_label kind of
        None \<Rightarrow> CValue (JStr raw)
      | Some label \<Rightarrow>
          if label = ''integer'' then
            (case parse_i128 raw of
               Some n \<Rightarrow> if in_i64 n then CValue (JNum (JInt n)) else CIntegerOverflow
             | None \<Rightarrow> CValue (JStr raw))
          else if label = ''number'' then
            (case parse_f64 raw of
               Some n \<Rightarrow> CValue (case num_from_f64 n of Some j \<Rightarrow> JNum j | None \<Rightarrow> JStr raw)
             | None \<Rightarrow> CValue (JStr raw))
          else if label = ''boolean'' then
            (if raw = ''true'' then CValue (JBool True)
             else if raw = ''false'' then CValue (JBool False)
             else CValue (JStr raw))
          else CValue (JStr raw))"

definition coerced_or_string :: "string \<Rightarrow> schema_kind \<Rightarrow> json" where
  "coerced_or_string raw kind =
     (case coerce_string_to_schema_value raw kind of CValue v \<Rightarrow> v | CIntegerOverflow \<Rightarrow> JStr raw)"

definition coerce_array_param :: "openapi \<Rightarrow> array_type \<Rightarrow> string \<Rightarrow> json" where
  "coerce_array_param spec aty raw =
     (if raw = [] then JArr []
      else
        let item_kind = map_option schema_kind (Option.bind (at_items aty) (resolve_boxed_schema spec))
        in JArr (map (\<lambda>piece. case item_kind of
                                Some kind \<Rightarrow> coerced_or_string piece kind
                              | None \<Rightarrow> JStr piece) (split_on (CHR '','') raw)))"

fun pair_up :: "string list \<Rightarrow> (string \<times> json) list" where
  "pair_up [] = []"
| "pair_up [k] = [(k, JStr [])]"
| "pair_up (k # v # rest) = (k, JStr v) # pair_up rest"

definition coerce_object_param :: "string \<Rightarrow> bool \<Rightarrow> json" where
  "coerce_object_param raw explode =
     (if raw = [] then JObj []
      else if explode then
        JObj (obj_of_list (List.map_filter
          (\<lambda>chunk. map_option (\<lambda>(k, v). (k, JStr v)) (split_once (CHR ''='') chunk))
          (split_on (CHR '','') raw)))
      else JObj (obj_of_list (pair_up (split_on (CHR '','') raw))))"

section \<open>One parameter\<close>

definition validate_string_against_schema ::
  "validator \<Rightarrow> openapi \<Rightarrow> param_format \<Rightarrow> string \<Rightarrow> validation_location \<Rightarrow> string \<Rightarrow> errors run" where
  "validate_string_against_schema vv spec fmt raw loc field =
     (case fmt of
        PF_Content \<Rightarrow> Done []
      | PF_Schema r \<Rightarrow>
          (case resolve_schema spec r of
             None \<Rightarrow> Done []
           | Some s \<Rightarrow>
               (case coerce_string_to_schema_value raw (schema_kind s) of
                  CValue v \<Rightarrow> vv s v loc field
                | CIntegerOverflow \<Rightarrow>
                    Done [verr loc field ''format''
                      (''value '' @ quoted raw @ '' is outside the int64 range ['' @ show_int i64_min
                       @ '', '' @ show_int i64_max @ '']'')])))"

text \<open>The value tried for one branch of a composition; \<open>None\<close> is the \<open>continue\<close> of an overflow.\<close>

definition branch_value :: "openapi \<Rightarrow> schema \<Rightarrow> string \<Rightarrow> bool \<Rightarrow> json option" where
  "branch_value spec s raw explode =
     (case schema_kind s of
        KArray aty \<Rightarrow> Some (coerce_array_param spec aty raw)
      | KObject _ \<Rightarrow> Some (coerce_object_param raw explode)
      | k \<Rightarrow> (case coerce_string_to_schema_value raw k of CValue v \<Rightarrow> Some v | CIntegerOverflow \<Rightarrow> None))"

definition try_validate_composite_param ::
  "validator \<Rightarrow> openapi \<Rightarrow> schema ref_or list \<Rightarrow> string \<Rightarrow> bool \<Rightarrow> validation_location \<Rightarrow> string \<Rightarrow> bool run" where
  "try_validate_composite_param vv spec branches raw explode loc field =
     run_any (map (\<lambda>s. case branch_value spec s raw explode of
                          None \<Rightarrow> Done False
                        | Some v \<Rightarrow> run_map (\<lambda>tmp. tmp = []) (vv s v loc field))
       (List.map_filter (resolve_schema spec) branches))"

definition validate_serialised_param_against_schema ::
  "validator \<Rightarrow> openapi \<Rightarrow> param_format \<Rightarrow> string \<Rightarrow> bool \<Rightarrow> validation_location \<Rightarrow> string \<Rightarrow> errors run" where
  "validate_serialised_param_against_schema vv spec fmt raw explode loc field =
     (case fmt of
        PF_Content \<Rightarrow> Done []
      | PF_Schema r \<Rightarrow>
          (case resolve_schema spec r of
             None \<Rightarrow> Done []
           | Some s \<Rightarrow>
               (case schema_kind s of
                  KArray aty \<Rightarrow> vv s (coerce_array_param spec aty raw) loc field
                | KObject _ \<Rightarrow> vv s (coerce_object_param raw explode) loc field
                | KAnyOf xs \<Rightarrow>
                    run_bind (try_validate_composite_param vv spec xs raw explode loc field) (\<lambda>ok.
                      if ok then Done [] else validate_string_against_schema vv spec fmt raw loc field)
                | KOneOf xs \<Rightarrow>
                    run_bind (try_validate_composite_param vv spec xs raw explode loc field) (\<lambda>ok.
                      if ok then Done [] else validate_string_against_schema vv spec fmt raw loc field)
                | _ \<Rightarrow> validate_string_against_schema vv spec fmt raw loc field)))"

definition validate_path_param ::
  "validator \<Rightarrow> openapi \<Rightarrow> parameter_data \<Rightarrow> string str_map \<Rightarrow> errors run" where
  "validate_path_param vv spec d path_params =
     (case map_of path_params (pd_name d) of
        None \<Rightarrow> Done [verr LPath (pd_name d) ''required'' ''missing path parameter'']
      | Some raw \<Rightarrow>
          validate_serialised_param_against_schema vv spec (pd_format d) raw
            (unwrap_or (pd_explode d) False) LPath (pd_name d))"

definition is_object_typed_param :: "openapi \<Rightarrow> param_format \<Rightarrow> bool" where
  "is_object_typed_param spec fmt =
     (case fmt of
        PF_Content \<Rightarrow> False
      | PF_Schema r \<Rightarrow>
          (case resolve_schema spec r of
             None \<Rightarrow> False
           | Some s \<Rightarrow> (case schema_kind s of KObject _ \<Rightarrow> True | _ \<Rightarrow> False)))"

definition coerce_deep_object_values :: "openapi \<Rightarrow> schema \<Rightarrow> (string \<times> string) list \<Rightarrow> json" where
  "coerce_deep_object_values spec s decoded =
     (case schema_kind s of
        KObject ot \<Rightarrow>
          JObj (obj_of_list (map (\<lambda>(key, raw).
            (key, case Option.bind (map_of (ot_properties ot) key) (resolve_boxed_schema spec) of
                    Some p \<Rightarrow> coerced_or_string raw (schema_kind p)
                  | None \<Rightarrow> JStr raw)) decoded))
      | _ \<Rightarrow> JObj (map (\<lambda>(key, raw). (key, JStr raw)) decoded))"

text \<open>The entries \<open>name[inner]\<close> of the query, collected into an ordered map.\<close>

definition deep_entries :: "string \<Rightarrow> string str_map \<Rightarrow> (string \<times> string) list" where
  "deep_entries name query =
     obj_of_list (List.map_filter (\<lambda>(key, v).
       Option.bind (strip_prefix key (name @ ''['')) (\<lambda>rest.
       Option.bind (strip_suffix rest '']'') (\<lambda>inner.
         if inner = [] then None else Some (inner, v)))) query)"

definition missing_query_errors :: "parameter_data \<Rightarrow> errors" where
  "missing_query_errors d =
     (if pd_required d then
        [verr LQuery (pd_name d) ''required'' ''missing required query parameter''] else [])"

definition validate_deep_object_query_param ::
  "validator \<Rightarrow> openapi \<Rightarrow> parameter_data \<Rightarrow> string str_map \<Rightarrow> errors run" where
  "validate_deep_object_query_param vv spec d query =
     (let decoded = deep_entries (pd_name d) query in
      if decoded = [] then
        (case map_of query (pd_name d) of
           None \<Rightarrow> Done (missing_query_errors d)
         | Some raw \<Rightarrow>
             validate_serialised_param_against_schema vv spec (pd_format d) raw
               (unwrap_or (pd_explode d) True) LQuery (pd_name d))
      else
        (case pd_format d of
           PF_Content \<Rightarrow> Done []
         | PF_Schema r \<Rightarrow>
             (case resolve_schema spec r of
                None \<Rightarrow> Done []
              | Some s \<Rightarrow> vv s (coerce_deep_object_values spec s decoded) LQuery (pd_name d))))"

definition validate_query_param ::
  "validator \<Rightarrow> openapi \<Rightarrow> parameter_data \<Rightarrow> query_style \<Rightarrow> string str_map \<Rightarrow> errors run" where
  "validate_query_param vv spec d style query =
     (if style = QS_DeepObject \<and> is_object_typed_param spec (pd_format d) then
        validate_deep_object_query_param vv spec d query
      else
        (case map_of query (pd_name d) of
           None \<Rightarrow> Done (missing_query_errors d)
         | Some raw \<Rightarrow>
             validate_serialised_param_against_schema vv spec (pd_format d) raw
               (unwrap_or (pd_explode d) True) LQuery (pd_name d)))"

definition is_reserved_header_name :: "string \<Rightarrow> bool" where
  "is_reserved_header_name name \<longleftrightarrow>
     eq_ignore_ascii_case name ''Accept'' \<or> eq_ignore_ascii_case name ''Content-Type''
     \<or> eq_ignore_ascii_case name ''Authorization''"

definition validate_header_param ::
  "validator \<Rightarrow> openapi \<Rightarrow> parameter_data \<Rightarrow> string str_map \<Rightarrow> errors run" where
  "validate_header_param vv spec d headers =
     (if is_reserved_header_name (pd_name d) then Done []
      else
        (case find_entry (\<lambda>k. eq_ignore_ascii_case k (pd_name d)) headers of
           None \<Rightarrow>
             Done (if pd_required d then
                     [verr LHeader (pd_name d) ''required'' ''missing required header''] else [])
         | Some raw \<Rightarrow>
             validate_serialised_param_against_schema vv spec (pd_format d) raw
               (unwrap_or (pd_explode d) False) LHeader (pd_name d)))"

section \<open>The body\<close>

definition bare_media :: "string \<Rightarrow> string" where
  "bare_media v = trim (hd (split_on (CHR '';'') v))"

definition is_xml_content_type :: "string option \<Rightarrow> bool" where
  "is_xml_content_type content_type =
     (case content_type of
        None \<Rightarrow> False
      | Some ct \<Rightarrow>
          (let lower = to_ascii_lowercase ct in
           lower = ''application/xml'' \<or> lower = ''text/xml''
           \<or> starts_with lower ''application/'' \<and> ends_with lower ''+xml''))"

definition media_range_matches :: "string \<Rightarrow> string \<Rightarrow> bool" where
  "media_range_matches rng specific =
     (case strip_suffix rng ''/*'' of
        None \<Rightarrow> False
      | Some pre \<Rightarrow>
          (case split_once (CHR ''/'') specific of
             Some (t, _) \<Rightarrow> eq_ignore_ascii_case t pre
           | None \<Rightarrow> False))"

text \<open>Only \<open>required\<close>, through \<open>allOf\<close>; the recursion is bounded by a budget.\<close>

primrec validate_required_only :: "openapi \<Rightarrow> nat \<Rightarrow> schema \<Rightarrow> json \<Rightarrow> string \<Rightarrow> errors run" where
  "validate_required_only spec 0 = (\<lambda>s v field. Fuel)"
| "validate_required_only spec (Suc n) = (\<lambda>s v field.
     case as_object v of
       None \<Rightarrow> Done []
     | Some m \<Rightarrow>
         (case schema_kind s of
            KObject ot \<Rightarrow> Done (required_errors (ot_required ot) m LBody field)
          | KAllOf xs \<Rightarrow>
              run_concat (map (\<lambda>sub. validate_required_only spec n sub v field)
                (List.map_filter (resolve_schema spec) xs))
          | KAny any \<Rightarrow> Done (required_errors (any_required any) m LBody field)
          | _ \<Rightarrow> Done []))"

text \<open>The media entry whose schema applies to the body.\<close>

definition body_media :: "request_body \<Rightarrow> string option \<Rightarrow> media_type option" where
  "body_media rb content_type =
     find_entry (\<lambda>k. eq_ignore_ascii_case (bare_media k) ''application/json''
                     \<or> eq_ignore_ascii_case (bare_media k) (unwrap_or content_type ''application/json''))
       (rb_content rb)"

definition content_type_errors :: "request_body \<Rightarrow> string option \<Rightarrow> errors" where
  "content_type_errors rb content_type =
     (case content_type of
        None \<Rightarrow> []
      | Some ct \<Rightarrow>
          if rb_content rb \<noteq> []
             \<and> \<not> list_ex (\<lambda>k. eq_ignore_ascii_case (bare_media k) ct \<or> media_range_matches (bare_media k) ct)
                   (map fst (rb_content rb)) then
            [verr LBody ''body'' ''contentType'' (''content-type '' @ quoted ct @ '' is not accepted'')]
          else [])"

definition request_content_type :: "mock_request \<Rightarrow> string option" where
  "request_content_type req =
     map_option bare_media (find_entry (\<lambda>k. eq_ignore_ascii_case k ''content-type'') (mr_headers req))"

definition validate_body ::
  "validator \<Rightarrow> nat \<Rightarrow> openapi \<Rightarrow> request_body \<Rightarrow> mock_request \<Rightarrow> errors run" where
  "validate_body vv n spec rb req =
     (let content_type = request_content_type req in
      if rb_required rb \<and> mr_body req = None then
        Done [verr LBody ''body'' ''required'' ''body is required'']
      else
        run_map (\<lambda>es. content_type_errors rb content_type @ es)
          (case mr_body req of
             None \<Rightarrow> Done []
           | Some body_value \<Rightarrow>
               if is_xml_content_type content_type then Done []
               else
                 (case Option.bind (body_media rb content_type)
                         (\<lambda>media. Option.bind (mt_schema media) (resolve_schema spec)) of
                    None \<Rightarrow> Done []
                  | Some s \<Rightarrow>
                      if (case content_type of
                            Some ct \<Rightarrow> eq_ignore_ascii_case ct ''multipart/form-data''
                          | None \<Rightarrow> False)
                      then validate_required_only spec n s body_value ''body''
                      else vv s body_value LBody ''body'')))"

section \<open>The request\<close>

definition validate_param ::
  "validator \<Rightarrow> openapi \<Rightarrow> string str_map \<Rightarrow> mock_request \<Rightarrow> parameter \<Rightarrow> errors run" where
  "validate_param vv spec path_params req p =
     (case p of
        P_Path d style \<Rightarrow> validate_path_param vv spec d path_params
      | P_Query d style \<Rightarrow> validate_query_param vv spec d style (mr_query req)
      | P_Header d \<Rightarrow> validate_header_param vv spec d (mr_headers req)
      | P_Cookie d \<Rightarrow> Done [])"

definition effective_parameters :: "openapi \<Rightarrow> string option \<Rightarrow> operation \<Rightarrow> parameter list" where
  "effective_parameters spec path_template op =
     dedupe_parameters
       (List.map_filter (resolve_parameter spec)
          (unwrap_or (Option.bind path_template (path_item_parameters_for_template spec)) []
           @ op_parameters op))"

definition validate ::
  "compiler \<Rightarrow> openapi \<Rightarrow> nat \<Rightarrow> string option \<Rightarrow> operation \<Rightarrow> string str_map \<Rightarrow> mock_request \<Rightarrow> errors run" where
  "validate rx spec n path_template op path_params req =
     (let item_params = unwrap_or (Option.bind path_template (path_item_parameters_for_template spec)) [] in
      if item_params = [] \<and> op_parameters op = [] \<and> op_request_body op = None then Done []
      else
        run_concat
          (map (validate_param (validate_value rx spec n) spec path_params req)
             (effective_parameters spec path_template op)
           @ [case Option.bind (op_request_body op) (resolve_request_body spec) of
                Some rb \<Rightarrow> validate_body (validate_value rx spec n) n spec rb req
              | None \<Rightarrow> Done []]))"

text \<open>
  The other effect of \<open>validate\<close>: the warnings about styles, in parameter order, and the set of pairs
  warned about. It does not interact with the errors.
\<close>

definition param_warnings :: "operation \<Rightarrow> parameter \<Rightarrow> warned \<Rightarrow> string list \<times> warned" where
  "param_warnings op p w =
     (case p of
        P_Path d style \<Rightarrow> warn_once_unsupported_path_style op d style w
      | P_Query d style \<Rightarrow> warn_once_unsupported_query_style op d style w
      | _ \<Rightarrow> ([], w))"

fun validate_warnings :: "operation \<Rightarrow> parameter list \<Rightarrow> warned \<Rightarrow> string list \<times> warned" where
  "validate_warnings op [] w = ([], w)"
| "validate_warnings op (p # ps) w =
     (case param_warnings op p w of
        (out, w') \<Rightarrow> (case validate_warnings op ps w' of (out', w'') \<Rightarrow> (out @ out', w'')))"

end
