(* ===== verification/ParamsFacts.thy ===== *)
theory ParamsFacts
  imports Params
begin

text \<open>
  Facts about the checks of parameters and bodies: which declarations apply, what the wire decoding
  gives, the once-per-process style warnings, and that validating a request returns.
\<close>

section \<open>Overriding of parameters\<close>

lemma dedupe_loop_subset: "set (dedupe_loop ps seen) \<subseteq> set ps"
  by (induction ps arbitrary: seen) auto

lemma dedupe_loop_keys:
  "distinct (map parameter_dedupe_key (dedupe_loop ps seen))
   \<and> parameter_dedupe_key ` set (dedupe_loop ps seen) = parameter_dedupe_key ` set ps - set seen"
  by (induction ps seen rule: dedupe_loop.induct) auto

lemma dedupe_loop_first:
  "p \<in> set (dedupe_loop ps seen) \<Longrightarrow>
   \<exists>pre post. ps = pre @ p # post \<and> parameter_dedupe_key p \<notin> parameter_dedupe_key ` set pre"
proof (induction ps seen rule: dedupe_loop.induct)
  case (2 q ps seen)
  show ?case
  proof (cases "p \<in> set (dedupe_loop ps (parameter_dedupe_key q # seen)) \<and> parameter_dedupe_key q \<notin> set seen")
    case True
    with 2 obtain pre post where pp: "ps = pre @ p # post" "parameter_dedupe_key p \<notin> parameter_dedupe_key ` set pre"
      by blast
    have "parameter_dedupe_key p \<noteq> parameter_dedupe_key q"
      using True dedupe_loop_keys [of ps "parameter_dedupe_key q # seen"] by fastforce
    with pp show ?thesis by (intro exI [of _ "q # pre"] exI [of _ post]) auto
  next
    case False
    show ?thesis
    proof (cases "parameter_dedupe_key q \<in> set seen")
      case True
      with 2 obtain pre post where pp: "ps = pre @ p # post" "parameter_dedupe_key p \<notin> parameter_dedupe_key ` set pre"
        by auto
      have "parameter_dedupe_key p \<notin> set seen"
        using 2(3) True dedupe_loop_keys [of ps seen] by fastforce
      with True have "parameter_dedupe_key p \<noteq> parameter_dedupe_key q" by metis
      with pp show ?thesis by (intro exI [of _ "q # pre"] exI [of _ post]) auto
    next
      case f: False
      with False 2(3) have "p = q" by auto
      then show ?thesis by (intro exI [of _ "[]"] exI [of _ ps]) simp
    qed
  qed
qed simp

lemma dedupe_loop_subseq: "subseq (dedupe_loop ps seen) ps"
  by (induction ps seen rule: dedupe_loop.induct) auto

lemma subseq_reverse: "subseq xs ys \<Longrightarrow> subseq (rev xs) (rev ys)"
proof (induction rule: list_emb.induct)
  case (list_emb_Cons2 x y xs ys)
  then show ?case by (auto intro: list_emb_append_mono)
qed (auto intro: subseq_rev_drop_many)

text \<open>
  the parameters a request is checked against: no two share name and location, every declared
  name and location is kept, declaration order is kept, and of several declarations the last one
  (the operation's over the path item's) survives.
\<close>

theorem parameter_override:
  "distinct (map parameter_dedupe_key (dedupe_parameters ps))
   \<and> parameter_dedupe_key ` set (dedupe_parameters ps) = parameter_dedupe_key ` set ps
   \<and> subseq (dedupe_parameters ps) ps
   \<and> list_all (\<lambda>p. \<exists>pre post. ps = pre @ p # post
        \<and> parameter_dedupe_key p \<notin> parameter_dedupe_key ` set post) (dedupe_parameters ps)"
proof (intro conjI)
  show "distinct (map parameter_dedupe_key (dedupe_parameters ps))"
    using dedupe_loop_keys [of "rev ps" "[]"] by (simp add: dedupe_parameters_def rev_map [symmetric])
  show "parameter_dedupe_key ` set (dedupe_parameters ps) = parameter_dedupe_key ` set ps"
    using dedupe_loop_keys [of "rev ps" "[]"] by (simp add: dedupe_parameters_def)
  have "subseq (rev (dedupe_loop (rev ps) [])) (rev (rev ps))"
    using dedupe_loop_subseq subseq_reverse by blast
  then show "subseq (dedupe_parameters ps) ps" by (simp add: dedupe_parameters_def)
  have "\<exists>pre post. ps = pre @ p # post \<and> parameter_dedupe_key p \<notin> parameter_dedupe_key ` set post"
    if p: "p \<in> set (dedupe_loop (rev ps) [])" for p
  proof -
    from dedupe_loop_first [OF p] obtain pre post where
      "rev ps = pre @ p # post" "parameter_dedupe_key p \<notin> parameter_dedupe_key ` set pre" by blast
    then have "ps = rev post @ p # rev pre" by (metis append.assoc append_Cons append_Nil rev.simps(2) rev_append rev_rev_ident)
    with \<open>parameter_dedupe_key p \<notin> parameter_dedupe_key ` set pre\<close> show ?thesis
      by (intro exI [of _ "rev post"] exI [of _ "rev pre"]) simp
  qed
  then show "list_all (\<lambda>p. \<exists>pre post. ps = pre @ p # post
      \<and> parameter_dedupe_key p \<notin> parameter_dedupe_key ` set post) (dedupe_parameters ps)"
    by (simp add: dedupe_parameters_def list_all_iff)
qed

section \<open>deepObject\<close>

definition deep_entry :: "string \<Rightarrow> string \<times> string \<Rightarrow> (string \<times> string) option" where
  "deep_entry name = (\<lambda>(key, v).
     Option.bind (strip_prefix key (name @ ''['')) (\<lambda>rest.
     Option.bind (strip_suffix rest '']'') (\<lambda>inner. if inner = [] then None else Some (inner, v))))"

lemma deep_entry_Some:
  "deep_entry name (key, v) = Some (i, w) \<longleftrightarrow> key = name @ ''['' @ i @ '']'' \<and> w = v \<and> i \<noteq> []"
  by (auto simp: deep_entry_def bind_eq_Some_conv strip_suffix_Some_iff split: if_splits)

lemma deep_entries_keys:
  "distinct (map fst query) \<Longrightarrow> distinct (map fst (List.map_filter (deep_entry name) query))"
proof (induction query)
  case (Cons e query)
  obtain k v where e: "e = (k, v)" by (cases e)
  show ?case
  proof (cases "deep_entry name e")
    case (Some x)
    obtain i w where x: "x = (i, w)" by (cases x)
    with Some e have "k = name @ ''['' @ i @ '']''" by (simp add: deep_entry_Some)
    moreover have "i \<notin> fst ` set (List.map_filter (deep_entry name) query)"
    proof
      assume "i \<in> fst ` set (List.map_filter (deep_entry name) query)"
      then obtain w' k' v' where "(k', v') \<in> set query" "deep_entry name (k', v') = Some (i, w')"
        by (auto simp: map_filter_member)
      with \<open>k = name @ ''['' @ i @ '']''\<close> Cons.prems e show False by (force simp: deep_entry_Some)
    qed
    ultimately show ?thesis using Cons Some x by (simp add: map_filter_simps)
  qed (use Cons in \<open>simp add: map_filter_simps\<close>)
qed (simp add: map_filter_simps)

lemma deep_entries_def2: "deep_entries name query = obj_of_list (List.map_filter (deep_entry name) query)"
  by (simp add: deep_entries_def deep_entry_def)

text \<open>
  what \<open>deepObject\<close> decoding finds: for a query with distinct keys, in any iteration order, the
  decoded object is a sorted map whose member \<open>inner\<close> is the value of the query key \<open>name[inner]\<close>, for every
  non-empty \<open>inner\<close>, and nothing else.
\<close>

theorem deep_object_lookup:
  assumes "distinct (map fst query)"
  shows "sorted_map (deep_entries name query)
    \<and> map_of (deep_entries name query) inner
       = (if inner = [] then None else map_of query (name @ ''['' @ inner @ '']''))"
proof
  show "sorted_map (deep_entries name query)" by (simp add: deep_entries_def sorted_obj_of_list)
  let ?es = "List.map_filter (deep_entry name) query"
  have d: "distinct (map fst ?es)" by (rule deep_entries_keys [OF assms])
  have mem: "(inner, w) \<in> set ?es \<longleftrightarrow> inner \<noteq> [] \<and> (name @ ''['' @ inner @ '']'', w) \<in> set query" for w
  proof
    assume "(inner, w) \<in> set ?es"
    then obtain k v where "(k, v) \<in> set query" "deep_entry name (k, v) = Some (inner, w)" by (auto simp: map_filter_member)
    then show "inner \<noteq> [] \<and> (name @ ''['' @ inner @ '']'', w) \<in> set query" unfolding deep_entry_Some by simp
  next
    assume "inner \<noteq> [] \<and> (name @ ''['' @ inner @ '']'', w) \<in> set query"
    then show "(inner, w) \<in> set ?es"
      by (auto simp: map_filter_member deep_entry_Some intro!: bexI [of _ "(name @ ''['' @ inner @ '']'', w)"])
  qed
  have eq: "map_of ?es inner = Some w \<longleftrightarrow> inner \<noteq> [] \<and> map_of query (name @ ''['' @ inner @ '']'') = Some w" for w
    using d assms mem by (simp add: map_of_eq_Some_iff)
  have "map_of ?es inner = (if inner = [] then None else map_of query (name @ ''['' @ inner @ '']''))"
  proof (cases "inner = []")
    case True
    then show ?thesis using eq by (cases "map_of ?es inner") simp_all
  next
    case False
    then have "map_of ?es inner = Some w \<longleftrightarrow> map_of query (name @ ''['' @ inner @ '']'') = Some w" for w
      using eq by blast
    then have "map_of ?es inner = map_of query (name @ ''['' @ inner @ '']'')" by (metis not_None_eq)
    with False show ?thesis by simp
  qed
  then show "map_of (deep_entries name query) inner
       = (if inner = [] then None else map_of query (name @ ''['' @ inner @ '']''))"
    by (simp add: deep_entries_def2 map_of_obj_of_list map_of_rev_distinct [OF d])
qed

theorem deep_object_lookup_witness:
  "map_of (deep_entries ''f'' [(''f[b]'', ''2''), (''x'', ''3''), (''f[a]'', ''1'')]) ''a'' = Some ''1''"
  using deep_object_lookup [of "[(''f[b]'', ''2''), (''x'', ''3''), (''f[a]'', ''1'')]" "''f''" "''a''"] by simp

section \<open>Wire coercion\<close>

definition integer_format :: "integer_type \<Rightarrow> param_format" where
  "integer_format it = PF_Schema (Item (Schema plain_data (KInteger it)))"

text \<open>
  an integer parameter on the wire. The decimal text of any 128-bit integer is read back as that
  integer and checked by the schema when it fits 64 bits; beyond 64 bits it is reported once, under
  code \<open>format\<close>, and never as a type error.
\<close>

theorem integer_parameter_on_the_wire:
  assumes "- (2 ^ 127) \<le> i" and "i \<le> 2 ^ 127 - 1"
  shows "validate_string_against_schema vv spec (integer_format it) (show_int i) loc field =
    (if - (2 ^ 63) \<le> i \<and> i \<le> 2 ^ 63 - 1
     then vv (Schema plain_data (KInteger it)) (JNum (JInt i)) loc field
     else Done [verr loc field ''format''
       (''value '' @ quoted (show_int i) @ '' is outside the int64 range ['' @ show_int i64_min
        @ '', '' @ show_int i64_max @ '']'')])"
  using parse_i128_show_int [OF assms]
  by (auto simp: validate_string_against_schema_def integer_format_def rs.resolve_item
      coerce_string_to_schema_value_def primary_type_label_def in_i64_def i64_min_def i64_max_def)

theorem integer_parameter_on_the_wire_witness:
  "validate_string_against_schema (validate_value no_regex tree_spec 1) tree_spec (integer_format plain_integer)
     (show_int (2 ^ 63)) LQuery ''n'' =
   Done [verr LQuery ''n'' ''format''
     (''value '' @ quoted (show_int (2 ^ 63)) @ '' is outside the int64 range ['' @ show_int i64_min
      @ '', '' @ show_int i64_max @ '']'')]"
  by (subst integer_parameter_on_the_wire) simp_all

text \<open>
  \<open>oneOf\<close> is not enforced on parameters: the wire value \<open>a\<close> satisfies both branches of a \<open>oneOf\<close> of two
  string schemas, which the schema validator rejects and the parameter check accepts.
\<close>

theorem one_of_parameter_accepts_two_branches:
  "let two = Schema plain_data (KOneOf [Item (Schema plain_data (KString plain_string)),
                                        Item (Schema plain_data (KString plain_string))]) in
     validate_serialised_param_against_schema (validate_value no_regex tree_spec 2) tree_spec
       (PF_Schema (Item two)) ''a'' True LQuery ''q'' = Done []
     \<and> validate_value no_regex tree_spec 2 two (JStr ''a'') LQuery ''q''
       = Done [verr LQuery ''q'' ''oneOf'' ''value matches 2 of 2 oneOf branches (must match exactly 1)'']"
  unfolding Let_def by (rule conjI; code_simp)

section \<open>Warnings\<close>

definition known :: "operation \<Rightarrow> parameter \<Rightarrow> warned \<Rightarrow> bool" where
  "known op p w \<longleftrightarrow> param_warnings op p w = ([], w)"

lemma param_warnings_known: "known op p (snd (param_warnings op p w))"
  by (cases p) (auto simp: known_def param_warnings_def warn_once_unsupported_path_style_def
      warn_once_unsupported_query_style_def record_unsupported_style_def split: path_style.split query_style.split)

lemma param_warnings_grow: "set w \<subseteq> set (snd (param_warnings op p w))"
  by (cases p) (auto simp: param_warnings_def warn_once_unsupported_path_style_def
      warn_once_unsupported_query_style_def record_unsupported_style_def split: path_style.split query_style.split)

lemma known_mono: "known op p w \<Longrightarrow> set w \<subseteq> set w' \<Longrightarrow> known op p w'"
  by (cases p) (auto simp: known_def param_warnings_def warn_once_unsupported_path_style_def
      warn_once_unsupported_query_style_def record_unsupported_style_def
      split: path_style.splits query_style.splits if_splits)

lemma validate_warnings_grow: "set w \<subseteq> set (snd (validate_warnings op ps w))"
proof (induction ps arbitrary: w)
  case (Cons p ps)
  obtain out w' where p: "param_warnings op p w = (out, w')" by (cases "param_warnings op p w")
  obtain out' w'' where ps: "validate_warnings op ps w' = (out', w'')" by (cases "validate_warnings op ps w'")
  have "set w \<subseteq> set w'" using param_warnings_grow [of w op p] p by simp
  moreover have "set w' \<subseteq> set w''" using Cons [of w'] ps by simp
  ultimately show ?case using p ps by simp
qed simp

lemma validate_warnings_known: "p \<in> set ps \<Longrightarrow> known op p (snd (validate_warnings op ps w))"
proof (induction ps arbitrary: w)
  case (Cons q ps)
  obtain out w' where q: "param_warnings op q w = (out, w')" by (cases "param_warnings op q w")
  have snd_eq: "snd (validate_warnings op (q # ps) w) = snd (validate_warnings op ps w')"
    using q by (simp split: prod.split)
  show ?case
  proof (cases "p = q")
    case True
    have "known op q w'" using param_warnings_known [of op q w] q by simp
    with True snd_eq show ?thesis using known_mono validate_warnings_grow by metis
  next
    case False
    with Cons snd_eq show ?thesis by simp
  qed
qed simp

lemma validate_warnings_all_known:
  "(\<And>p. p \<in> set ps \<Longrightarrow> known op p w) \<Longrightarrow> validate_warnings op ps w = ([], w)"
  by (induction ps) (auto simp: known_def)

text \<open>
  the style warnings of an operation are emitted once per process: after one validation of its
  parameters, validating any of them again emits nothing and leaves the set of warned pairs as it is.
\<close>

theorem style_warnings_once:
  "validate_warnings op ps (snd (validate_warnings op ps w)) = ([], snd (validate_warnings op ps w))"
  by (rule validate_warnings_all_known) (rule validate_warnings_known)

section \<open>The whole request\<close>

lemma validate_required_only_mono:
  "validate_required_only spec n s v f \<noteq> Fuel \<Longrightarrow> n \<le> m \<Longrightarrow>
   validate_required_only spec m s v f = validate_required_only spec n s v f"
proof (induction n arbitrary: m s)
  case (Suc n)
  then obtain k where k: "m = Suc k" "n \<le> k" by (cases m) auto
  show ?case
  proof (cases "as_object v")
    case (Some ob)
    show ?thesis
    proof (cases "schema_kind s")
      case (KAllOf xs)
      let ?ts = "List.map_filter (resolve_schema spec) xs"
      have le: "run_le (validate_required_only spec n t v f) (validate_required_only spec k t v f)" for t
        using Suc.IH [of t k] k(2) unfolding run_le_def by metis
      have "run_le (run_concat (map (\<lambda>t. validate_required_only spec n t v f) ?ts))
          (run_concat (map (\<lambda>t. validate_required_only spec k t v f) ?ts))"
        by (rule run_le_concat_map) (rule le)
      with Suc.prems(1) Some KAllOf show ?thesis by (simp add: k(1) run_le_def)
    qed (simp_all add: k(1) Some)
  qed (simp add: k(1))
qed simp

lemma validate_required_only_returns:
  assumes "wfp (\<lambda>t s. t \<in> set (operands spec s))"
  shows "\<exists>n. validate_required_only spec n s v f \<noteq> Fuel"
  using assms
proof (induction s rule: wfp_induct_rule)
  case (less s)
  show ?case
  proof (cases "schema_kind s")
    case (KAllOf xs)
    let ?ts = "List.map_filter (resolve_schema spec) xs"
    have "t \<in> set ?ts \<Longrightarrow> \<exists>n. validate_required_only spec n t v f \<noteq> Fuel" for t
      using less KAllOf by (simp add: operands_def operand_refs_def)
    then have "\<exists>n. \<forall>t \<in> set ts. validate_required_only spec n t v f \<noteq> Fuel" if "set ts \<subseteq> set ?ts" for ts
      using that
    proof (induction ts)
      case (Cons t ts)
      from Cons obtain n k where nk: "\<forall>t \<in> set ts. validate_required_only spec n t v f \<noteq> Fuel"
        "validate_required_only spec k t v f \<noteq> Fuel" by (meson list.set_intros(1) list.set_intros(2) subset_code(1))
      then have "\<forall>u \<in> set (t # ts). validate_required_only spec (max n k) u v f \<noteq> Fuel"
        using validate_required_only_mono [of spec _ _ v f "max n k"] by auto
      then show ?case by blast
    qed simp
    then obtain n where n: "\<forall>t \<in> set ?ts. validate_required_only spec n t v f \<noteq> Fuel" by blast
    then have "run_concat (map (\<lambda>t. validate_required_only spec n t v f) ?ts) \<noteq> Fuel"
      by (intro run_concat_not_Fuel) auto
    then have "validate_required_only spec (Suc n) s v f \<noteq> Fuel"
      using KAllOf by (simp split: option.split)
    then show ?thesis by blast
  qed (rule exI [of _ 1], simp split: option.split)+
qed

lemma settles_format:
  "settles r \<Longrightarrow> (\<And>x. settles (q x)) \<Longrightarrow>
   settles (\<lambda>n. case fmt of PF_Schema x \<Rightarrow> q x n | PF_Content \<Rightarrow> r n)"
  by (cases fmt) simp_all

lemma settles_coercion:
  "settles r \<Longrightarrow> (\<And>v. settles (q v)) \<Longrightarrow>
   settles (\<lambda>n. case c of CValue v \<Rightarrow> q v n | CIntegerOverflow \<Rightarrow> r n)"
  by (cases c) simp_all

lemmas settles_intros = settles_const settles_map settles_if settles_option settles_format settles_coercion

lemma settles_validate_value:
  assumes "wfp (\<lambda>t s. t \<in> set (operands spec s))"
  shows "settles (\<lambda>n. validate_value rx spec n s v loc f)"
  using validate_value_returns [OF assms, of rx s v] unfolding settles_def by blast

lemma settles_string:
  assumes "wfp (\<lambda>t s. t \<in> set (operands spec s))"
  shows "settles (\<lambda>n. validate_string_against_schema (validate_value rx spec n) spec fmt raw loc f)"
  unfolding validate_string_against_schema_def
  by (intro settles_intros settles_validate_value [OF assms]) simp_all

lemma settles_composite:
  assumes "wfp (\<lambda>t s. t \<in> set (operands spec s))"
  shows "settles (\<lambda>n. try_validate_composite_param (validate_value rx spec n) spec xs raw e loc f)"
  unfolding try_validate_composite_param_def
  by (rule settles_any, rename_tac x, case_tac "branch_value spec x raw e")
     (auto intro: settles_const settles_map settles_validate_value [OF assms])

lemma settles_serialised:
  assumes "wfp (\<lambda>t s. t \<in> set (operands spec s))"
  shows "settles (\<lambda>n. validate_serialised_param_against_schema (validate_value rx spec n) spec fmt raw e loc f)"
proof (cases fmt)
  case (PF_Schema r)
  show ?thesis
  proof (cases "resolve_schema spec r")
    case (Some s)
    then show ?thesis
      using PF_Schema settles_validate_value [OF assms] settles_string [OF assms]
        settles_if_then [OF settles_composite [OF assms] settles_string [OF assms]]
      by (cases "schema_kind s") (simp_all add: validate_serialised_param_against_schema_def)
  qed (simp add: PF_Schema validate_serialised_param_against_schema_def settles_const)
qed (simp add: validate_serialised_param_against_schema_def settles_const)

lemma settles_param:
  assumes wf: "wfp (\<lambda>t s. t \<in> set (operands spec s))"
  shows "settles (\<lambda>n. validate_param (validate_value rx spec n) spec ps req p)"
proof -
  have "settles (\<lambda>n. validate_deep_object_query_param (validate_value rx spec n) spec d (mr_query req))" for d
    unfolding validate_deep_object_query_param_def Let_def
    by (intro settles_intros settles_validate_value [OF wf] settles_serialised [OF wf]) simp_all
  then have "settles (\<lambda>n. validate_query_param (validate_value rx spec n) spec d style (mr_query req))" for d style
    unfolding validate_query_param_def
    by (intro settles_intros settles_serialised [OF wf]) simp_all
  moreover have "settles (\<lambda>n. validate_path_param (validate_value rx spec n) spec d ps)" for d
    unfolding validate_path_param_def
    by (intro settles_intros settles_serialised [OF wf]) simp_all
  moreover have "settles (\<lambda>n. validate_header_param (validate_value rx spec n) spec d (mr_headers req))" for d
    unfolding validate_header_param_def
    by (intro settles_intros settles_serialised [OF wf]) simp_all
  ultimately show ?thesis by (cases p) (simp_all add: validate_param_def settles_const)
qed

lemma settles_body:
  assumes wf: "wfp (\<lambda>t s. t \<in> set (operands spec s))"
  shows "settles (\<lambda>n. validate_body (validate_value rx spec n) n spec rb req)"
proof -
  have "settles (\<lambda>n. validate_required_only spec n s v f)" for s v f
    using validate_required_only_returns [OF wf, of s v f] validate_required_only_mono
    unfolding settles_def by metis
  then show ?thesis
    unfolding validate_body_def Let_def
    by (intro settles_intros settles_validate_value [OF wf]) simp_all
qed

lemma settles_validate:
  assumes "wfp (\<lambda>t s. t \<in> set (operands spec s))"
  shows "settles (\<lambda>n. validate rx spec n path_template op path_params req)"
proof -
  let ?ps = "effective_parameters spec path_template op"
  have "settles (\<lambda>n. run_concat (map (\<lambda>p. validate_param (validate_value rx spec n) spec path_params req p) ?ps))"
    by (rule settles_concat) (rule settles_param [OF assms])
  moreover have "settles (\<lambda>n. case Option.bind (op_request_body op) (resolve_request_body spec) of
      Some rb \<Rightarrow> validate_body (validate_value rx spec n) n spec rb req | None \<Rightarrow> Done [])"
    by (intro settles_intros settles_body [OF assms]) simp
  ultimately show ?thesis
    using settles_append [of "\<lambda>p n. validate_param (validate_value rx spec n) spec path_params req p" ?ps]
    unfolding validate_def Let_def by (intro settles_if settles_const) simp_all
qed

text \<open>
  C1: request validation returns. When no schema of the document is composed of itself on the same
  value, validating any request against any operation ends for every budget from some point on.
\<close>

theorem request_validation_returns:
  assumes "wfp (\<lambda>t s. t \<in> set (operands spec s))"
  shows "\<exists>n. \<forall>m \<ge> n. validate rx spec m path_template op path_params req \<noteq> Fuel"
  using settles_validate [OF assms] by (simp add: settles_def)

theorem request_validation_returns_witness:
  "\<exists>n. \<forall>m \<ge> n. validate no_regex tree_spec m None
     \<lparr>op_operation_id = None, op_summary = None, op_parameters = [],
      op_request_body = Some (Item \<lparr>rb_content = [(''application/json'',
        \<lparr>mt_schema = Some node_ref, mt_example = None, mt_examples = []\<rparr>)], rb_required = True\<rparr>),
      op_responses = \<lparr>rs_default = None, rs_responses = []\<rparr>, op_security = None, op_servers = [],
      op_extensions = []\<rparr> []
     \<lparr>mr_method = ''POST'', mr_path = ''/'', mr_headers = [], mr_query = [],
      mr_body = Some (JObj [(''name'', JStr ''a'')])\<rparr> \<noteq> Fuel"
  by (rule request_validation_returns [OF tree_spec_wf])

end
