(* ===== verification/BodyParse.thy ===== *)
theory BodyParse
  imports ParamsFacts
begin

text \<open>
  \<open>validation.rs\<close>: raw request bodies into the JSON value that is validated. Bytes are characters, so
  a body is a \<open>string\<close> that need not be UTF-8. \<open>serde_json::from_slice\<close> is the parameter \<open>from_slice\<close>:
  the value, or the rendering of the parse error.
\<close>

section \<open>Searching bytes\<close>

definition find_subsequence :: "string \<Rightarrow> string \<Rightarrow> nat option" where
  "find_subsequence haystack needle =
     (if needle = [] \<or> length haystack < length needle then None else find_sub haystack needle)"

text \<open>\<open>u8::is_ascii_whitespace\<close>.\<close>

definition is_ascii_whitespace :: "char \<Rightarrow> bool" where
  "is_ascii_whitespace c \<longleftrightarrow> byte c \<in> {32, 9, 10, 12, 13}"

text \<open>\<open>char::to_digit(16)\<close>.\<close>

definition hex_digit :: "char \<Rightarrow> nat option" where
  "hex_digit c =
     (if 48 \<le> byte c \<and> byte c \<le> 57 then Some (byte c - 48)
      else if 97 \<le> byte c \<and> byte c \<le> 102 then Some (byte c - 87)
      else if 65 \<le> byte c \<and> byte c \<le> 70 then Some (byte c - 55)
      else None)"

section \<open>Form bodies\<close>

fun decode_bytes :: "string \<Rightarrow> string" where
  "decode_bytes [] = []"
| "decode_bytes (b # rest) =
     (if b = CHR ''+'' then CHR '' '' # decode_bytes rest
      else if b = CHR ''%'' then
        (case rest of
           hi # lo # r \<Rightarrow>
             (case (hex_digit hi, hex_digit lo) of
                (Some h, Some l) \<Rightarrow> char_of (h * 16 + l) # decode_bytes r
              | _ \<Rightarrow> b # decode_bytes rest)
         | _ \<Rightarrow> b # decode_bytes rest)
      else b # decode_bytes rest)"

definition decode_form_urlencoded_bytes :: "string \<Rightarrow> string option" where
  "decode_form_urlencoded_bytes bytes = from_utf8 (decode_bytes bytes)"

definition add_form_value :: "string \<Rightarrow> json \<Rightarrow> obj \<Rightarrow> obj" where
  "add_form_value key new m =
     (case map_of m key of
        None \<Rightarrow> obj_insert key new (obj_remove key m)
      | Some (JArr arr) \<Rightarrow> obj_insert key (JArr (arr @ [new])) (obj_remove key m)
      | Some existing \<Rightarrow> obj_insert key (JArr [existing, new]) (obj_remove key m))"

definition form_pair :: "string \<Rightarrow> (string \<times> string) option" where
  "form_pair pair =
     (if pair = [] then None
      else
        case (case split_once (CHR ''='') pair of Some kv \<Rightarrow> kv | None \<Rightarrow> (pair, [])) of
          (k_bytes, v_bytes) \<Rightarrow>
            map_option (\<lambda>key. (key, unwrap_or (decode_form_urlencoded_bytes v_bytes) []))
              (decode_form_urlencoded_bytes k_bytes))"

definition parse_form_urlencoded_to_json_value :: "string \<Rightarrow> json" where
  "parse_form_urlencoded_to_json_value raw_body =
     JObj (fold (\<lambda>(key, v) m. add_form_value key (JStr v) m)
       (List.map_filter form_pair (split_on (CHR ''&'') raw_body)) [])"

section \<open>Multipart bodies\<close>

definition unquote :: "string \<Rightarrow> string" where
  "unquote s =
     unwrap_or (Option.bind (strip_prefix s [CHR 0x22]) (\<lambda>r. strip_suffix r [CHR 0x22])) s"

definition extract_multipart_boundary :: "string \<Rightarrow> string option" where
  "extract_multipart_boundary content_type =
     find_map (\<lambda>part.
       Option.bind (strip_prefix (trim part) ''boundary='') (\<lambda>rest.
         let unquoted = unquote (trim rest) in if unquoted = [] then None else Some unquoted))
       (split_on (CHR '';'') content_type)"

text \<open>\<open>text.split(['\n', '\r'])\<close>.\<close>

fun split_lines :: "string \<Rightarrow> string list" where
  "split_lines [] = [[]]"
| "split_lines (c # s) =
     (if byte c = 10 \<or> byte c = 13 then [] # split_lines s
      else (case split_lines s of p # ps \<Rightarrow> (c # p) # ps | [] \<Rightarrow> [[c]]))"

definition disposition_name :: "string \<Rightarrow> string option" where
  "disposition_name line =
     (if starts_with (to_ascii_lowercase (trim line)) ''content-disposition:'' then
        find_map (\<lambda>token.
          Option.bind (strip_prefix (trim token) ''name='') (\<lambda>rest.
            let unquoted = unquote rest in if unquoted = [] then None else Some unquoted))
          (split_on (CHR '';'') (trim line))
      else None)"

definition extract_form_data_name :: "string \<Rightarrow> string option" where
  "extract_form_data_name part =
     (let header_end =
        unwrap_or (or_else (find_subsequence part [char_of (13::nat), char_of (10::nat), char_of (13::nat), char_of (10::nat)])
                           (find_subsequence part [char_of (10::nat), char_of (10::nat)])) (length part)
      in Option.bind (from_utf8 (take header_end part)) (\<lambda>header_text.
           find_map disposition_name (split_lines header_text)))"

text \<open>
  The loop over the parts. \<open>rest\<close> is \<open>raw_body[cursor..]\<close>; the names are collected in order and
  \<open>entry(name).or_insert\<close> keeps the first.
\<close>

function multipart_names :: "string \<Rightarrow> string \<Rightarrow> string list" where
  "multipart_names delimiter rest =
     (if rest = [] then []
      else
        (case find_subsequence rest delimiter of
           None \<Rightarrow> []
         | Some start \<Rightarrow>
             (let after = drop (start + length delimiter) rest;
                  part_len = unwrap_or (find_subsequence after delimiter) (length after);
                  part = take part_len after
              in (if part = [] then []
                  else (case extract_form_data_name part of Some name \<Rightarrow> [name] | None \<Rightarrow> []))
                 @ multipart_names delimiter (drop part_len after))))"
  by pat_completeness auto
termination
  by (relation "measure (\<lambda>(d, r). length r)") (auto simp: find_subsequence_def split: if_splits)

declare multipart_names.simps [simp del]

definition parse_multipart_field_names_to_json :: "string \<Rightarrow> string \<Rightarrow> json" where
  "parse_multipart_field_names_to_json content_type raw_body =
     (case extract_multipart_boundary content_type of
        None \<Rightarrow> JObj []
      | Some boundary \<Rightarrow>
          JObj (obj_of_list (map (\<lambda>name. (name, JStr [])) (multipart_names (''--'' @ boundary) raw_body))))"

section \<open>Dispatch on the content type\<close>

definition parse_request_body_for_validation_strict ::
  "(string \<Rightarrow> string + json) \<Rightarrow> string \<Rightarrow> string \<Rightarrow> validation_error + json" where
  "parse_request_body_for_validation_strict from_slice content_type raw_body =
     (let bare = bare_media content_type;
          lower = to_ascii_lowercase bare
      in if lower = ''application/json''
            \<or> starts_with lower ''application/'' \<and> ends_with lower ''+json'' then
           (if list_all is_ascii_whitespace raw_body then Inr JNull
            else (case from_slice raw_body of
                    Inr v \<Rightarrow> Inr v
                  | Inl e \<Rightarrow> Inl (verr LBody ''body'' ''type'' (''request body is not valid JSON: '' @ e))))
         else if lower = ''application/x-www-form-urlencoded'' then
           Inr (parse_form_urlencoded_to_json_value raw_body)
         else if lower = ''multipart/form-data'' then
           Inr (parse_multipart_field_names_to_json content_type raw_body)
         else if is_xml_content_type (Some lower) then Inr JNull
         else
           Inl (verr LBody ''body'' ''contentType''
             (''content type '' @ [CHR 0x27] @ bare @ [CHR 0x27] @ '' is not parseable for validation'')))"

definition parse_request_body_for_validation ::
  "(string \<Rightarrow> string + json) \<Rightarrow> string \<Rightarrow> string \<Rightarrow> json option" where
  "parse_request_body_for_validation from_slice content_type raw_body =
     (case parse_request_body_for_validation_strict from_slice content_type raw_body of
        Inr v \<Rightarrow> Some v
      | Inl e \<Rightarrow> None)"

section \<open>Form encoding\<close>

text \<open>The encoder of the URL standard, as the reference of the decoder: letters and digits stand for
  themselves, a space is \<open>+\<close>, every other byte is an escape.\<close>

definition alnum :: "char \<Rightarrow> bool" where
  "alnum c \<longleftrightarrow> 48 \<le> byte c \<and> byte c \<le> 57 \<or> 65 \<le> byte c \<and> byte c \<le> 90 \<or> 97 \<le> byte c \<and> byte c \<le> 122"

definition hex_char :: "nat \<Rightarrow> char" where
  "hex_char d = (if d < 10 then char_of (48 + d) else char_of (55 + d))"

definition form_encode_byte :: "char \<Rightarrow> string" where
  "form_encode_byte c =
     (if alnum c then [c]
      else if c = CHR '' '' then ''+''
      else [CHR ''%'', hex_char (byte c div 16), hex_char (byte c mod 16)])"

definition form_encode :: "string \<Rightarrow> string" where
  "form_encode s = concat (map form_encode_byte s)"

lemma hex_digit_hex_char [simp]: "d < 16 \<Longrightarrow> hex_digit (hex_char d) = Some d"
  by (simp add: hex_digit_def hex_char_def)

lemma alnum_not_special: "alnum c \<Longrightarrow> c \<noteq> CHR ''+'' \<and> c \<noteq> CHR ''%'' \<and> c \<noteq> CHR ''&'' \<and> c \<noteq> CHR ''=''"
  by (auto simp: alnum_def byte_def)

lemma hex_char_alnum: "d < 16 \<Longrightarrow> alnum (hex_char d)"
  by (simp add: alnum_def hex_char_def)

lemma char_of_byte: "char_of (byte c) = c"
  by (simp add: byte_def)

lemma decode_encode_byte: "decode_bytes (form_encode_byte c @ s) = c # decode_bytes s"
proof -
  have "byte c div 16 < 16" using byte_lt [of c] by linarith
  moreover have "byte c mod 16 < 16" by simp
  ultimately show ?thesis
    using alnum_not_special [of c]
    by (auto simp: form_encode_byte_def char_of_byte)
qed

lemma decode_bytes_encode: "decode_bytes (form_encode s) = s"
  by (induction s) (simp_all add: form_encode_def decode_encode_byte)

lemma form_encode_no_sep: "CHR ''&'' \<notin> set (form_encode s) \<and> CHR ''='' \<notin> set (form_encode s)"
proof (induction s)
  case (Cons c s)
  have "byte c div 16 < 16" using byte_lt [of c] by linarith
  then have "alnum (hex_char (byte c div 16))" "alnum (hex_char (byte c mod 16))"
    by (simp_all add: hex_char_alnum)
  then have "CHR ''&'' \<notin> set (form_encode_byte c) \<and> CHR ''='' \<notin> set (form_encode_byte c)"
    using alnum_not_special [of c] alnum_not_special [of "hex_char (byte c div 16)"]
      alnum_not_special [of "hex_char (byte c mod 16)"]
    by (auto simp: form_encode_byte_def)
  with Cons show ?case by (simp add: form_encode_def)
qed (simp add: form_encode_def)

definition form_body :: "(string \<times> string) list \<Rightarrow> string" where
  "form_body kvs = join ''&'' (map (\<lambda>(k, v). form_encode k @ CHR ''='' # form_encode v) kvs)"

lemma form_pair_encode:
  "utf8_valid k \<Longrightarrow> utf8_valid v \<Longrightarrow>
   form_pair (form_encode k @ CHR ''='' # form_encode v) = Some (k, v)"
  using form_encode_no_sep [of k]
  by (simp add: form_pair_def decode_form_urlencoded_bytes_def decode_bytes_encode from_utf8_def)

lemma form_pairs_body:
  assumes "\<forall>(k, v) \<in> set kvs. utf8_valid k \<and> utf8_valid v"
  shows "List.map_filter form_pair (split_on (CHR ''&'') (form_body kvs)) = kvs"
proof (cases "kvs = []")
  case True
  then show ?thesis by (simp add: form_body_def List.map_filter_def form_pair_def)
next
  case False
  let ?enc = "\<lambda>(k, v). form_encode k @ CHR ''='' # form_encode v"
  have "split_on (CHR ''&'') (form_body kvs) = map ?enc kvs"
    unfolding form_body_def using False form_encode_no_sep
    by (intro split_on_join) auto
  moreover have "List.map_filter form_pair (map ?enc kvs) = kvs"
    using assms by (induction kvs) (auto simp: List.map_filter_def form_pair_encode)
  ultimately show ?thesis by simp
qed

section \<open>Collected values\<close>

fun form_value :: "string list \<Rightarrow> json" where
  "form_value [v] = JStr v"
| "form_value vs = JArr (map JStr vs)"

definition values_of :: "string \<Rightarrow> (string \<times> string) list \<Rightarrow> string list" where
  "values_of k kvs = map snd (filter (\<lambda>e. fst e = k) kvs)"

definition collected :: "(string \<times> string) list \<Rightarrow> obj \<Rightarrow> bool" where
  "collected kvs m \<longleftrightarrow> sorted_map m \<and>
     (\<forall>k. map_of m k = (if values_of k kvs = [] then None else Some (form_value (values_of k kvs))))"

lemma form_value_snoc:
  "vs \<noteq> [] \<Longrightarrow> form_value (vs @ [v]) =
     (case form_value vs of JArr arr \<Rightarrow> JArr (arr @ [JStr v]) | existing \<Rightarrow> JArr [existing, JStr v])"
  by (cases vs rule: form_value.cases) auto

lemma add_form_value_eq:
  "sorted_map m \<Longrightarrow> add_form_value key new m =
     obj_insert key (case map_of m key of None \<Rightarrow> new
       | Some (JArr arr) \<Rightarrow> JArr (arr @ [new]) | Some existing \<Rightarrow> JArr [existing, new]) m"
  by (auto simp: add_form_value_def obj_insert_remove split: option.splits json.splits)

lemma collected_step:
  assumes "collected kvs m"
  shows "collected (kvs @ [(key, v)]) (add_form_value key (JStr v) m)"
proof -
  have m: "sorted_map m"
    "\<And>k. map_of m k = (if values_of k kvs = [] then None else Some (form_value (values_of k kvs)))"
    using assms by (auto simp: collected_def)
  have vals: "values_of k (kvs @ [(key, v)]) = (if k = key then values_of k kvs @ [v] else values_of k kvs)" for k
    by (simp add: values_of_def)
  have "map_of (add_form_value key (JStr v) m) key = Some (form_value (values_of key kvs @ [v]))"
    using m form_value_snoc [of "values_of key kvs" v]
    by (cases "values_of key kvs = []") (auto simp: add_form_value_eq split: json.splits)
  then show ?thesis
    unfolding collected_def vals using m
    by (auto simp: add_form_value_eq sorted_map_insert)
qed

lemma collected_fold:
  "collected kvs m \<Longrightarrow>
   collected (kvs @ es) (fold (\<lambda>(key, v) m. add_form_value key (JStr v) m) es m)"
proof (induction es arbitrary: kvs m)
  case (Cons e es)
  obtain key v where e: "e = (key, v)" by (cases e)
  from Cons.IH [OF collected_step [OF Cons.prems, of key v]] e show ?case by simp
qed simp

text \<open>
  C33: form bodies round-trip. The body that encodes a list of pairs of UTF-8 texts is parsed to the sorted
  object whose entry for a key is its value, or the array of its values in order when the key
  repeats; no other key is present.
\<close>

theorem form_body_roundtrip:
  assumes "\<forall>(k, v) \<in> set kvs. utf8_valid k \<and> utf8_valid v"
  shows "\<exists>m. parse_form_urlencoded_to_json_value (form_body kvs) = JObj m \<and> sorted_map m
    \<and> (\<forall>k. map_of m k =
         (let vs = map snd (filter (\<lambda>e. fst e = k) kvs)
          in if vs = [] then None else Some (form_value vs)))"
proof -
  have "collected kvs (fold (\<lambda>(key, v) m. add_form_value key (JStr v) m) kvs [])"
    using collected_fold [of "[]" "[]" kvs] by (simp add: collected_def values_of_def)
  then show ?thesis
    unfolding parse_form_urlencoded_to_json_value_def form_pairs_body [OF assms] collected_def
      values_of_def Let_def by blast
qed

theorem form_body_roundtrip_witness:
  "\<exists>m. parse_form_urlencoded_to_json_value (form_body [(''a b'', ''1''), (''c'', ''&''), (''a b'', ''2'')]) = JObj m
    \<and> map_of m ''a b'' = Some (JArr [JStr ''1'', JStr ''2''])"
proof -
  have "\<forall>(k, v) \<in> set [(''a b'', ''1''), (''c'', ''&''), (''a b'', ''2'')]. utf8_valid k \<and> utf8_valid v"
    by (simp add: byte_def)
  from form_body_roundtrip [OF this] obtain m where
    m: "parse_form_urlencoded_to_json_value (form_body [(''a b'', ''1''), (''c'', ''&''), (''a b'', ''2'')]) = JObj m"
    "map_of m ''a b'' = Some (JArr [JStr ''1'', JStr ''2''])"
    by (auto simp: Let_def)
  then show ?thesis by blast
qed

section \<open>Multipart\<close>

text \<open>A part is delimited: the delimiter occurs neither in it nor across its end.\<close>

definition delimited :: "string \<Rightarrow> string \<Rightarrow> bool" where
  "delimited d p \<longleftrightarrow> find_subsequence (p @ d) d = Some (length p)"

lemma find_sub_length: "find_sub h n = Some i \<Longrightarrow> i + length n \<le> length h"
  using find_sub_SomeD [of h n i] by (metis add_le_mono le_add1 length_append length_take min_absorb2 add.assoc)

lemma find_sub_extend: "find_sub h n = Some i \<Longrightarrow> find_sub (h @ r) n = Some i"
proof (induction h n arbitrary: i rule: find_sub.induct)
  case (1 n)
  then show ?case by (cases r) (auto simp: starts_with_def split: if_splits)
next
  case (2 x xs n)
  have "length n \<le> length (x # xs)" using find_sub_length [OF "2.prems"] by simp
  then have "starts_with (x # xs @ r) n = starts_with (x # xs) n"
    by (simp add: starts_with_def take_Cons' )
  with 2 show ?case by (auto split: if_splits)
qed

lemma find_subsequence_delimited:
  "delimited d p \<Longrightarrow> find_subsequence (p @ d @ r) d = Some (length p)"
  using find_sub_extend [of "p @ d" d "length p" r]
  by (auto simp: delimited_def find_subsequence_def split: if_splits)

lemma delimited_Nil: "d \<noteq> [] \<Longrightarrow> delimited d []"
  by (cases d) (auto simp: delimited_def find_subsequence_def starts_with_def)

lemma extract_Nil [simp]: "extract_form_data_name [] = None"
  by (simp add: extract_form_data_name_def find_subsequence_def from_utf8_def disposition_name_def
      to_ascii_lowercase_def starts_with_def)

lemma set_map_filter_iff: "y \<in> set (List.map_filter f xs) \<longleftrightarrow> Some y \<in> f ` set xs"
  by (induction xs) (auto simp: List.map_filter_def split: option.splits)

lemma multipart_names_step:
  assumes "d \<noteq> []" and "delimited d pre"
    and "part_len = unwrap_or (find_subsequence rest d) (length rest)"
  shows "multipart_names d (pre @ d @ rest) =
    List.map_filter extract_form_data_name [take part_len rest] @ multipart_names d (drop part_len rest)"
  using assms find_subsequence_delimited [OF assms(2), of rest]
  by (subst multipart_names.simps) (auto simp: Let_def List.map_filter_def split: option.splits)

lemma multipart_names_parts:
  assumes "d \<noteq> []" and "ps \<noteq> []" and "delimited d pre"
    and "\<forall>p \<in> set (butlast ps). delimited d p" and "find_subsequence (last ps) d = None"
  shows "multipart_names d (pre @ concat (map (\<lambda>p. d @ p) ps)) = List.map_filter extract_form_data_name ps"
  using assms(2-)
proof (induction ps arbitrary: pre)
  case (Cons p ps)
  show ?case
  proof (cases "ps = []")
    case True
    have "multipart_names d (pre @ d @ p) = List.map_filter extract_form_data_name [p] @ multipart_names d []"
      using multipart_names_step [OF assms(1) Cons.prems(2), of "length p" p] Cons.prems(4) True by simp
    also have "multipart_names d [] = []" by (subst multipart_names.simps) simp
    finally show ?thesis using True by simp
  next
    case False
    then obtain q qs where ps: "ps = q # qs" by (cases ps) auto
    have p: "delimited d p" using Cons.prems(3) False by simp
    let ?rest = "concat (map (\<lambda>p. d @ p) ps)"
    have "multipart_names d (pre @ d @ (p @ ?rest)) =
        List.map_filter extract_form_data_name [p] @ multipart_names d ?rest"
      using multipart_names_step [OF assms(1) Cons.prems(2), of "length p" "p @ ?rest"]
        find_subsequence_delimited [OF p] ps by simp
    also have "multipart_names d ?rest = List.map_filter extract_form_data_name ps"
      using Cons.IH [of "[]"] Cons.prems(3,4) False delimited_Nil [OF assms(1)] by simp
    finally show ?thesis by (simp add: List.map_filter_def)
  qed
qed simp

text \<open>
  The scan of a multipart body finds its parts. In a body made of a preamble and parts, each
  introduced by the delimiter and none containing it, the object has exactly the names the parts
  declare.
\<close>

theorem multipart_fields:
  assumes "extract_multipart_boundary content_type = Some b" and "ps \<noteq> []"
    and "delimited (''--'' @ b) pre" and "\<forall>p \<in> set (butlast ps). delimited (''--'' @ b) p"
    and "find_subsequence (last ps) (''--'' @ b) = None"
  shows "\<exists>m. parse_multipart_field_names_to_json content_type
               (pre @ concat (map (\<lambda>p. (''--'' @ b) @ p) ps)) = JObj m \<and> sorted_map m
    \<and> (\<forall>k. map_of m k =
         (if Some k \<in> extract_form_data_name ` set ps then Some (JStr []) else None))"
proof -
  let ?ns = "List.map_filter extract_form_data_name ps"
  let ?m = "obj_of_list (map (\<lambda>name. (name, JStr [])) ?ns)"
  have "map_of ?m k = (if k \<in> set ?ns then Some (JStr []) else None)" for k
    by (auto simp: map_of_obj_of_list map_of_eq_None_iff rev_map map_of_map_restrict [of "\<lambda>_. JStr []"])
  moreover have "k \<in> set ?ns \<longleftrightarrow> Some k \<in> extract_form_data_name ` set ps" for k
    by (simp add: set_map_filter_iff)
  ultimately show ?thesis
    using multipart_names_parts [OF _ assms(2-5)] assms(1)
    by (simp add: parse_multipart_field_names_to_json_def sorted_obj_of_list)
qed

definition crlf :: string where
  "crlf = [char_of (13::nat), char_of (10::nat)]"

theorem multipart_fields_witness:
  "\<exists>m. parse_multipart_field_names_to_json ''multipart/form-data; boundary=XY''
     ([] @ concat (map (\<lambda>p. (''--'' @ ''XY'') @ p)
        [crlf @ ''Content-Disposition: form-data; name=a'' @ crlf @ crlf @ ''1'' @ crlf, ''--'' @ crlf])) = JObj m
   \<and> map_of m ''a'' = Some (JStr [])"
proof -
  let ?p = "crlf @ ''Content-Disposition: form-data; name=a'' @ crlf @ crlf @ ''1'' @ crlf"
  have b: "extract_multipart_boundary ''multipart/form-data; boundary=XY'' = Some ''XY''" by code_simp
  have d: "delimited (''--'' @ ''XY'') []" "\<forall>p \<in> set (butlast [?p, ''--'' @ crlf]). delimited (''--'' @ ''XY'') p"
    by code_simp+
  have l: "find_subsequence (last [?p, ''--'' @ crlf]) (''--'' @ ''XY'') = None" by code_simp
  have "extract_form_data_name ?p = Some ''a''" by code_simp
  with multipart_fields [OF b _ d l] show ?thesis by (auto simp del: append.simps)
qed

end
