(* ===== verification/Static.thy ===== *)
theory Static
  imports Types
begin

text \<open>
  The faker's deterministic side: options (\<open>options.rs\<close>), the merge of \<open>allOf\<close> branches
  (\<open>merge.rs\<close>), reference resolution inside a JSON document (\<open>ref_resolver.rs\<close>) and static generation
  (\<open>walk_static\<close> and its helpers in \<open>lib.rs\<close>).
\<close>

section \<open>Options\<close>

record generate_options =
  go_seed :: "u64 option"
  go_max_depth :: nat
  go_always_fake_optionals :: bool
  go_optionals_probability :: "f64 option"
  go_use_default_value :: bool
  go_use_examples_value :: bool
  go_ref_depth_min :: nat
  go_ref_depth_max :: nat
  go_ignore_properties :: "string list"
  go_prune_properties :: "string list"
  go_required_only :: bool
  go_fail_on_invalid_type :: bool
  go_fail_on_invalid_format :: bool
  go_fixed_probabilities :: bool
  go_min_items :: "nat option"
  go_max_items :: "nat option"
  go_default_invalid_type_product :: "json option"
  go_external_refs :: "json str_map"
  go_fill_properties :: bool
  go_omit_nulls :: bool
  go_min_date_time :: "string option"
  go_max_date_time :: "string option"
  go_prop_aliases :: "string str_map"
  go_max_default_items :: "nat option"
  go_validate_schema_version :: bool
  go_output_transform :: "(json \<Rightarrow> json \<Rightarrow> json) option"

definition generate_options_default :: generate_options where
  "generate_options_default =
     \<lparr>go_seed = None, go_max_depth = 5, go_always_fake_optionals = False,
      go_optionals_probability = None, go_use_default_value = False, go_use_examples_value = False,
      go_ref_depth_min = 0, go_ref_depth_max = 3, go_ignore_properties = [], go_prune_properties = [],
      go_required_only = False, go_fail_on_invalid_type = True, go_fail_on_invalid_format = False,
      go_fixed_probabilities = False, go_min_items = None, go_max_items = None,
      go_default_invalid_type_product = None, go_external_refs = [], go_fill_properties = True,
      go_omit_nulls = False, go_min_date_time = None, go_max_date_time = None, go_prop_aliases = [],
      go_max_default_items = None, go_validate_schema_version = False, go_output_transform = None\<rparr>"

section \<open>Merging\<close>

definition ARRAY_CONCAT_KEYS :: "string list" where
  "ARRAY_CONCAT_KEYS = [''required'', ''allOf'', ''anyOf'', ''oneOf'']"

definition merge_arrays_dedup :: "json \<Rightarrow> json \<Rightarrow> json" where
  "merge_arrays_dedup base overlay =
     (let combined = (case base of JArr arr \<Rightarrow> arr | _ \<Rightarrow> [])
      in JArr (case overlay of
                 JArr arr \<Rightarrow> fold (\<lambda>item acc. if item \<in> set acc then acc else acc @ [item]) arr combined
               | _ \<Rightarrow> combined))"

fun deep_merge :: "json \<Rightarrow> json \<Rightarrow> json"
  and merge_entries :: "obj \<Rightarrow> obj \<Rightarrow> obj" where
  "deep_merge (JObj base_map) (JObj overlay_map) = JObj (merge_entries base_map overlay_map)"
| "deep_merge base overlay = overlay"
| "merge_entries base_map [] = base_map"
| "merge_entries base_map ((key, overlay_val) # rest) =
     merge_entries
       (obj_insert key
         (case map_of base_map key of
            Some base_val \<Rightarrow>
              if key \<in> set ARRAY_CONCAT_KEYS then merge_arrays_dedup base_val overlay_val
              else deep_merge base_val overlay_val
          | None \<Rightarrow> overlay_val)
         (obj_remove key base_map))
       rest"

section \<open>References\<close>

text \<open>\<open>s.find(c)\<close> and \<open>s.rfind(c)\<close> with the slices taken at them.\<close>

definition before_first :: "char \<Rightarrow> string \<Rightarrow> string option" where
  "before_first c s = map_option fst (split_once c s)"

definition upto_last :: "char \<Rightarrow> string \<Rightarrow> string" where
  "upto_last c s = rev (dropWhile (\<lambda>x. x \<noteq> c) (rev s))"

definition resolve_against_base :: "string option \<Rightarrow> string \<Rightarrow> string" where
  "resolve_against_base base_opt ident =
     (case base_opt of
        None \<Rightarrow> ident
      | Some base \<Rightarrow>
          if find_sub ident ''://'' \<noteq> None then ident
          else
            (case strip_prefix ident ''#'' of
               Some stripped \<Rightarrow>
                 (case before_first (CHR ''#'') base of
                    Some b \<Rightarrow> b @ ''#'' @ stripped
                  | None \<Rightarrow> base @ ''#'' @ stripped)
             | None \<Rightarrow>
                 (let base_no_frag = unwrap_or (before_first (CHR ''#'') base) base;
                      dir = upto_last (CHR ''/'') base_no_frag
                  in dir @ unwrap_or (strip_prefix ident ''./'') ident)))"

text \<open>The index is a \<open>HashMap\<close>: the entry inserted last is in front.\<close>

type_synonym id_map = "string list str_map"

definition index_id :: "string option \<Rightarrow> string list \<Rightarrow> string \<Rightarrow> id_map \<Rightarrow> id_map" where
  "index_id base path ident m =
     (let resolved = resolve_against_base base ident
      in if resolved \<noteq> ident then (resolved, path) # (ident, path) # m else (ident, path) # m)"

definition str_entry :: "obj \<Rightarrow> string \<Rightarrow> string option" where
  "str_entry m k = Option.bind (map_of m k) as_str"

definition rebase :: "string option \<Rightarrow> obj \<Rightarrow> string option" where
  "rebase base m =
     (let new_base = (case str_entry m ''$id'' of
                        Some i \<Rightarrow> Some (resolve_against_base base i) | None \<Rightarrow> base)
      in case str_entry m ''id'' of
           Some i \<Rightarrow> (if new_base = None then Some (resolve_against_base base i) else new_base)
         | None \<Rightarrow> new_base)"

fun collect_ids :: "json \<Rightarrow> string list \<Rightarrow> id_map \<Rightarrow> string option \<Rightarrow> id_map"
  and collect_children :: "obj \<Rightarrow> string list \<Rightarrow> id_map \<Rightarrow> string option \<Rightarrow> id_map" where
  "collect_ids (JObj m) path ids base =
     (let ids1 = (case str_entry m ''$id'' of Some i \<Rightarrow> index_id base path i ids | None \<Rightarrow> ids);
          ids2 = (case str_entry m ''id'' of Some i \<Rightarrow> index_id base path i ids1 | None \<Rightarrow> ids1);
          ids3 = (case str_entry m ''$anchor'' of Some a \<Rightarrow> (a, path) # ids2 | None \<Rightarrow> ids2)
      in collect_children m path ids3 (rebase base m))"
| "collect_ids v path ids base = ids"
| "collect_children [] path ids base = ids"
| "collect_children ((key, child) # rest) path ids base =
     collect_children rest path (collect_ids child (path @ [key]) ids base) base"

fun resolve_parts :: "string list \<Rightarrow> json \<Rightarrow> json option" where
  "resolve_parts [] current = Some current"
| "resolve_parts (part # parts) current =
     (let key = replace_all ''~0'' ''~'' (replace_all ''~1'' ''/'' part)
      in case current of
           JObj m \<Rightarrow> Option.bind (map_of m key) (resolve_parts parts)
         | JArr arr \<Rightarrow>
             Option.bind (parse_usize key) (\<lambda>i.
               if i < length arr then resolve_parts parts (arr ! i) else None)
         | _ \<Rightarrow> None)"

record ref_resolver =
  rr_root :: json
  rr_id_map :: id_map
  rr_external :: "json str_map option"
  rr_min_depth :: nat
  rr_max_depth :: nat

definition usize_max :: nat where
  "usize_max = 2 ^ 64 - 1"

definition resolver_new :: "json \<Rightarrow> ref_resolver" where
  "resolver_new doc =
     \<lparr>rr_root = doc, rr_id_map = collect_ids doc [] [] None, rr_external = None,
      rr_min_depth = 0, rr_max_depth = usize_max\<rparr>"

definition with_external :: "json str_map \<Rightarrow> ref_resolver \<Rightarrow> ref_resolver" where
  "with_external external r = (if external = [] then r else r\<lparr>rr_external := Some external\<rparr>)"

definition with_depth_window :: "nat \<Rightarrow> nat \<Rightarrow> ref_resolver \<Rightarrow> ref_resolver" where
  "with_depth_window mn mx r = r\<lparr>rr_min_depth := mn, rr_max_depth := max mx mn\<rparr>"

definition resolve_pointer :: "ref_resolver \<Rightarrow> string \<Rightarrow> json option" where
  "resolve_pointer r pointer = resolve_parts (split_on (CHR ''/'') pointer) (rr_root r)"

definition resolve_path :: "ref_resolver \<Rightarrow> string list \<Rightarrow> json option" where
  "resolve_path r path = resolve_parts path (rr_root r)"

text \<open>The target of a reference that has not been visited.\<close>

definition resolve_target :: "ref_resolver \<Rightarrow> string \<Rightarrow> json option" where
  "resolve_target r ref_str =
     (if ref_str = ''#'' then Some (rr_root r)
      else
        case strip_prefix ref_str ''#/'' of
          Some rest \<Rightarrow> resolve_pointer r rest
        | None \<Rightarrow>
            (case strip_prefix ref_str ''#'' of
               Some anchor \<Rightarrow>
                 (case or_else (map_of (rr_id_map r) anchor) (map_of (rr_id_map r) ref_str) of
                    Some path \<Rightarrow> resolve_path r path
                  | None \<Rightarrow> Some (rr_root r))
             | None \<Rightarrow>
                 (case Option.bind (rr_external r) (\<lambda>m. map_of m ref_str) of
                    Some v \<Rightarrow> Some v
                  | None \<Rightarrow> Option.bind (map_of (rr_id_map r) ref_str) (resolve_path r))))"

definition resolve :: "ref_resolver \<Rightarrow> string \<Rightarrow> string list \<Rightarrow> json option \<times> string list" where
  "resolve r ref_str visited =
     (if rr_max_depth r \<le> length visited then (None, visited)
      else if ref_str \<in> set visited then (None, visited)
      else (resolve_target r ref_str, visited @ [ref_str]))"

text \<open>The use with a fresh list of visited references.\<close>

definition resolve_ref :: "json \<Rightarrow> generate_options \<Rightarrow> string \<Rightarrow> json option" where
  "resolve_ref doc opts ref_str =
     fst (resolve (with_external (go_external_refs opts) (resolver_new doc)) ref_str [])"

section \<open>Static generation\<close>

definition json_get :: "json \<Rightarrow> string \<Rightarrow> json option" where
  "json_get v k = Option.bind (as_object v) (\<lambda>m. map_of m k)"

definition static_terminal :: "json \<Rightarrow> json" where
  "static_terminal s =
     (case Option.bind (json_get s ''type'') as_str of
        Some t \<Rightarrow>
          if t = ''string'' then JStr []
          else if t = ''number'' \<or> t = ''integer'' then JNum (JInt 0)
          else if t = ''boolean'' then JBool False
          else if t = ''array'' then JArr []
          else if t = ''object'' then JObj []
          else JNull
      | None \<Rightarrow> JNull)"

definition infer_static_type :: "obj \<Rightarrow> string" where
  "infer_static_type m =
     (if contains_key m ''properties'' \<or> contains_key m ''required'' then ''object''
      else if contains_key m ''items'' \<or> contains_key m ''prefixItems'' \<or> contains_key m ''minItems''
      then ''array''
      else if contains_key m ''minLength'' \<or> contains_key m ''maxLength'' \<or> contains_key m ''pattern''
      then ''string''
      else if contains_key m ''minimum'' \<or> contains_key m ''maximum'' then ''number''
      else [])"

definition canonical_format_value :: "string \<Rightarrow> string option" where
  "canonical_format_value format =
     (if format \<in> set [''date-time'', ''datetime'', ''iso-date-time''] then Some ''2020-01-01T00:00:00Z''
      else if format \<in> set [''date'', ''iso-date'', ''full-date''] then Some ''2020-01-01''
      else if format \<in> set [''time'', ''partial-time''] then Some ''00:00:00Z''
      else if format = ''duration'' then Some ''P1D''
      else if format \<in> set [''uuid'', ''uuid1'', ''uuid3'', ''uuid4'', ''uuid5'', ''guid'']
      then Some ''00000000-0000-4000-8000-000000000000''
      else if format \<in> set [''email'', ''idn-email''] then Some ''user@example.com''
      else if format \<in> set [''uri'', ''url'', ''uri-reference'', ''iri'', ''iri-reference'']
      then Some ''https://example.com''
      else if format = ''uri-template'' then Some ''https://example.com/{id}''
      else if format \<in> set [''hostname'', ''idn-hostname''] then Some ''example.com''
      else if format = ''ipv4'' then Some ''192.0.2.0''
      else if format = ''ipv6'' then Some ''2001:db8::''
      else if format = ''json-pointer'' then Some ''/example''
      else if format = ''relative-json-pointer'' then Some ''0''
      else if format = ''byte'' then Some ''ZXhhbXBsZQ==''
      else if format = ''base64url'' then Some ''ZXhhbXBsZQ''
      else if format = ''binary'' then Some ''binary''
      else if format = ''password'' then Some ''password''
      else if format = ''hex-color'' then Some ''#000000''
      else None)"

definition static_string :: "obj \<Rightarrow> json" where
  "static_string m =
     (case Option.bind (str_entry m ''format'') canonical_format_value of
        Some canonical \<Rightarrow> JStr canonical
      | None \<Rightarrow> JStr [])"

text \<open>
  \<open>rec\<close> is the recursive call of the walker: schema, references being followed, depth.
\<close>

type_synonym static_walker = "json \<Rightarrow> string list \<Rightarrow> nat \<Rightarrow> json run"

text \<open>The items built one after the other.\<close>

fun run_all :: "'a run list \<Rightarrow> 'a list run" where
  "run_all [] = Done []"
| "run_all (r # rs) = run_bind r (\<lambda>x. run_map (\<lambda>xs. x # xs) (run_all rs))"

text \<open>\<open>while out.len() < target\<close>: every element is the same call.\<close>

function fill_items :: "json run \<Rightarrow> nat \<Rightarrow> nat \<Rightarrow> json list \<Rightarrow> json list run" where
  "fill_items element target min_items out =
     (if length out < target then
        run_bind element (\<lambda>e.
          if e = JNull \<and> min_items \<le> length out then Done out
          else fill_items element target min_items (out @ [e]))
      else Done out)"
  by pat_completeness auto
termination
  by (relation "measure (\<lambda>(e, t, m, out). t - length out)") auto

declare fill_items.simps [simp del]

definition nat_entry :: "obj \<Rightarrow> string \<Rightarrow> nat option" where
  "nat_entry m k = Option.bind (map_of m k) as_u64"

definition prefix_schemas :: "obj \<Rightarrow> json list" where
  "prefix_schemas m =
     unwrap_or (or_else (Option.bind (map_of m ''prefixItems'') as_array)
                        (Option.bind (map_of m ''items'') as_array)) []"

definition item_schema :: "obj \<Rightarrow> json option" where
  "item_schema m =
     Option.bind (map_of m ''items'') (\<lambda>v. if as_object v \<noteq> None then Some v else None)"

definition item_target :: "generate_options \<Rightarrow> obj \<Rightarrow> nat" where
  "item_target opts m =
     (let min_items = unwrap_or (nat_entry m ''minItems'') 0 in
      if go_always_fake_optionals opts \<and> item_schema m \<noteq> None then
        (case nat_entry m ''maxItems'' of
           Some mx \<Rightarrow> min (max min_items 3) mx
         | None \<Rightarrow> max min_items 3)
      else min_items)"

definition static_array :: "generate_options \<Rightarrow> static_walker \<Rightarrow> json \<Rightarrow> string list \<Rightarrow> nat \<Rightarrow> json run" where
  "static_array opts rec s visited depth =
     (case as_object s of
        None \<Rightarrow> Done (JArr [])
      | Some m \<Rightarrow>
          run_bind (run_all (map (\<lambda>item. rec item visited (depth + 1)) (prefix_schemas m))) (\<lambda>out.
            run_map JArr
              (fill_items (rec (unwrap_or (item_schema m) (JObj [])) visited (depth + 1))
                 (item_target opts m) (unwrap_or (nat_entry m ''minItems'') 0) out)))"

definition required_names :: "obj \<Rightarrow> string list" where
  "required_names m =
     List.map_filter as_str (unwrap_or (Option.bind (map_of m ''required'') as_array) [])"

definition object_properties :: "obj \<Rightarrow> obj" where
  "object_properties m = unwrap_or (Option.bind (map_of m ''properties'') as_object) []"

text \<open>The first loop: the declared properties that are required or always generated.\<close>

fun static_properties ::
  "bool \<Rightarrow> string list \<Rightarrow> (json \<Rightarrow> json run) \<Rightarrow> obj \<Rightarrow> obj \<Rightarrow> obj run" where
  "static_properties always required gen [] out = Done out"
| "static_properties always required gen ((key, s) # ps) out =
     (if key \<in> set required \<or> always then
        run_bind (gen s) (\<lambda>v. static_properties always required gen ps (obj_insert key v out))
      else static_properties always required gen ps out)"

text \<open>The second loop: required names that no property declares.\<close>

fun static_required :: "(json \<Rightarrow> json run) \<Rightarrow> string list \<Rightarrow> obj \<Rightarrow> obj run" where
  "static_required gen [] out = Done out"
| "static_required gen (key # ks) out =
     (if contains_key out key then static_required gen ks out
      else run_bind (gen (JObj [])) (\<lambda>v. static_required gen ks (obj_insert key v out)))"

definition static_object :: "generate_options \<Rightarrow> static_walker \<Rightarrow> json \<Rightarrow> string list \<Rightarrow> nat \<Rightarrow> json run" where
  "static_object opts rec s visited depth =
     (case as_object s of
        None \<Rightarrow> Done (JObj [])
      | Some m \<Rightarrow>
          run_bind
            (static_properties (go_always_fake_optionals opts) (required_names m)
               (\<lambda>p. rec p visited (depth + 1)) (object_properties m) [])
            (\<lambda>out. run_map JObj
               (static_required (\<lambda>p. rec p visited (depth + 1)) (required_names m) out)))"

text \<open>\<open>allOf\<close>: the branches, references followed once, merged in order; then the keys beside \<open>allOf\<close>.\<close>

definition all_of_branch :: "json \<Rightarrow> generate_options \<Rightarrow> json \<Rightarrow> json" where
  "all_of_branch doc opts sub =
     (case Option.bind (json_get sub ''$ref'') as_str of
        Some ref_str \<Rightarrow> unwrap_or (resolve_ref doc opts ref_str) sub
      | None \<Rightarrow> sub)"

definition merge_all_of :: "json \<Rightarrow> generate_options \<Rightarrow> obj \<Rightarrow> json list \<Rightarrow> json" where
  "merge_all_of doc opts m arr =
     (case fold (\<lambda>sub merged. deep_merge merged (all_of_branch doc opts sub)) arr (JObj []) of
        JObj merged \<Rightarrow>
          JObj (obj_remove ''allOf''
            (fold (\<lambda>(k, v) acc. if k \<noteq> ''allOf'' \<and> \<not> contains_key acc k then obj_insert k v acc else acc)
              m merged))
      | v \<Rightarrow> v)"

definition first_element :: "obj \<Rightarrow> string \<Rightarrow> json option" where
  "first_element m k =
     Option.bind (map_of m k) (\<lambda>v. case v of JArr (x # xs) \<Rightarrow> Some x | _ \<Rightarrow> None)"

definition static_type :: "obj \<Rightarrow> string" where
  "static_type m =
     (case map_of m ''type'' of
        Some (JStr t) \<Rightarrow> t
      | Some (JArr arr) \<Rightarrow> unwrap_or (find_map as_str arr) []
      | _ \<Rightarrow> infer_static_type m)"

definition static_by_type :: "generate_options \<Rightarrow> static_walker \<Rightarrow> obj \<Rightarrow> string list \<Rightarrow> nat \<Rightarrow> json run" where
  "static_by_type opts rec m visited depth =
     (let t = static_type m in
      if t = ''string'' then Done (static_string m)
      else if t = ''number'' \<or> t = ''integer'' then Done (JNum (JInt 0))
      else if t = ''boolean'' then Done (JBool False)
      else if t = ''null'' then Done JNull
      else if t = ''array'' then static_array opts rec (JObj m) visited depth
      else if t = ''object'' then static_object opts rec (JObj m) visited depth
      else Done JNull)"

text \<open>A value the schema names itself: \<open>const\<close>, the first of \<open>enum\<close>, an example.\<close>

definition given_value :: "generate_options \<Rightarrow> obj \<Rightarrow> json option" where
  "given_value opts m =
     or_else (map_of m ''const'')
    (or_else (first_element m ''enum'')
       (if go_use_examples_value opts
        then or_else (first_element m ''examples'') (map_of m ''example'') else None))"

definition static_step :: "generate_options \<Rightarrow> json \<Rightarrow> static_walker \<Rightarrow> static_walker" where
  "static_step opts doc rec s visited depth =
     (if go_max_depth opts \<le> depth then Done (static_terminal s)
      else
        case as_object s of
          None \<Rightarrow> Done JNull
        | Some m \<Rightarrow>
            (case str_entry m ''$ref'' of
               Some ref_str \<Rightarrow>
                 if ref_str \<in> set visited then Done (static_terminal s)
                 else
                   (case resolve_ref doc opts ref_str of
                      Some resolved \<Rightarrow> rec resolved (visited @ [ref_str]) depth
                    | None \<Rightarrow> Done JNull)
             | None \<Rightarrow>
                 (case given_value opts m of
                    Some v \<Rightarrow> Done v
                  | None \<Rightarrow>
                      (case Option.bind (map_of m ''allOf'') as_array of
                         Some arr \<Rightarrow> rec (merge_all_of doc opts m arr) visited (depth + 1)
                       | None \<Rightarrow>
                           (case or_else (first_element m ''anyOf'') (first_element m ''oneOf'') of
                              Some first \<Rightarrow> rec first visited (depth + 1)
                            | None \<Rightarrow>
                                (case (if go_use_default_value opts then map_of m ''default'' else None) of
                                   Some v \<Rightarrow> Done v
                                 | None \<Rightarrow> static_by_type opts rec m visited depth))))))"

primrec walk_static :: "generate_options \<Rightarrow> json \<Rightarrow> nat \<Rightarrow> static_walker" where
  "walk_static opts doc 0 = (\<lambda>s visited depth. Fuel)"
| "walk_static opts doc (Suc n) = static_step opts doc (walk_static opts doc n)"

definition apply_output_transform :: "json \<Rightarrow> json \<Rightarrow> generate_options \<Rightarrow> json" where
  "apply_output_transform result s opts =
     (case go_output_transform opts of Some transform \<Rightarrow> transform result s | None \<Rightarrow> result)"

definition generate_static :: "nat \<Rightarrow> json \<Rightarrow> generate_options \<Rightarrow> json run" where
  "generate_static n s opts =
     run_map (\<lambda>v. apply_output_transform v s opts) (walk_static opts s n s [] 0)"

end
