(* ===== verification/StaticFacts.thy ===== *)
theory StaticFacts
  imports Static Formats
begin

text \<open>
  Facts about the faker's static side: generation returns within a computed budget, the shape of generated
  objects and arrays, what composition loses, and the resolution of references.
\<close>

section \<open>Strings of a document\<close>

fun strings_of :: "json \<Rightarrow> string list" where
  "strings_of (JStr s) = [s]"
| "strings_of (JArr xs) = concat (map strings_of xs)"
| "strings_of (JObj m) = concat (map (\<lambda>e. strings_of (snd e)) m)"
| "strings_of _ = []"

abbreviation strs :: "json \<Rightarrow> string set" where
  "strs v \<equiv> set (strings_of v)"

definition obj_strs :: "obj \<Rightarrow> string set" where
  "obj_strs m = strs (JObj m)"

lemma obj_strs_Nil [simp]: "obj_strs [] = {}"
  by (simp add: obj_strs_def)

lemma obj_strs_Cons [simp]: "obj_strs ((k, v) # m) = strs v \<union> obj_strs m"
  by (simp add: obj_strs_def)

lemma obj_strs_lookup: "map_of m k = Some v \<Longrightarrow> strs v \<subseteq> obj_strs m"
  using map_of_SomeD [of m k v] by (force simp: obj_strs_def)

lemma obj_strs_insert: "obj_strs (obj_insert k v m) \<subseteq> strs v \<union> obj_strs m"
  by (induction k v m rule: obj_insert.induct) auto

lemma obj_strs_remove: "obj_strs (obj_remove k m) \<subseteq> obj_strs m"
  by (auto simp: obj_strs_def obj_remove_def)

lemma strs_element: "x \<in> set xs \<Longrightarrow> strs x \<subseteq> strs (JArr xs)"
  by auto

lemma as_object_eq: "as_object v = Some m \<longleftrightarrow> v = JObj m"
  by (cases v) (auto simp: as_object_def)

lemma as_array_eq: "as_array v = Some xs \<longleftrightarrow> v = JArr xs"
  by (cases v) (auto simp: as_array_def)

lemma as_str_eq: "as_str v = Some s \<longleftrightarrow> v = JStr s"
  by (cases v) (auto simp: as_str_def)

lemma str_entry_strs: "str_entry m k = Some s \<Longrightarrow> s \<in> obj_strs m"
  using obj_strs_lookup [of m k "JStr s"] by (auto simp: str_entry_def bind_eq_Some_conv as_str_eq)

lemma first_element_strs: "first_element m k = Some v \<Longrightarrow> strs v \<subseteq> obj_strs m"
proof -
  assume "first_element m k = Some v"
  then obtain xs where xs: "map_of m k = Some (JArr (v # xs))"
    by (cases "map_of m k"; cases "the (map_of m k)"; cases "the (as_array (the (map_of m k)))")
       (auto simp: first_element_def as_array_def split: list.splits)
  have "strs v \<subseteq> strs (JArr (v # xs))" by simp
  also have "\<dots> \<subseteq> obj_strs m" by (rule obj_strs_lookup [OF xs])
  finally show ?thesis .
qed

section \<open>Merging and resolving add no string\<close>

lemma fold_dedup_set: "set (fold (\<lambda>item acc. if item \<in> set acc then acc else acc @ [item]) arr acc) = set acc \<union> set arr"
  by (induction arr arbitrary: acc) auto

lemma strs_merge_arrays: "strs (merge_arrays_dedup a b) \<subseteq> strs a \<union> strs b"
  by (cases a; cases b) (auto simp: merge_arrays_dedup_def fold_dedup_set)

lemma strs_deep_merge:
  "strs (deep_merge a b) \<subseteq> strs a \<union> strs b"
  "obj_strs (merge_entries m es) \<subseteq> obj_strs m \<union> obj_strs es"
proof (induction a b and m es rule: deep_merge_merge_entries.induct)
  case (4 m key v rest)
  let ?new = "case map_of m key of
      Some old \<Rightarrow> if key \<in> set ARRAY_CONCAT_KEYS then merge_arrays_dedup old v else deep_merge old v
    | None \<Rightarrow> v"
  have "strs ?new \<subseteq> obj_strs m \<union> strs v"
  proof (cases "map_of m key")
    case (Some old)
    then have "strs old \<subseteq> obj_strs m" by (rule obj_strs_lookup)
    moreover have "strs (if key \<in> set ARRAY_CONCAT_KEYS then merge_arrays_dedup old v else deep_merge old v)
        \<subseteq> strs old \<union> strs v"
      using strs_merge_arrays [of old v] "4.IH"(1) [OF Some] by auto
    ultimately show ?thesis using Some by auto
  qed simp
  moreover have "obj_strs (obj_insert key ?new (obj_remove key m)) \<subseteq> strs ?new \<union> obj_strs m"
    using obj_strs_insert [of key ?new "obj_remove key m"] obj_strs_remove [of key m] by blast
  ultimately show ?case using "4.IH"(2) by auto
qed (auto simp: obj_strs_def)

lemma strs_resolve_parts: "resolve_parts ps v = Some w \<Longrightarrow> strs w \<subseteq> strs v"
proof (induction ps arbitrary: v)
  case (Cons p ps)
  show ?case
  proof (cases v)
    case (JObj m)
    with Cons.prems obtain u where "map_of m (replace_all ''~0'' ''~'' (replace_all ''~1'' ''/'' p)) = Some u"
      "resolve_parts ps u = Some w" by (auto simp: Let_def bind_eq_Some_conv)
    with Cons.IH obj_strs_lookup JObj show ?thesis unfolding obj_strs_def by blast
  next
    case (JArr arr)
    with Cons.prems obtain i where "i < length arr" "resolve_parts ps (arr ! i) = Some w"
      by (auto simp: Let_def bind_eq_Some_conv split: if_splits)
    with Cons.IH strs_element [of "arr ! i" arr] JArr show ?thesis by (metis nth_mem subset_trans)
  qed (use Cons.prems in \<open>simp_all add: Let_def\<close>)
qed simp

definition external_strs :: "generate_options \<Rightarrow> string list" where
  "external_strs opts = concat (map (\<lambda>e. strings_of (snd e)) (go_external_refs opts))"

text \<open>The strings a walk over a document can meet, a superset of the references.\<close>

definition known_strings :: "json \<Rightarrow> generate_options \<Rightarrow> string list" where
  "known_strings doc opts = remdups (strings_of doc @ external_strs opts)"

lemma external_lookup: "map_of (go_external_refs opts) r = Some v \<Longrightarrow> strs v \<subseteq> set (external_strs opts)"
  using map_of_SomeD [of "go_external_refs opts" r v] by (force simp: external_strs_def)

lemma resolver_fields [simp]:
  "rr_root (with_external e r) = rr_root r" "rr_root (resolver_new doc) = doc"
  "rr_max_depth (with_external e r) = rr_max_depth r" "rr_id_map (with_external e r) = rr_id_map r"
  by (simp_all add: with_external_def resolver_new_def)

lemma rr_external_with [simp]:
  "rr_external (with_external e (resolver_new doc)) = (if e = [] then None else Some e)"
  by (simp add: with_external_def resolver_new_def)

lemma strs_resolve_ref: "resolve_ref doc opts r = Some v \<Longrightarrow> strs v \<subseteq> set (known_strings doc opts)"
proof -
  assume r: "resolve_ref doc opts r = Some v"
  let ?rr = "with_external (go_external_refs opts) (resolver_new doc)"
  have "resolve_target ?rr r = Some v"
    using r by (auto simp: resolve_ref_def resolve_def split: if_splits)
  then have "strs v \<subseteq> strs doc \<or> map_of (go_external_refs opts) r = Some v"
    using strs_resolve_parts
    by (auto simp: resolve_target_def resolve_pointer_def resolve_path_def bind_eq_Some_conv or_else_Some_iff
        split: if_splits option.splits)
  then show ?thesis using external_lookup [of opts r v] by (auto simp: known_strings_def)
qed

lemma strs_all_of_branch:
  "strs (all_of_branch doc opts sub) \<subseteq> strs sub \<union> set (known_strings doc opts)"
proof (cases "Option.bind (json_get sub ''$ref'') as_str")
  case (Some r)
  then show ?thesis
    using strs_resolve_ref [of doc opts r] by (cases "resolve_ref doc opts r") (auto simp: all_of_branch_def)
qed (simp add: all_of_branch_def)

lemma strs_fold_merge:
  "strs acc \<subseteq> R \<Longrightarrow> (\<And>sub. sub \<in> set arr \<Longrightarrow> strs (f sub) \<subseteq> R) \<Longrightarrow>
   strs (fold (\<lambda>sub merged. deep_merge merged (f sub)) arr acc) \<subseteq> R"
proof (induction arr arbitrary: acc)
  case (Cons x arr)
  have "strs (deep_merge acc (f x)) \<subseteq> R"
    using strs_deep_merge(1) [of acc "f x"] Cons.prems by auto
  with Cons show ?case by simp
qed simp

lemma obj_strs_fold_fill:
  "obj_strs acc \<subseteq> R \<Longrightarrow> obj_strs m \<subseteq> R \<Longrightarrow>
   obj_strs (fold (\<lambda>(k, v) acc. if k \<noteq> ''allOf'' \<and> \<not> contains_key acc k then obj_insert k v acc else acc) m acc) \<subseteq> R"
proof (induction m arbitrary: acc)
  case (Cons e m)
  obtain k v where e: "e = (k, v)" by (cases e)
  have "obj_strs (obj_insert k v acc) \<subseteq> R"
    using obj_strs_insert [of k v acc] Cons.prems e by auto
  with Cons e show ?case by simp
qed simp

lemma strs_merge_all_of:
  assumes "obj_strs m \<subseteq> R" and "strs (JArr arr) \<subseteq> R" and "set (known_strings doc opts) \<subseteq> R"
  shows "strs (merge_all_of doc opts m arr) \<subseteq> R"
proof -
  let ?v = "fold (\<lambda>sub merged. deep_merge merged (all_of_branch doc opts sub)) arr (JObj [])"
  have v: "strs ?v \<subseteq> R"
    using assms strs_all_of_branch [of doc opts] strs_element [of _ arr]
    by (intro strs_fold_merge) (simp, blast)
  show ?thesis
  proof (cases ?v)
    case (JObj merged)
    then have "obj_strs merged \<subseteq> R" using v by (simp add: obj_strs_def)
    from obj_strs_fold_fill [OF this assms(1)] obj_strs_remove JObj show ?thesis
      unfolding merge_all_of_def by (simp add: obj_strs_def del: strings_of.simps(3)) blast
  qed (use v in \<open>simp_all add: merge_all_of_def\<close>)
qed

section \<open>A budget that is enough\<close>

definition is_done :: "'a run \<Rightarrow> bool" where
  "is_done r \<longleftrightarrow> (\<exists>x. r = Done x)"

lemma is_done_simps [simp]: "is_done (Done x)" "\<not> is_done Panic" "\<not> is_done Fuel"
  by (simp_all add: is_done_def)

lemma is_done_map [simp]: "is_done (run_map f r) = is_done r"
  by (cases r) auto

lemma is_done_bind: "is_done r \<Longrightarrow> (\<And>x. is_done (f x)) \<Longrightarrow> is_done (run_bind r f)"
  by (cases r) auto

lemma is_done_all: "(\<And>r. r \<in> set rs \<Longrightarrow> is_done r) \<Longrightarrow> is_done (run_all rs)"
  by (induction rs) (auto intro!: is_done_bind)

lemma is_done_fill: "is_done e \<Longrightarrow> is_done (fill_items e t mn out)"
proof (induction e t mn out rule: fill_items.induct)
  case (1 e t mn out)
  then obtain x where "e = Done x" by (auto simp: is_done_def)
  with 1 show ?case by (subst fill_items.simps) simp
qed

lemma is_done_properties:
  "\<forall>e \<in> set ps. is_done (gen (snd e)) \<Longrightarrow> is_done (static_properties always required gen ps out)"
  by (induction always required gen ps out rule: static_properties.induct) (auto intro!: is_done_bind)

lemma is_done_required: "is_done (gen (JObj [])) \<Longrightarrow> is_done (static_required gen ks out)"
  by (induction gen ks out rule: static_required.induct) (auto intro!: is_done_bind)

lemma is_done_static_array:
  assumes "\<And>s. strs s \<subseteq> R \<Longrightarrow> is_done (rec s visited (Suc depth))" and "obj_strs m \<subseteq> R"
  shows "is_done (static_array opts rec (JObj m) visited depth)"
proof -
  have look: "strs v \<subseteq> R" if "map_of m k = Some v" for k v
    using obj_strs_lookup [OF that] assms(2) by blast
  have arr: "strs x \<subseteq> R" if "Option.bind (map_of m k) as_array = Some xs" "x \<in> set xs" for k x xs
    using that look [of k "JArr xs"] by (auto simp: bind_eq_Some_conv as_array_eq)
  have items: "strs x \<subseteq> R" if "x \<in> set (prefix_schemas m)" for x
    using that arr [of "''prefixItems''"] arr [of "''items''"]
    by (cases "Option.bind (map_of m ''prefixItems'') as_array"; cases "Option.bind (map_of m ''items'') as_array")
       (auto simp: prefix_schemas_def)
  have fill: "strs (unwrap_or (item_schema m) (JObj [])) \<subseteq> R"
    using look [of "''items''"] by (cases "map_of m ''items''") (auto simp: item_schema_def)
  show ?thesis
    by (auto simp: static_array_def as_object_def
        intro!: is_done_bind is_done_all is_done_fill assms(1) dest!: items fill [THEN subsetD])
qed

lemma is_done_static_object:
  assumes "\<And>s. strs s \<subseteq> R \<Longrightarrow> is_done (rec s visited (Suc depth))" and "obj_strs m \<subseteq> R"
  shows "is_done (static_object opts rec (JObj m) visited depth)"
proof -
  have props: "strs s \<subseteq> R" if "(k, s) \<in> set (object_properties m)" for k s
  proof (cases "map_of m ''properties''")
    case (Some v)
    with that have v: "v = JObj (object_properties m)"
      by (cases v) (auto simp: object_properties_def as_object_def)
    have "strs s \<subseteq> strs v" using that by (subst v) (auto intro!: bexI [of _ "(k, s)"])
    then show ?thesis using obj_strs_lookup [OF Some] assms(2) by blast
  qed (use that in \<open>simp add: object_properties_def\<close>)
  have "\<forall>e \<in> set (object_properties m). is_done (rec (snd e) visited (Suc depth))"
    using props assms(1) by fastforce
  moreover have "is_done (rec (JObj []) visited (Suc depth))" by (rule assms(1)) simp
  ultimately show ?thesis
    by (simp add: static_object_def as_object_def is_done_bind is_done_properties is_done_required)
qed

lemma static_step_done:
  assumes deeper: "\<And>s. depth < go_max_depth opts \<Longrightarrow> strs s \<subseteq> R \<Longrightarrow> is_done (rec s visited (Suc depth))"
    and follow: "\<And>s r. r \<in> R - set visited \<Longrightarrow> strs s \<subseteq> R \<Longrightarrow> is_done (rec s (visited @ [r]) depth)"
    and R: "set (known_strings doc opts) \<subseteq> R" and s: "strs s \<subseteq> R"
  shows "is_done (static_step opts doc rec s visited depth)"
proof (cases "go_max_depth opts \<le> depth \<or> as_object s = None")
  case True
  then show ?thesis by (auto simp: static_step_def)
next
  case False
  then obtain m where m: "s = JObj m" "obj_strs m \<subseteq> R" and d: "depth < go_max_depth opts"
    using s by (auto simp: as_object_eq obj_strs_def simp del: strings_of.simps(3))
  have below: "\<And>s. strs s \<subseteq> R \<Longrightarrow> is_done (rec s visited (Suc depth))"
    by (rule deeper [OF d])
  have type_case: "is_done (static_by_type opts rec m visited depth)"
    unfolding static_by_type_def Let_def
    using is_done_static_array [of R rec visited depth, OF below m(2)]
      is_done_static_object [of R rec visited depth, OF below m(2)] by simp
  show ?thesis
  proof (cases "str_entry m ''$ref''")
    case (Some r)
    then have "r \<in> R" using str_entry_strs m(2) by blast
    then show ?thesis
      using Some d m(1) follow [of r] strs_resolve_ref [of doc opts r] R
      by (auto simp: static_step_def as_object_def split: option.splits)
  next
    case None
    have "is_done (rec (merge_all_of doc opts m arr) visited (Suc depth))" if "map_of m ''allOf'' = Some (JArr arr)" for arr
      using strs_merge_all_of [OF m(2) _ R, of arr] obj_strs_lookup [OF that] m(2) below by blast
    moreover have "is_done (rec x visited (Suc depth))" if "first_element m k = Some x" for k x
      using first_element_strs [OF that] m(2) below by blast
    ultimately show ?thesis
      using None d m(1) type_case
      by (auto simp: static_step_def as_object_def or_else_Some_iff bind_eq_Some_conv as_array_eq split: option.splits)
  qed
qed

definition static_measure :: "string set \<Rightarrow> generate_options \<Rightarrow> string list \<Rightarrow> nat \<Rightarrow> nat" where
  "static_measure R opts visited depth =
     (go_max_depth opts - depth) * Suc (card R) + card (R - set visited)"

lemma walk_static_done:
  assumes "finite R" and "set (known_strings doc opts) \<subseteq> R"
  shows "strs s \<subseteq> R \<Longrightarrow> static_measure R opts visited depth < n \<Longrightarrow> is_done (walk_static opts doc n s visited depth)"
proof (induction n arbitrary: s visited depth)
  case (Suc n)
  have "is_done (static_step opts doc (walk_static opts doc n) s visited depth)"
  proof (rule static_step_done [OF _ _ assms(2) Suc.prems(1)])
    fix t assume "depth < go_max_depth opts" "strs t \<subseteq> R"
    moreover have "card (R - set visited) \<le> card R" using assms(1) by (intro card_mono) auto
    moreover obtain k where "go_max_depth opts - depth = Suc k" "go_max_depth opts - Suc depth = k"
      using \<open>depth < go_max_depth opts\<close> by (metis Suc_diff_Suc)
    ultimately have "static_measure R opts visited (Suc depth) < n"
      using Suc.prems(2) by (simp add: static_measure_def)
    with \<open>strs t \<subseteq> R\<close> show "is_done (walk_static opts doc n t visited (Suc depth))" by (rule Suc.IH)
  next
    fix t r assume r: "r \<in> R - set visited" and "strs t \<subseteq> R"
    have "card (R - set (visited @ [r])) < card (R - set visited)"
      using assms(1) r by (intro psubset_card_mono) auto
    then have "static_measure R opts (visited @ [r]) depth < n"
      using Suc.prems(2) by (simp add: static_measure_def)
    with \<open>strs t \<subseteq> R\<close> show "is_done (walk_static opts doc n t (visited @ [r]) depth)" by (rule Suc.IH)
  qed
  then show ?case by simp
qed simp

lemma generate_static_done:
  assumes "Suc (go_max_depth opts) * Suc (length (known_strings doc opts)) \<le> n"
  shows "\<exists>v. generate_static n doc opts = Done v"
proof -
  let ?R = "set (known_strings doc opts)"
  have "card ?R = length (known_strings doc opts)"
    by (simp add: known_strings_def length_remdups_card_conv)
  then have "static_measure ?R opts [] 0 < n"
    using assms by (simp add: static_measure_def)
  moreover have "strs doc \<subseteq> ?R" by (simp add: known_strings_def)
  ultimately have "is_done (walk_static opts doc n doc [] 0)"
    by (intro walk_static_done [of ?R]) simp_all
  then show ?thesis by (auto simp: is_done_def generate_static_def)
qed

text \<open>
  C30: static generation returns a value for every document, recursive references included: a budget of
  the depth limit plus one times the number of distinct strings of the document plus one is enough.
\<close>

theorem static_generation_returns:
  assumes "Suc (go_max_depth opts) * Suc (length (known_strings doc opts)) \<le> n"
  shows "\<exists>v. generate_static n doc opts = Done v"
  by (rule generate_static_done [OF assms])

definition self_ref_doc :: json where
  "self_ref_doc = JObj [(''$ref'', JStr ''#'')]"

theorem static_generation_returns_witness:
  "\<exists>v. generate_static 12 self_ref_doc generate_options_default = Done v"
proof (rule static_generation_returns)
  show "Suc (go_max_depth generate_options_default)
      * Suc (length (known_strings self_ref_doc generate_options_default)) \<le> 12"
    by code_simp
qed


section \<open>Objects and arrays\<close>

text \<open>A schema node that static generation dispatches on its type.\<close>

definition typed_node :: "generate_options \<Rightarrow> obj \<Rightarrow> string \<Rightarrow> bool" where
  "typed_node opts m t \<longleftrightarrow>
     str_entry m ''$ref'' = None \<and> given_value opts m = None
     \<and> Option.bind (map_of m ''allOf'') as_array = None
     \<and> first_element m ''anyOf'' = None \<and> first_element m ''oneOf'' = None
     \<and> (go_use_default_value opts \<longrightarrow> map_of m ''default'' = None) \<and> static_type m = t"

definition keys_of :: "(string \<times> 'v) list \<Rightarrow> string set" where
  "keys_of m = fst ` set m"

lemma keys_of_simps [simp]:
  "keys_of [] = {}" "keys_of ((k, v) # m) = insert k (keys_of m)"
  "keys_of (obj_insert k v m) = insert k (keys_of m)"
  by (simp_all add: keys_of_def)

lemma contains_key_keys_of: "contains_key m k \<longleftrightarrow> k \<in> keys_of m"
  by (simp add: contains_key_iff keys_of_def)

lemma static_properties_keys:
  "static_properties always required gen ps out = Done out' \<Longrightarrow> sorted_map out \<Longrightarrow>
   sorted_map out' \<and> keys_of out' = keys_of out \<union> {k \<in> keys_of ps. k \<in> set required \<or> always}"
proof (induction always required gen ps out rule: static_properties.induct)
  case (2 always required gen key s ps out)
  then show ?case by (cases "key \<in> set required \<or> always") (auto simp: sorted_map_insert)
qed simp

lemma static_required_keys:
  "static_required gen ks out = Done out' \<Longrightarrow> sorted_map out \<Longrightarrow>
   sorted_map out' \<and> keys_of out' = keys_of out \<union> set ks"
proof (induction gen ks out rule: static_required.induct)
  case (2 gen key ks out)
  then show ?case by (cases "contains_key out key") (auto simp: sorted_map_insert contains_key_keys_of)
qed simp

lemma walk_typed:
  assumes "typed_node opts m t" and "depth < go_max_depth opts"
    and "walk_static opts doc (Suc n) (JObj m) visited depth = Done v"
  shows "static_by_type opts (walk_static opts doc n) m visited depth = Done v"
  using assms by (auto simp: typed_node_def static_step_def as_object_def split: if_splits)

text \<open>
  a statically generated object has every required property, the declared properties when all are
  asked for, and nothing else.
\<close>

theorem static_object_keys:
  assumes "typed_node opts m ''object''" and "depth < go_max_depth opts"
    and "walk_static opts doc n (JObj m) visited depth = Done v"
  shows "\<exists>out. v = JObj out \<and> sorted_map out
    \<and> fst ` set out = set (required_names m)
        \<union> (if go_always_fake_optionals opts then fst ` set (object_properties m) else {})"
proof (cases n)
  case (Suc k)
  let ?gen = "\<lambda>p. walk_static opts doc k p visited (depth + 1)"
  have "static_object opts (walk_static opts doc k) (JObj m) visited depth = Done v"
    using walk_typed [OF assms(1,2) assms(3) [unfolded Suc]] assms(1)
    by (simp add: static_by_type_def typed_node_def)
  then obtain o1 o2 where o1: "static_properties (go_always_fake_optionals opts) (required_names m) ?gen (object_properties m) [] = Done o1"
    and o2: "static_required ?gen (required_names m) o1 = Done o2" and v: "v = JObj o2"
    by (auto simp: static_object_def as_object_def)
  from static_required_keys [OF o2] static_properties_keys [OF o1]
  show ?thesis unfolding keys_of_def [symmetric] by (intro exI [of _ o2]) (auto simp: v)
qed (use assms in simp)

definition pet_schema :: obj where
  "pet_schema =
     [(''properties'', JObj [(''age'', JObj [(''type'', JStr ''integer'')]), (''name'', JObj [(''type'', JStr ''string'')])]),
      (''required'', JArr [JStr ''id'', JStr ''name'']), (''type'', JStr ''object'')]"

theorem static_object_keys_witness:
  "\<exists>out. JObj [(''id'', JNull), (''name'', JStr [])] = JObj out \<and> sorted_map out
    \<and> fst ` set out = set (required_names pet_schema)
        \<union> (if go_always_fake_optionals generate_options_default then fst ` set (object_properties pet_schema) else {})"
proof (rule static_object_keys)
  show "typed_node generate_options_default pet_schema ''object''" by code_simp
  show "0 < go_max_depth generate_options_default" by code_simp
  show "walk_static generate_options_default JNull 3 (JObj pet_schema) [] 0 = Done (JObj [(''id'', JNull), (''name'', JStr [])])"
    by code_simp
qed

lemma run_all_length: "run_all rs = Done xs \<Longrightarrow> length xs = length rs"
  by (induction rs arbitrary: xs) auto

lemma fill_items_length:
  "fill_items e t mn out = Done xs \<Longrightarrow> mn \<le> t \<Longrightarrow>
   max (length out) mn \<le> length xs \<and> length xs \<le> max (length out) t"
proof (induction e t mn out rule: fill_items.induct)
  case (1 e t mn out)
  show ?case
  proof (cases "length out < t")
    case True
    with "1.prems" obtain x where x: "e = Done x"
      "(if x = JNull \<and> mn \<le> length out then Done out else fill_items e t mn (out @ [x])) = Done xs"
      by (subst (asm) fill_items.simps) auto
    show ?thesis
    proof (cases "x = JNull \<and> mn \<le> length out")
      case False
      with x have "fill_items e t mn (out @ [x]) = Done xs" by auto
      from "1.IH" [OF True False this "1.prems"(2)] True show ?thesis by simp
    qed (use x True in auto)
  next
    case False
    with "1.prems" show ?thesis by (subst (asm) fill_items.simps) auto
  qed
qed

text \<open>
  a statically generated array has at least \<open>minItems\<close> elements, and at most \<open>maxItems\<close> when the prefix
  items leave room, as soon as the two bounds are consistent.
\<close>

theorem static_array_bounds:
  assumes "typed_node opts m ''array''" and "depth < go_max_depth opts"
    and "walk_static opts doc n (JObj m) visited depth = Done v"
    and "\<forall>mx. nat_entry m ''maxItems'' = Some mx \<longrightarrow> unwrap_or (nat_entry m ''minItems'') 0 \<le> mx"
  shows "\<exists>xs. v = JArr xs \<and> unwrap_or (nat_entry m ''minItems'') 0 \<le> length xs
    \<and> (\<forall>mx. nat_entry m ''maxItems'' = Some mx \<longrightarrow> length (prefix_schemas m) \<le> mx \<longrightarrow> length xs \<le> mx)"
proof (cases n)
  case (Suc k)
  have "static_array opts (walk_static opts doc k) (JObj m) visited depth = Done v"
    using walk_typed [OF assms(1,2) assms(3) [unfolded Suc]] assms(1)
    by (simp add: static_by_type_def typed_node_def)
  then obtain ps xs where ps: "length ps = length (prefix_schemas m)"
    and xs: "fill_items (walk_static opts doc k (unwrap_or (item_schema m) (JObj [])) visited (Suc depth))
        (item_target opts m) (unwrap_or (nat_entry m ''minItems'') 0) ps = Done xs" "v = JArr xs"
    using run_all_length by (fastforce simp: static_array_def as_object_def)
  have t: "unwrap_or (nat_entry m ''minItems'') 0 \<le> item_target opts m"
    "\<forall>mx. nat_entry m ''maxItems'' = Some mx \<longrightarrow> item_target opts m \<le> mx"
    using assms(4) by (auto simp: item_target_def Let_def split: option.splits)
  show ?thesis
    using fill_items_length [OF xs(1) t(1)] t(2) ps by (intro exI [of _ xs]) (auto simp: xs(2))
qed (use assms in simp)

theorem static_array_bounds_witness:
  "\<exists>xs. JArr [JStr [], JStr []] = JArr xs
    \<and> unwrap_or (nat_entry [(''items'', JObj [(''type'', JStr ''string'')]), (''maxItems'', JNum (JInt 5)), (''minItems'', JNum (JInt 2)), (''type'', JStr ''array'')] ''minItems'') 0 \<le> length xs
    \<and> (\<forall>mx. nat_entry [(''items'', JObj [(''type'', JStr ''string'')]), (''maxItems'', JNum (JInt 5)), (''minItems'', JNum (JInt 2)), (''type'', JStr ''array'')] ''maxItems'' = Some mx \<longrightarrow> length (prefix_schemas [(''items'', JObj [(''type'', JStr ''string'')]), (''maxItems'', JNum (JInt 5)), (''minItems'', JNum (JInt 2)), (''type'', JStr ''array'')]) \<le> mx \<longrightarrow> length xs \<le> mx)"
proof (rule static_array_bounds)
  let ?m = "[(''items'', JObj [(''type'', JStr ''string'')]), (''maxItems'', JNum (JInt 5)), (''minItems'', JNum (JInt 2)), (''type'', JStr ''array'')]"
  show "typed_node generate_options_default ?m ''array''" by code_simp
  show "0 < go_max_depth generate_options_default" by code_simp
  show "walk_static generate_options_default JNull 3 (JObj ?m) [] 0 = Done (JArr [JStr [], JStr []])" by code_simp
  show "\<forall>mx. nat_entry ?m ''maxItems'' = Some mx \<longrightarrow> unwrap_or (nat_entry ?m ''minItems'') 0 \<le> mx"
    by (simp add: nat_entry_def as_u64_def)
qed

section \<open>Composition\<close>

text \<open>
  the keywords beside \<open>allOf\<close> are dropped when a branch has them too, and a nested \<open>allOf\<close> is dropped
  altogether. The first schema requires \<open>tag\<close> beside a branch that has its own properties, the second
  composes a schema that is itself composed; neither generated object has the required \<open>tag\<close>.
\<close>

theorem static_all_of_loses_properties:
  "generate_static 40 (JObj
     [(''allOf'', JArr [JObj [(''properties'', JObj [(''id'', JObj [(''type'', JStr ''integer'')])]),
                              (''required'', JArr [JStr ''id'']), (''type'', JStr ''object'')]]),
      (''properties'', JObj [(''tag'', JObj [(''type'', JStr ''string'')])]),
      (''required'', JArr [JStr ''tag''])]) generate_options_default
   = Done (JObj [(''id'', JNum (JInt 0))])
   \<and> generate_static 40 (JObj
     [(''allOf'', JArr [JObj [(''allOf'', JArr [JObj [(''properties'', JObj [(''tag'', JObj [(''type'', JStr ''string'')])]),
                                                      (''required'', JArr [JStr ''tag'']), (''type'', JStr ''object'')]])],
                        JObj [(''properties'', JObj [(''id'', JObj [(''type'', JStr ''integer'')])]),
                              (''required'', JArr [JStr ''id'']), (''type'', JStr ''object'')]])])
     generate_options_default
   = Done (JObj [(''id'', JNum (JInt 0))])"
  by (intro conjI) code_simp+

section \<open>JSON pointers\<close>

definition escape_key :: "string \<Rightarrow> string" where
  "escape_key k = concat (map (\<lambda>c. if c = CHR ''~'' then ''~0'' else if c = CHR ''/'' then ''~1'' else [c]) k)"

definition half_escape :: "string \<Rightarrow> string" where
  "half_escape k = concat (map (\<lambda>c. if c = CHR ''~'' then ''~0'' else [c]) k)"

lemma escape_key_no_slash: "CHR ''/'' \<notin> set (escape_key k)"
  by (induction k) (auto simp: escape_key_def)

lemma replace_slash: "replace_all ''~1'' ''/'' (escape_key k) = half_escape k"
  by (induction k) (auto simp: escape_key_def half_escape_def starts_with_def)

lemma replace_tilde: "replace_all ''~0'' ''~'' (half_escape k) = k"
  by (induction k) (auto simp: half_escape_def starts_with_def)

lemma unescape: "replace_all ''~0'' ''~'' (replace_all ''~1'' ''/'' (escape_key k)) = k"
  by (simp add: replace_slash replace_tilde)

text \<open>The value at a path of object keys.\<close>

fun at_path :: "string list \<Rightarrow> json \<Rightarrow> json option" where
  "at_path [] v = Some v"
| "at_path (k # ks) v = Option.bind (json_get v k) (at_path ks)"

lemma resolve_parts_escaped:
  "at_path ks v = Some w \<Longrightarrow> resolve_parts (map escape_key ks) v = Some w"
proof (induction ks arbitrary: v)
  case (Cons k ks)
  then obtain m u where "v = JObj m" "map_of m k = Some u" "at_path ks u = Some w"
    by (auto simp: json_get_def bind_eq_Some_conv as_object_eq)
  with Cons.IH show ?case by (simp add: unescape)
qed simp

text \<open>
  C31: a local reference that names a path with its keys escaped resolves to the value at that path, whatever
  the keys contain.
\<close>

theorem pointer_reference_resolves:
  assumes "ks \<noteq> []" and "at_path ks doc = Some v"
  shows "resolve_ref doc opts (''#/'' @ join ''/'' (map escape_key ks)) = Some v"
proof -
  have "split_on (CHR ''/'') (join ''/'' (map escape_key ks)) = map escape_key ks"
    using assms(1) escape_key_no_slash by (intro split_on_join) auto
  moreover have "strip_prefix (CHR ''#'' # CHR ''/'' # p) ''#/'' = Some p" for p by simp
  moreover have "rr_max_depth (resolver_new doc) = 2 ^ 64 - 1" by (simp add: resolver_new_def usize_max_def)
  ultimately show ?thesis
    using resolve_parts_escaped [OF assms(2)]
    by (simp add: resolve_ref_def resolve_def resolve_target_def resolve_pointer_def del: strip_prefix_Some_iff)
qed

theorem pointer_reference_resolves_witness:
  "resolve_ref (JObj [(''paths'', JObj [(''/a~b'', JNull)])]) generate_options_default
     (''#/'' @ join ''/'' (map escape_key [''paths'', ''/a~b''])) = Some JNull"
  by (rule pointer_reference_resolves) (simp_all add: json_get_def as_object_def)

text \<open>
  an indexed path is unescaped a second time. A schema below a key that contains \<open>~1\<close> cannot be reached by
  its \<open>$id\<close>, although it is in the index; below any other key it can.
\<close>

theorem id_reference_unescapes_keys:
  "resolve_ref (JObj [(''a~1b'', JObj [(''$id'', JStr ''pet'')])]) generate_options_default ''pet'' = None
   \<and> map_of (rr_id_map (resolver_new (JObj [(''a~1b'', JObj [(''$id'', JStr ''pet'')])]))) ''pet'' = Some [''a~1b'']
   \<and> resolve_ref (JObj [(''ab'', JObj [(''$id'', JStr ''pet'')])]) generate_options_default ''pet''
      = Some (JObj [(''$id'', JStr ''pet'')])"
  by (intro conjI) code_simp+

section \<open>Placeholders and the validator\<close>

definition accepted_by :: "compiler \<Rightarrow> string \<Rightarrow> string \<Rightarrow> bool" where
  "accepted_by rx v p \<longleftrightarrow> (case regex_of rx p of Some re \<Rightarrow> re v | None \<Rightarrow> False)"

text \<open>
  the placeholder generated for a string format passes the engine's own check of that format exactly when the
  format is not \<open>time\<close>, when the patterns of the checks match as the \<open>regex\<close> crate documents: the placeholder
  of \<open>time\<close> ends in \<open>Z\<close>, which the pattern of the check, digits and colons up to its end, does not match.
\<close>

theorem placeholders_validate:
  assumes "accepted_by rx ''2020-01-01T00:00:00Z'' date_time_pattern"
    and "accepted_by rx ''2020-01-01'' date_pattern" and "\<not> accepted_by rx ''00:00:00Z'' time_pattern"
    and "accepted_by rx ''00000000-0000-4000-8000-000000000000'' uuid_pattern"
    and "accepted_by rx ''user@example.com'' email_pattern"
    and "accepted_by rx ''https://example.com'' uri_pattern"
    and "accepted_by rx ''example.com'' hostname_pattern"
    and "canonical_format_value format = Some v"
  shows "matches_format rx v format \<longleftrightarrow> format \<noteq> ''time''"
proof -
  have fields:
    "get_u32 ''2020-01-01T00:00:00Z'' 0 4 = 2020" "get_u32 ''2020-01-01T00:00:00Z'' 5 7 = 1"
    "get_u32 ''2020-01-01T00:00:00Z'' 8 10 = 1" "get_u32 ''2020-01-01T00:00:00Z'' 11 13 = 0"
    "get_u32 ''2020-01-01T00:00:00Z'' 14 16 = 0" "get_u32 ''2020-01-01T00:00:00Z'' 17 19 = 0"
    "get_u32 ''2020-01-01'' 0 4 = 2020" "get_u32 ''2020-01-01'' 5 7 = 1" "get_u32 ''2020-01-01'' 8 10 = 1"
    by code_simp+
  have addr: "parse_ipv4 ''192.0.2.0'' \<noteq> None" "parse_ipv6 ''2001:db8::'' \<noteq> None"
    "is_valid_base64 ''ZXhhbXBsZQ==''" by code_simp+
  have host: "list_all (\<lambda>label. label \<noteq> [] \<and> length label \<le> 63) (split_on (CHR ''.'') ''example.com'')"
    by code_simp
  have ymd: "is_valid_ymd 2020 (Suc 0) (Suc 0)" by code_simp
  let ?checked = "[''email'', ''uri'', ''uri-reference'', ''uuid'', ''date-time'', ''date'',
    ''ipv4'', ''ipv6'', ''hostname'', ''byte'']"
  have ok: "list_all (\<lambda>f. matches_format rx (the (canonical_format_value f)) f) ?checked"
    using assms(1,2,4-7)
    by (simp add: canonical_format_value_def matches_format_def Let_def accepted_by_def fields addr ymd host
        is_valid_rfc3339_date_time_def is_valid_iso_date_def is_valid_hostname_def
        split: option.splits)
  have time: "\<not> matches_format rx ''00:00:00Z'' ''time''"
    using assms(3) by (simp add: matches_format_def is_valid_iso_time_def accepted_by_def)
  consider "format \<in> set ?checked" | "format = ''time''" | "format \<notin> set ?checked" "format \<noteq> ''time''" by blast
  then show ?thesis
  proof cases
    case 1
    with ok have "matches_format rx (the (canonical_format_value format)) format"
      unfolding list_all_iff by blast
    with assms(8) 1 show ?thesis by auto
  next
    case 2
    with assms(8) time show ?thesis by (simp add: canonical_format_value_def)
  next
    case 3
    then show ?thesis by (simp add: matches_format_def)
  qed
qed

theorem placeholders_validate_witness:
  "\<not> matches_format (\<lambda>p. Some (\<lambda>v. p = time_pattern \<longrightarrow> length v = 8)) ''00:00:00Z'' ''time''"
  using placeholders_validate [of "\<lambda>p. Some (\<lambda>v. p = time_pattern \<longrightarrow> length v = 8)" "''time''" "''00:00:00Z''"]
  by (simp add: accepted_by_def regex_of_def canonical_format_value_def
      date_time_pattern_def date_pattern_def time_pattern_def uuid_pattern_def email_pattern_def
      uri_pattern_def hostname_pattern_def MAX_PATTERN_BYTES_def bs_def)

end
