(* ===== verification/Engine.thy ===== *)
theory Engine
  imports Prefer Router Security ParamsFacts Static
begin

text \<open>
  \<open>engine.rs\<close>: from a request to a response. What the code calls outside the modelled sources is gathered
  in one record: percent decoding, the regex compiler, serialisation of the document and of a schema
  (\<open>serde_json::to_value\<close>), rendering of a composite JSON value, the hash of the fingerprint, and the
  faker's random generation. Static generation is the model of theory Static.
\<close>

type_synonym fingerprint_fields = "string \<times> string \<times> string \<times> nat \<times> string option \<times> string option"

record externals =
  x_decode :: "string \<Rightarrow> string option"
  x_regex :: compiler
  x_spec_to_value :: "openapi \<Rightarrow> string + json"
  x_schema_to_value :: "schema \<Rightarrow> string + json"
  x_json_to_string :: "json \<Rightarrow> string"
  x_hash :: "fingerprint_fields \<Rightarrow> u64"
  x_generate :: "json \<Rightarrow> generate_options \<Rightarrow> string + json"

section \<open>The serialised document and its cache\<close>

definition spec_fingerprint :: "externals \<Rightarrow> openapi \<Rightarrow> u64" where
  "spec_fingerprint x spec =
     (let ks = map fst (spec_paths spec)
      in x_hash x (spec_title spec, spec_version spec, spec_openapi spec, length ks,
           if ks = [] then None else Some (hd ks), if ks = [] then None else Some (last ks)))"

text \<open>One slot: address, fingerprint, root and component schemas.\<close>

type_synonym spec_cache = "(nat \<times> u64 \<times> json \<times> json) option"

definition component_schemas :: "json \<Rightarrow> json" where
  "component_schemas v =
     unwrap_or (Option.bind (json_get v ''components'') (\<lambda>c. json_get c ''schemas'')) (JObj [])"

definition cached_spec_root_and_defs ::
  "externals \<Rightarrow> nat \<Rightarrow> openapi \<Rightarrow> spec_cache \<Rightarrow> (mock_error + json \<times> json) \<times> spec_cache" where
  "cached_spec_root_and_defs x key spec cache =
     (let fingerprint = spec_fingerprint x spec;
          compute = (case x_spec_to_value x spec of
              Inl e \<Rightarrow> (Inl (SpecSerialization e), cache)
            | Inr v \<Rightarrow> (Inr (v, component_schemas v), Some (key, fingerprint, v, component_schemas v)))
      in case cache of
           Some (cached_key, cached_fp, v, defs) \<Rightarrow>
             if cached_key = key \<and> cached_fp = fingerprint then (Inr (v, defs), cache) else compute
         | None \<Rightarrow> compute)"

section \<open>Schemas as documents for the faker\<close>

fun schema_has_ref :: "json \<Rightarrow> bool" where
  "schema_has_ref (JObj m) = (contains_key m ''$ref'' \<or> list_ex (\<lambda>e. schema_has_ref (snd e)) m)"
| "schema_has_ref (JArr xs) = list_ex schema_has_ref xs"
| "schema_has_ref _ = False"

definition attach_components :: "json \<Rightarrow> json \<Rightarrow> json" where
  "attach_components v defs =
     (case as_object v of
        None \<Rightarrow> v
      | Some m \<Rightarrow>
          (let m1 = (if contains_key m ''components'' then m
                     else obj_insert ''components'' (JObj [(''schemas'', defs)]) m);
               m2 = (if contains_key m ''$defs'' then m1 else obj_insert ''$defs'' defs m1)
           in JObj m2))"

text \<open>\<open>roots\<close> is the answer of the cache, the same for every lookup of one call.\<close>

definition schema_ref_to_json ::
  "externals \<Rightarrow> (mock_error + json \<times> json) \<Rightarrow> schema ref_or \<Rightarrow> mock_error + json" where
  "schema_ref_to_json x roots schema_ref =
     (case roots of
        Inl e \<Rightarrow> Inl e
      | Inr (_, defs) \<Rightarrow>
          (case schema_ref of
             Item s \<Rightarrow>
               (case x_schema_to_value x s of
                  Inl e \<Rightarrow> Inl (SpecSerialization e)
                | Inr inline \<Rightarrow> Inr (if schema_has_ref inline then attach_components inline defs else inline))
           | Reference r \<Rightarrow> Inr (attach_components (JObj [(''$ref'', JStr r)]) defs)))"

definition read_jsf_config :: "openapi \<Rightarrow> json" where
  "read_jsf_config spec = unwrap_or (map_of (spec_extensions spec) ''x-json-schema-faker'') JNull"

definition jsf_set :: "obj \<Rightarrow> string \<Rightarrow> (json \<Rightarrow> 'a option) \<Rightarrow> ('a \<Rightarrow> 'o \<Rightarrow> 'o) \<Rightarrow> 'o \<Rightarrow> 'o" where
  "jsf_set m key read set_it opts =
     (case Option.bind (map_of m key) read of Some v \<Rightarrow> set_it v opts | None \<Rightarrow> opts)"

definition apply_jsf_config :: "generate_options \<Rightarrow> json \<Rightarrow> generate_options" where
  "apply_jsf_config opts config =
     (case as_object config of
        None \<Rightarrow> opts
      | Some m \<Rightarrow>
          jsf_set m ''random'' as_u64 (\<lambda>v o1. o1\<lparr>go_seed := Some (of_nat v)\<rparr>)
         (jsf_set m ''failOnInvalidFormat'' as_bool (\<lambda>v o1. o1\<lparr>go_fail_on_invalid_format := v\<rparr>)
         (jsf_set m ''failOnInvalidTypes'' as_bool (\<lambda>v o1. o1\<lparr>go_fail_on_invalid_type := v\<rparr>)
         (jsf_set m ''fillProperties'' as_bool (\<lambda>v o1. o1\<lparr>go_fill_properties := v\<rparr>)
         (jsf_set m ''requiredOnly'' as_bool (\<lambda>v o1. o1\<lparr>go_required_only := v\<rparr>)
         (jsf_set m ''useExamplesValue'' as_bool (\<lambda>v o1. o1\<lparr>go_use_examples_value := v\<rparr>)
         (jsf_set m ''useDefaultValue'' as_bool (\<lambda>v o1. o1\<lparr>go_use_default_value := v\<rparr>)
         (jsf_set m ''alwaysFakeOptionals'' as_bool (\<lambda>v o1. o1\<lparr>go_always_fake_optionals := v\<rparr>)
         (jsf_set m ''optionalsProbability'' as_f64 (\<lambda>v o1. o1\<lparr>go_optionals_probability := Some v\<rparr>)
         (jsf_set m ''maxItems'' as_u64 (\<lambda>v o1. o1\<lparr>go_max_items := Some v\<rparr>)
         (jsf_set m ''minItems'' as_u64 (\<lambda>v o1. o1\<lparr>go_min_items := Some v\<rparr>) opts)))))))))))"

definition fill_override :: "mock_config \<Rightarrow> generate_options \<Rightarrow> generate_options" where
  "fill_override cfg opts =
     (case cfg_fill_properties cfg of Some v \<Rightarrow> opts\<lparr>go_fill_properties := v\<rparr> | None \<Rightarrow> opts)"

section \<open>Configuration and extensions\<close>

definition merge_directives :: "mock_config \<Rightarrow> prefer_directives \<Rightarrow> mock_config" where
  "merge_directives cfg d =
     cfg\<lparr>cfg_dynamic := unwrap_or (pf_dynamic d) (cfg_dynamic cfg),
         cfg_seed := or_else (pf_seed d) (cfg_seed cfg),
         cfg_force_code := or_else (pf_code d) (cfg_force_code cfg),
         cfg_example_key := or_else (pf_example d) (cfg_example_key cfg),
         cfg_errors := unwrap_or (pf_validate d) (cfg_errors cfg),
         cfg_check_security := unwrap_or (pf_security d) (cfg_check_security cfg)\<rparr>"

definition read_delay_ms :: "operation \<Rightarrow> response \<Rightarrow> nat option" where
  "read_delay_ms op resp =
     Option.bind (or_else (map_of (op_extensions op) ''x-chasm-delay-ms'')
                          (map_of (r_extensions resp) ''x-chasm-delay-ms'')) as_u64"

definition read_content_encoding :: "response \<Rightarrow> string option" where
  "read_content_encoding resp =
     Option.bind (Option.bind (map_of (r_extensions resp) ''x-chasm-content-encoding'') as_str) (\<lambda>token.
       if token \<in> set [''gzip'', ''br'', ''zstd''] then Some token else None)"

definition read_echo_flag :: "operation \<Rightarrow> bool" where
  "read_echo_flag op =
     unwrap_or (Option.bind (map_of (op_extensions op) ''x-chasm-echo'') as_bool) False"

section \<open>Response headers\<close>

definition is_filtered_header :: "string \<Rightarrow> bool" where
  "is_filtered_header name \<longleftrightarrow>
     to_ascii_lowercase name \<in> set [''content-encoding'', ''content-length'', ''transfer-encoding'', ''date'', ''connection'']"

definition resolve_header_ref :: "openapi \<Rightarrow> header ref_or \<Rightarrow> header option" where
  "resolve_header_ref spec h =
     (case h of
        Item x \<Rightarrow> Some x
      | Reference reference \<Rightarrow>
          Option.bind (strip_prefix reference ''#/components/headers/'') (\<lambda>name.
          Option.bind (spec_components spec) (\<lambda>c.
          Option.bind (map_of (c_headers c) name) as_item)))"

definition header_value_is_meaningful :: "json option \<Rightarrow> bool" where
  "header_value_is_meaningful v =
     (case v of None \<Rightarrow> False | Some (JStr s) \<Rightarrow> s \<noteq> [] | Some _ \<Rightarrow> True)"

definition ok :: "'e + 'a \<Rightarrow> 'a option" where
  "ok r = (case r of Inr v \<Rightarrow> Some v | Inl _ \<Rightarrow> None)"

definition generate_header_value_from_schema ::
  "externals \<Rightarrow> nat \<Rightarrow> (mock_error + json \<times> json) \<Rightarrow> openapi \<Rightarrow> schema ref_or \<Rightarrow> mock_config
   \<Rightarrow> json option run" where
  "generate_header_value_from_schema x n roots spec schema_ref cfg =
     (case schema_ref_to_json x roots schema_ref of
        Inl e \<Rightarrow> Done None
      | Inr schema_json \<Rightarrow>
          (let opts = fill_override cfg (apply_jsf_config
                 (generate_options_default\<lparr>go_max_depth := 5, go_seed := cfg_seed cfg\<rparr>) (read_jsf_config spec));
               faked = ok (x_generate x schema_json (opts\<lparr>go_always_fake_optionals := True\<rparr>))
           in if cfg_dynamic cfg then Done faked
              else run_map (\<lambda>v. if header_value_is_meaningful (Some v) then Some v else or_else faked (Some v))
                     (generate_static n schema_json opts)))"

definition pick_header_value ::
  "externals \<Rightarrow> nat \<Rightarrow> (mock_error + json \<times> json) \<Rightarrow> openapi \<Rightarrow> header \<Rightarrow> mock_config \<Rightarrow> json option run" where
  "pick_header_value x n roots spec h cfg =
     (case h_example h of
        Some v \<Rightarrow> Done (Some v)
      | None \<Rightarrow>
          (case h_format h of
             PF_Schema r \<Rightarrow>
               (case Option.bind (as_item r) (\<lambda>s. sd_example (schema_data s)) of
                  Some v \<Rightarrow> Done (Some v)
                | None \<Rightarrow> generate_header_value_from_schema x n roots spec r cfg)
           | PF_Content \<Rightarrow> Done None))"

definition header_value_to_string :: "externals \<Rightarrow> json \<Rightarrow> string" where
  "header_value_to_string x v =
     (case v of
        JStr s \<Rightarrow> s
      | JBool b \<Rightarrow> (if b then ''true'' else ''false'')
      | JNum (JInt i) \<Rightarrow> show_int i
      | JNull \<Rightarrow> []
      | _ \<Rightarrow> x_json_to_string x v)"

definition header_lines :: "externals \<Rightarrow> string \<Rightarrow> json \<Rightarrow> (string \<times> string) list" where
  "header_lines x name v =
     (case v of
        JArr items \<Rightarrow> map (\<lambda>item. (name, header_value_to_string x item)) items
      | _ \<Rightarrow> [(name, header_value_to_string x v)])"

definition response_header ::
  "externals \<Rightarrow> nat \<Rightarrow> (mock_error + json \<times> json) \<Rightarrow> openapi \<Rightarrow> mock_config \<Rightarrow> string \<times> header ref_or
   \<Rightarrow> (string \<times> string) list run" where
  "response_header x n roots spec cfg entry =
     (if is_filtered_header (fst entry) then Done []
      else
        (case resolve_header_ref spec (snd entry) of
           None \<Rightarrow> Done []
         | Some h \<Rightarrow>
             run_map (\<lambda>v. case v of Some j \<Rightarrow> header_lines x (fst entry) j | None \<Rightarrow> [])
               (pick_header_value x n roots spec h cfg)))"

definition collect_response_headers ::
  "externals \<Rightarrow> nat \<Rightarrow> (mock_error + json \<times> json) \<Rightarrow> openapi \<Rightarrow> response \<Rightarrow> mock_config
   \<Rightarrow> (string \<times> string) list run" where
  "collect_response_headers x n roots spec resp cfg =
     run_concat (map (\<lambda>entry. response_header x n roots spec cfg entry) (r_headers resp))"

section \<open>Status and response\<close>

datatype resolve_error = NoResponses | NoResponseForCodeErr u16

definition resolve_response_ref :: "openapi \<Rightarrow> response ref_or \<Rightarrow> response option" where
  "resolve_response_ref spec r =
     (case r of
        Item x \<Rightarrow> Some x
      | Reference reference \<Rightarrow>
          Option.bind (strip_prefix reference ''#/components/responses/'') (\<lambda>name.
          Option.bind (spec_components spec) (\<lambda>c.
          Option.bind (map_of (c_responses c) name) as_item)))"

definition find_response_for_code :: "openapi \<Rightarrow> operation \<Rightarrow> u16 \<Rightarrow> response option" where
  "find_response_for_code spec op code =
     (let rs = rs_responses (op_responses op) in
      case Option.bind (map_of rs (Code code)) (resolve_response_ref spec) of
        Some resolved \<Rightarrow> Some resolved
      | None \<Rightarrow> Option.bind (map_of rs (Range (code div 100))) (resolve_response_ref spec))"

text \<open>The scan: the least code of the family and the range entry.\<close>

fun scan_2xx ::
  "(status_code \<times> response ref_or) list \<Rightarrow> (u16 \<times> response ref_or) option \<Rightarrow> response ref_or option
   \<Rightarrow> (u16 \<times> response ref_or) option \<times> response ref_or option" where
  "scan_2xx [] best range_2xx = (best, range_2xx)"
| "scan_2xx ((key, r) # rest) best range_2xx =
     (case key of
        Code c \<Rightarrow>
          if 200 \<le> c \<and> c < 300 \<and> (case best of None \<Rightarrow> True | Some (mn, _) \<Rightarrow> c < mn)
          then scan_2xx rest (Some (c, r)) range_2xx
          else scan_2xx rest best range_2xx
      | Range f \<Rightarrow>
          if f = 2 then scan_2xx rest best (Some r) else scan_2xx rest best range_2xx)"

definition lowest_2xx_response :: "openapi \<Rightarrow> operation \<Rightarrow> (u16 \<times> response) option" where
  "lowest_2xx_response spec op =
     (case scan_2xx (rs_responses (op_responses op)) None None of
        (best, range_2xx) \<Rightarrow>
          or_else
            (Option.bind best (\<lambda>(code, r). map_option (\<lambda>resp. (code, resp)) (resolve_response_ref spec r)))
            (Option.bind range_2xx (\<lambda>r. map_option (\<lambda>resp. (200, resp)) (resolve_response_ref spec r))))"

fun numeric_code :: "status_code \<Rightarrow> u16" where
  "numeric_code (Code c) = c"
| "numeric_code (Range family) = family * 100"

definition resolve_status_and_response ::
  "openapi \<Rightarrow> operation \<Rightarrow> mock_config \<Rightarrow> resolve_error + u16 \<times> response" where
  "resolve_status_and_response spec op cfg =
     (let default_resp = Option.bind (rs_default (op_responses op)) (resolve_response_ref spec) in
      case cfg_force_code cfg of
        Some code \<Rightarrow>
          (case or_else (find_response_for_code spec op code) default_resp of
             Some resp \<Rightarrow> Inr (code, resp)
           | None \<Rightarrow> Inl (NoResponseForCodeErr code))
      | None \<Rightarrow>
          (case lowest_2xx_response spec op of
             Some r \<Rightarrow> Inr r
           | None \<Rightarrow>
               (case default_resp of
                  Some resp \<Rightarrow> Inr (200, resp)
                | None \<Rightarrow>
                    (case find_map (\<lambda>(key, r). map_option (\<lambda>resp. (numeric_code key, resp)) (resolve_response_ref spec r))
                            (rs_responses (op_responses op)) of
                       Some r \<Rightarrow> Inr r
                     | None \<Rightarrow> Inl NoResponses))))"

section \<open>Content negotiation\<close>

definition strip_media_params :: "string \<Rightarrow> string" where
  "strip_media_params media = trim (hd (split_on (CHR '';'') media))"

definition is_plausible_media_key :: "string \<Rightarrow> bool" where
  "is_plausible_media_key key =
     (case split_once (CHR ''/'') (strip_media_params key) of
        Some (ty, subtype) \<Rightarrow> trim ty \<noteq> [] \<and> trim subtype \<noteq> []
      | None \<Rightarrow> False)"

definition parse_accept_entry :: "string \<Rightarrow> (string \<times> f64) option" where
  "parse_accept_entry entry =
     (let e = trim entry in
      if e = [] then None
      else
        (let parts = map trim (split_on (CHR '';'') e)
         in Some (hd parts,
              fold (\<lambda>param q. case Option.bind (strip_prefix param ''q='') parse_f64 of
                                Some v \<Rightarrow> v | None \<Rightarrow> q) (tl parts) (Fin 1))))"

text \<open>The stable sort by falling quality.\<close>

fun insert_range :: "string \<times> f64 \<Rightarrow> (string \<times> f64) list \<Rightarrow> (string \<times> f64) list" where
  "insert_range r [] = [r]"
| "insert_range r (r' # rs) =
     (if f_lt (snd r) (snd r') then r' # insert_range r rs else r # r' # rs)"

definition sort_ranges :: "(string \<times> f64) list \<Rightarrow> (string \<times> f64) list" where
  "sort_ranges rs = foldr insert_range rs []"

datatype content_negotiation = Selected string | NotAcceptable_Of "string list"

definition find_accept :: "string str_map \<Rightarrow> string option" where
  "find_accept headers = find_entry (\<lambda>k. eq_ignore_ascii_case k ''accept'') headers"

definition accept_ranges :: "string \<Rightarrow> (string \<times> f64) list" where
  "accept_ranges accept =
     filter (\<lambda>r. f_lt (Fin 0) (snd r)) (List.map_filter parse_accept_entry (split_on (CHR '','') accept))"

definition match_range :: "string list \<Rightarrow> string \<Rightarrow> string option" where
  "match_range valid_keys rng =
     (if rng = ''*/*'' then (case valid_keys of k # _ \<Rightarrow> Some k | [] \<Rightarrow> None)
      else
        or_else (find (\<lambda>k. strip_media_params k = rng) valid_keys)
          (Option.bind (strip_suffix rng ''/*'') (\<lambda>stripped.
             find (\<lambda>k. starts_with (strip_media_params k) (stripped @ ''/'')) valid_keys)))"

definition negotiate_content_type :: "media_type str_map \<Rightarrow> string str_map \<Rightarrow> content_negotiation" where
  "negotiate_content_type content headers =
     (let valid_keys = filter is_plausible_media_key (map fst content) in
      case find_accept headers of
        None \<Rightarrow> Selected (case valid_keys of k # _ \<Rightarrow> k | [] \<Rightarrow> ''application/json'')
      | Some accept \<Rightarrow>
          (case find_map (\<lambda>(rng, _). match_range valid_keys rng) (sort_ranges (accept_ranges accept)) of
             Some ct \<Rightarrow> Selected ct
           | None \<Rightarrow>
               if valid_keys = [] then Selected ''application/json'' else NotAcceptable_Of valid_keys))"

definition lookup_media_type :: "media_type str_map \<Rightarrow> string \<Rightarrow> media_type option" where
  "lookup_media_type content content_type =
     or_else
       (if is_plausible_media_key content_type then map_of content content_type else None)
       (find_entry (\<lambda>k. is_plausible_media_key k \<and> strip_media_params k = content_type) content)"

section \<open>Bodies\<close>

definition resolve_example_ref :: "openapi \<Rightarrow> example ref_or \<Rightarrow> example option" where
  "resolve_example_ref spec e =
     (case e of
        Item x \<Rightarrow> Some x
      | Reference reference \<Rightarrow>
          Option.bind (strip_prefix reference ''#/components/examples/'') (\<lambda>name.
          Option.bind (spec_components spec) (\<lambda>c.
          Option.bind (map_of (c_examples c) name) as_item)))"

definition example_key_exists :: "openapi \<Rightarrow> media_type option \<Rightarrow> string \<Rightarrow> bool" where
  "example_key_exists spec media name =
     (case media of
        None \<Rightarrow> False
      | Some mt \<Rightarrow> Option.bind (map_of (mt_examples mt) name) (resolve_example_ref spec) \<noteq> None)"

definition example_value :: "openapi \<Rightarrow> example ref_or option \<Rightarrow> json option" where
  "example_value spec e = Option.bind (Option.bind e (resolve_example_ref spec)) ex_value"

definition pick_example_from_media_type ::
  "openapi \<Rightarrow> media_type option \<Rightarrow> string option \<Rightarrow> json option" where
  "pick_example_from_media_type spec media example_key =
     Option.bind media (\<lambda>mt.
       or_else
         (if mt_examples mt = [] then None
          else
            or_else (Option.bind example_key (\<lambda>name. example_value spec (map_of (mt_examples mt) name)))
                    (example_value spec (Some (snd (hd (mt_examples mt))))))
      (or_else (mt_example mt)
         (Option.bind (Option.bind (mt_schema mt) as_item) (\<lambda>s. sd_example (schema_data s)))))"

definition generate_from_media_type ::
  "externals \<Rightarrow> nat \<Rightarrow> (mock_error + json \<times> json) \<Rightarrow> openapi \<Rightarrow> media_type option \<Rightarrow> mock_config
   \<Rightarrow> mock_request \<Rightarrow> (mock_error + json option) run" where
  "generate_from_media_type x n roots spec media cfg req =
     (case Option.bind media mt_schema of
        None \<Rightarrow> Done (Inr None)
      | Some schema_ref \<Rightarrow>
          (case schema_ref_to_json x roots schema_ref of
             Inl e \<Rightarrow> Done (Inl e)
           | Inr schema_json \<Rightarrow>
               if cfg_dynamic cfg then
                 (case x_generate x schema_json (fill_override cfg (apply_jsf_config
                         (generate_options_default\<lparr>go_max_depth := 5, go_always_fake_optionals := True,
                            go_seed := cfg_seed cfg\<rparr>) (read_jsf_config spec))) of
                    Inl source \<Rightarrow> Done (Inl (Generation (mr_method req) (mr_path req) source))
                  | Inr v \<Rightarrow> Done (Inr (Some v)))
               else
                 run_map (\<lambda>v. Inr (Some v))
                   (generate_static n schema_json (fill_override cfg (apply_jsf_config
                      (generate_options_default\<lparr>go_max_depth := 5, go_seed := cfg_seed cfg,
                         go_use_examples_value := True, go_use_default_value := True,
                         go_always_fake_optionals := True\<rparr>) (read_jsf_config spec))))))"

definition build_body ::
  "externals \<Rightarrow> nat \<Rightarrow> (mock_error + json \<times> json) \<Rightarrow> openapi \<Rightarrow> media_type option \<Rightarrow> string
   \<Rightarrow> mock_config \<Rightarrow> mock_request \<Rightarrow> (mock_error + json) run" where
  "build_body x n roots spec media content_type cfg req =
     (let use_examples = \<not> cfg_ignore_examples cfg \<and> \<not> cfg_dynamic cfg;
          missing = (case cfg_example_key cfg of
              Some name \<Rightarrow> if example_key_exists spec media name then None else Some name
            | None \<Rightarrow> None)
      in case (if use_examples then missing else None) of
           Some name \<Rightarrow> Done (Inl (ExampleNotFound content_type name))
         | None \<Rightarrow>
             (case (if use_examples then pick_example_from_media_type spec media (cfg_example_key cfg) else None) of
                Some v \<Rightarrow> Done (Inr v)
              | None \<Rightarrow>
                  run_map (\<lambda>r. case r of Inl e \<Rightarrow> Inl e | Inr v \<Rightarrow> Inr (unwrap_or v JNull))
                    (generate_from_media_type x n roots spec media cfg req)))"

section \<open>The pipeline\<close>

definition has_any_validation_target :: "operation \<Rightarrow> path_item option \<Rightarrow> bool" where
  "has_any_validation_target op item =
     (op_parameters op \<noteq> [] \<or> op_request_body op \<noteq> None
      \<or> (case item of Some i \<Rightarrow> pi_parameters i \<noteq> [] | None \<Rightarrow> False))"

text \<open>After validation: status, delay, encoding, echo, content, headers.\<close>

definition respond ::
  "externals \<Rightarrow> nat \<Rightarrow> (mock_error + json \<times> json) \<Rightarrow> openapi \<Rightarrow> mock_request \<Rightarrow> operation \<Rightarrow> mock_config
   \<Rightarrow> (mock_error + mock_response) run" where
  "respond x n roots spec req op effective =
     (case resolve_status_and_response spec op effective of
        Inl NoResponses \<Rightarrow> Done (Inl NoResponseDefined)
      | Inl (NoResponseForCodeErr code) \<Rightarrow> Done (Inl (NoResponseForCode (mr_method req) (mr_path req) code))
      | Inr (status, resp) \<Rightarrow>
          (let answer = (\<lambda>ct body headers echo.
                 \<lparr>rsp_status = status, rsp_content_type = ct, rsp_body = body, rsp_headers = headers,
                  rsp_delay_ms = read_delay_ms op resp, rsp_content_encoding = read_content_encoding resp,
                  rsp_echo = echo\<rparr>);
               headers = collect_response_headers x n roots spec resp effective
           in if read_echo_flag op then
                run_map (\<lambda>hs. Inr (answer ''application/json'' JNull hs True)) headers
              else if r_content resp = [] then
                run_map (\<lambda>hs. Inr (answer [] JNull hs False)) headers
              else
                (case negotiate_content_type (r_content resp) (mr_headers req) of
                   NotAcceptable_Of acceptable \<Rightarrow> Done (Inl (NotAcceptable acceptable))
                 | Selected ct \<Rightarrow>
                     run_bind (build_body x n roots spec (lookup_media_type (r_content resp) ct) ct effective req)
                       (\<lambda>r. case r of
                          Inl e \<Rightarrow> Done (Inl e)
                        | Inr body \<Rightarrow> run_map (\<lambda>hs. Inr (answer ct body hs False)) headers))))"

definition mock_operation ::
  "externals \<Rightarrow> nat \<Rightarrow> (mock_error + json \<times> json) \<Rightarrow> openapi \<Rightarrow> mock_request \<Rightarrow> mock_config \<Rightarrow> mock_config
   \<Rightarrow> matched_operation \<Rightarrow> (mock_error + mock_response) run" where
  "mock_operation x n roots spec req cfg effective m =
     (case (if cfg_check_security cfg then evaluate_security (x_decode x) spec (mo_operation m) req
            else Authorized) of
        Unauthorized_Result scheme www \<Rightarrow> Done (Inl (Unauthorized scheme www))
      | Authorized \<Rightarrow>
          (let item = Option.bind (map_of (spec_paths spec) (mo_path_template m)) as_item in
           run_bind
             (if has_any_validation_target (mo_operation m) item then
                validate (x_regex x) spec n (Some (mo_path_template m)) (mo_operation m) (mo_path_params m) req
              else Done [])
             (\<lambda>errors.
               if errors \<noteq> [] \<and> cfg_errors cfg then Done (Inl (ValidationFailed errors))
               else respond x n roots spec req (mo_operation m) effective)))"

definition mock ::
  "externals \<Rightarrow> nat \<Rightarrow> (mock_error + json \<times> json) \<Rightarrow> openapi \<Rightarrow> mock_request \<Rightarrow> mock_config
   \<Rightarrow> (mock_error + mock_response) run" where
  "mock x n roots spec req cfg =
     run_bind (from_request (mr_headers req) (mr_query req)) (\<lambda>directives.
       let effective = merge_directives cfg directives in
       case route_request_with_strict (x_decode x) spec (mr_method req) (mr_path req)
              (cfg_strict_method_matching cfg) of
         R_Operation m \<Rightarrow> mock_operation x n roots spec req cfg effective m
       | R_SynthesisedOptions allow \<Rightarrow>
           Done (Inr \<lparr>rsp_status = 200, rsp_content_type = [], rsp_body = JNull,
                      rsp_headers = [(''Allow'', allow)], rsp_delay_ms = None,
                      rsp_content_encoding = None, rsp_echo = False\<rparr>)
       | R_MethodNotAllowed allow \<Rightarrow> Done (Inl (MethodNotAllowed (mr_method req) (mr_path req) allow))
       | R_NotFound \<Rightarrow> Done (Inl (NoRoute (mr_method req) (mr_path req))))"

text \<open>One call with the thread's cache: what it answers, and the cache after a lookup.\<close>

definition mock_with_cache ::
  "externals \<Rightarrow> nat \<Rightarrow> nat \<Rightarrow> openapi \<Rightarrow> mock_request \<Rightarrow> mock_config \<Rightarrow> spec_cache
   \<Rightarrow> (mock_error + mock_response) run" where
  "mock_with_cache x n key spec req cfg cache =
     mock x n (fst (cached_spec_root_and_defs x key spec cache)) spec req cfg"

end
