(* ===== verification/EngineFacts.thy ===== *)
theory EngineFacts
  imports Engine StaticFacts
begin

text \<open>
  Facts about the engine: the cache of the serialised document, content negotiation, the choice of the
  response, the order of the pipeline's checks, what every answer satisfies, and that a call returns.
\<close>

section \<open>The cache of the serialised document\<close>

text \<open>The document that lives at each address, fixed: the cache answers as a fresh serialisation.\<close>

definition root_and_defs :: "externals \<Rightarrow> openapi \<Rightarrow> mock_error + json \<times> json" where
  "root_and_defs x spec =
     (case x_spec_to_value x spec of
        Inl e \<Rightarrow> Inl (SpecSerialization e)
      | Inr v \<Rightarrow> Inr (v, component_schemas v))"

definition cache_inv :: "externals \<Rightarrow> (nat \<Rightarrow> openapi) \<Rightarrow> spec_cache \<Rightarrow> bool" where
  "cache_inv x live cache \<longleftrightarrow>
     (case cache of
        None \<Rightarrow> True
      | Some (key, fp, v, defs) \<Rightarrow> root_and_defs x (live key) = Inr (v, defs))"

interpretation sc: memo_lookup "\<lambda>key. cached_spec_root_and_defs x key (live key)" "cache_inv x live"
  "\<lambda>key. root_and_defs x (live key)" for x live
  by unfold_locales
     (auto simp: cached_spec_root_and_defs_def cache_inv_def root_and_defs_def Let_def split: option.splits sum.splits)

text \<open>
  the per-thread cache of the serialised document is unobservable as long as an address keeps its
  document: any sequence of lookups gives the fresh serialisations.
\<close>

theorem spec_cache_transparent:
  "fst (memo_lookup.run_lookups (\<lambda>key. cached_spec_root_and_defs x key (live key)) keys None)
   = map (\<lambda>key. root_and_defs x (live key)) keys"
  by (rule sc.transparent) (simp add: cache_inv_def)

text \<open>
  an address that is reused defeats the fingerprint. When a document is replaced at the same address by
  one with the same title, version, number of paths, first and last path, a lookup answers with the
  old document's schemas, whatever the new one declares.
\<close>

theorem spec_cache_stale_after_reload:
  assumes "spec_title spec' = spec_title spec" and "spec_version spec' = spec_version spec"
    and "spec_openapi spec' = spec_openapi spec" and "map fst (spec_paths spec') = map fst (spec_paths spec)"
    and "root_and_defs x spec = Inr (v, defs)"
  shows "fst (cached_spec_root_and_defs x key spec' (snd (cached_spec_root_and_defs x key spec None)))
    = Inr (v, defs)"
proof -
  have "spec_fingerprint x spec' = spec_fingerprint x spec"
    using assms(1-4) by (simp add: spec_fingerprint_def)
  then show ?thesis
    using assms(5) by (auto simp: cached_spec_root_and_defs_def root_and_defs_def Let_def split: sum.splits)
qed

section \<open>Negotiation\<close>

lemma set_insert_range [simp]: "set (insert_range r rs) = insert r (set rs)"
  by (induction rs) auto

lemma set_sort_ranges [simp]: "set (sort_ranges rs) = set rs"
  by (induction rs) (simp_all add: sort_ranges_def)

definition falling :: "(string \<times> f64) list \<Rightarrow> bool" where
  "falling rs \<longleftrightarrow> sorted_wrt (\<lambda>a b. \<not> f_lt (snd a) (snd b)) rs"

lemma f_lt_cotrans: "f_lt a b \<Longrightarrow> c \<noteq> NaN \<Longrightarrow> f_lt a c \<or> f_lt c b"
  by (cases a; cases b; cases c) auto

lemma falling_insert:
  "falling rs \<Longrightarrow> \<forall>q \<in> insert (snd r) (snd ` set rs). q \<noteq> NaN \<Longrightarrow> falling (insert_range r rs)"
proof (induction rs)
  case (Cons r' rs)
  have "\<not> f_lt (snd r') (snd r)" if "f_lt (snd r) (snd r')"
    using that f_lt_trans [of "snd r" "snd r'" "snd r"] by auto
  moreover have "\<not> f_lt (snd r) (snd z)" if "\<not> f_lt (snd r) (snd r')" "z \<in> set rs" for z
    using that Cons.prems f_lt_cotrans [of "snd r" "snd z" "snd r'"] by (auto simp: falling_def)
  ultimately show ?case using Cons by (auto simp: falling_def)
qed (simp add: falling_def)

lemma falling_sort: "\<forall>q \<in> snd ` set rs. q \<noteq> NaN \<Longrightarrow> falling (sort_ranges rs)"
proof (induction rs)
  case (Cons r rs)
  then have "falling (sort_ranges rs)" by simp
  then have "falling (insert_range r (sort_ranges rs))"
    using Cons.prems by (intro falling_insert) auto
  then show ?case by (simp add: sort_ranges_def)
qed (simp add: sort_ranges_def falling_def)

lemma find_map_split:
  "find_map f xs = Some y \<Longrightarrow> \<exists>pre x post. xs = pre @ x # post \<and> f x = Some y \<and> (\<forall>z \<in> set pre. f z = None)"
proof (induction xs)
  case (Cons x xs)
  show ?case
  proof (cases "f x")
    case None
    with Cons obtain pre z post where "xs = pre @ z # post" "f z = Some y" "\<forall>z \<in> set pre. f z = None" by auto
    with None show ?thesis by (intro exI [of _ "x # pre"] exI [of _ z] exI [of _ post]) simp
  next
    case (Some z)
    with Cons.prems show ?thesis by (intro exI [of _ "[]"] exI [of _ x] exI [of _ xs]) simp
  qed
qed simp

text \<open>A range accepts a key: the wildcard, the bare media type, or its major type.\<close>

definition range_accepts :: "string \<Rightarrow> string \<Rightarrow> bool" where
  "range_accepts rng key \<longleftrightarrow>
     rng = ''*/*'' \<or> strip_media_params key = rng
     \<or> (\<exists>major. rng = major @ ''/*'' \<and> starts_with (strip_media_params key) (major @ ''/''))"

lemma match_range_Some: "match_range ks rng = Some k \<Longrightarrow> k \<in> set ks \<and> range_accepts rng k"
  using find_SomeD [of _ ks k]
  by (auto simp: match_range_def range_accepts_def or_else_Some_iff bind_eq_Some_conv strip_suffix_Some_iff
      split: if_splits list.splits)

lemma match_range_None: "match_range ks rng = None \<Longrightarrow> k \<in> set ks \<Longrightarrow> \<not> range_accepts rng k"
proof -
  assume n: "match_range ks rng = None" and k: "k \<in> set ks"
  have star: "rng \<noteq> ''*/*''" using n k by (auto simp: match_range_def split: list.splits)
  then have f: "find (\<lambda>k. strip_media_params k = rng) ks = None"
    and g: "Option.bind (strip_suffix rng ''/*'') (\<lambda>stripped.
             find (\<lambda>k. starts_with (strip_media_params k) (stripped @ ''/'')) ks) = None"
    using n by (cases "find (\<lambda>k. strip_media_params k = rng) ks"; simp add: match_range_def)+
  have "\<not> starts_with (strip_media_params k) (major @ ''/'')" if "rng = major @ ''/*''" for major
  proof -
    have "strip_suffix rng ''/*'' = Some major" using that by (simp add: strip_suffix_Some_iff)
    with g k show ?thesis by (auto simp: find_None_iff)
  qed
  with star f k show "\<not> range_accepts rng k" by (auto simp: range_accepts_def find_None_iff)
qed

text \<open>
  C24: content negotiation with an \<open>Accept\<close> header. The selected type is a declared one, accepted by a range of
  the header with positive quality such that no range of higher quality accepts any declared type;
  the request is refused only when no range of positive quality accepts any.
\<close>

theorem negotiation_best:
  assumes "find_accept headers = Some accept"
    and "filter is_plausible_media_key (map fst content) \<noteq> []"
  shows "case negotiate_content_type content headers of
     Selected ct \<Rightarrow> ct \<in> fst ` set content \<and> is_plausible_media_key ct
       \<and> (\<exists>rng q. (rng, q) \<in> set (accept_ranges accept) \<and> range_accepts rng ct
            \<and> (\<forall>(rng', q') \<in> set (accept_ranges accept). f_lt q q' \<longrightarrow>
                 (\<forall>k \<in> fst ` set content. is_plausible_media_key k \<longrightarrow> \<not> range_accepts rng' k)))
   | NotAcceptable_Of ks \<Rightarrow> ks = filter is_plausible_media_key (map fst content)
       \<and> (\<forall>(rng, q) \<in> set (accept_ranges accept). \<forall>k \<in> set ks. \<not> range_accepts rng k)"
proof -
  let ?ks = "filter is_plausible_media_key (map fst content)"
  let ?rs = "sort_ranges (accept_ranges accept)"
  let ?pick = "\<lambda>(rng, _ :: f64). match_range ?ks rng"
  have nan: "\<forall>q \<in> snd ` set (accept_ranges accept). q \<noteq> NaN"
    by (auto simp: accept_ranges_def)
  show ?thesis
  proof (cases "find_map ?pick ?rs")
    case None
    then have "negotiate_content_type content headers = NotAcceptable_Of ?ks"
      using assms by (simp add: negotiate_content_type_def Let_def)
    moreover have "\<not> range_accepts rng k" if "(rng, q) \<in> set (accept_ranges accept)" "k \<in> set ?ks" for rng q k
      using None that by (intro match_range_None [of ?ks]) (auto simp: find_map_None_iff)
    ultimately show ?thesis by fastforce
  next
    case (Some ct)
    then have sel: "negotiate_content_type content headers = Selected ct"
      using assms by (simp add: negotiate_content_type_def Let_def)
    from find_map_split [OF Some] obtain pre rng q post where
      split: "?rs = pre @ (rng, q) # post" and hit: "match_range ?ks rng = Some ct"
      and miss: "\<forall>z \<in> set pre. ?pick z = None" by (metis (no_types, lifting) case_prod_conv surj_pair)
    have mem: "(rng, q) \<in> set (accept_ranges accept)" using split set_sort_ranges by (metis in_set_conv_decomp)
    have "\<not> range_accepts rng' k"
      if "(rng', q') \<in> set (accept_ranges accept)" "f_lt q q'" "k \<in> set ?ks" for rng' q' k
    proof -
      have "(rng', q') \<in> set pre"
      proof -
        have "(rng', q') \<in> set ?rs" using that(1) by simp
        moreover have "\<forall>z \<in> set post. \<not> f_lt q (snd z)"
          using falling_sort [OF nan] split by (simp add: falling_def sorted_wrt_append)
        ultimately show ?thesis using that(2) f_lt_irrefl [of q] unfolding split by auto
      qed
      with miss have "match_range ?ks rng' = None" by auto
      then show ?thesis using that(3) by (rule match_range_None)
    qed
    then have "\<forall>(rng', q') \<in> set (accept_ranges accept). f_lt q q' \<longrightarrow>
        (\<forall>k \<in> fst ` set content. is_plausible_media_key k \<longrightarrow> \<not> range_accepts rng' k)"
      by auto
    with match_range_Some [OF hit] mem have "ct \<in> fst ` set content \<and> is_plausible_media_key ct
       \<and> (\<exists>rng q. (rng, q) \<in> set (accept_ranges accept) \<and> range_accepts rng ct
            \<and> (\<forall>(rng', q') \<in> set (accept_ranges accept). f_lt q q' \<longrightarrow>
                 (\<forall>k \<in> fst ` set content. is_plausible_media_key k \<longrightarrow> \<not> range_accepts rng' k)))"
      by (intro conjI exI [of _ rng] exI [of _ q]) auto
    with sel show ?thesis by simp
  qed
qed

theorem negotiation_best_witness:
  "\<exists>ct. negotiate_content_type
      [(''text/plain'', \<lparr>mt_schema = None, mt_example = None, mt_examples = []\<rparr>),
       (''application/json'', \<lparr>mt_schema = None, mt_example = None, mt_examples = []\<rparr>)]
      [(''Accept'', ''application/*'')] = Selected ct \<and> range_accepts ''application/*'' ct"
proof -
  let ?mt = "\<lparr>mt_schema = None, mt_example = None, mt_examples = []\<rparr> :: media_type"
  let ?content = "[(''text/plain'', ?mt), (''application/json'', ?mt)]"
  have acc: "find_accept [(''Accept'', ''application/*'')] = Some ''application/*''" by code_simp
  have ks: "filter is_plausible_media_key (map fst ?content) \<noteq> []" by code_simp
  have sel: "negotiate_content_type ?content [(''Accept'', ''application/*'')] = Selected ''application/json''"
    by code_simp
  have rs: "accept_ranges ''application/*'' = [(''application/*'', Fin 1)]" by code_simp
  show ?thesis using negotiation_best [OF acc ks] unfolding sel by (auto simp: rs)
qed

text \<open>
  a range of quality zero excludes nothing: the type the client refuses is sent when a wildcard covers it,
  and a range that differs from a declared type by letter case only is refused.
\<close>

theorem accept_exclusion_ignored:
  "negotiate_content_type [(''application/json'', mt)] [(''Accept'', ''application/json;q=0, */*'')]
     = Selected ''application/json''
   \<and> negotiate_content_type [(''application/json'', mt)] [(''Accept'', ''Application/JSON'')]
     = NotAcceptable_Of [''application/json'']"
proof -
  have "is_plausible_media_key ''application/json''"
    "accept_ranges ''application/json;q=0, */*'' = [(''*/*'', Fin 1)]"
    "accept_ranges ''Application/JSON'' = [(''Application/JSON'', Fin 1)]"
    "find_accept [(''Accept'', a)] = Some a"
    "match_range [''application/json''] ''*/*'' = Some ''application/json''"
    "match_range [''application/json''] ''Application/JSON'' = None" for a
    by code_simp+
  then show ?thesis by (simp add: negotiate_content_type_def sort_ranges_def)
qed

section \<open>Status\<close>

definition in_2xx :: "u16 \<Rightarrow> bool" where
  "in_2xx c \<longleftrightarrow> 200 \<le> c \<and> c < 300"

lemma scan_2xx_best:
  "fst (scan_2xx rs best rng) = Some (c, r) \<Longrightarrow>
     (best = Some (c, r) \<or> (Code c, r) \<in> set rs \<and> in_2xx c)
     \<and> (\<forall>mn r'. best = Some (mn, r') \<longrightarrow> c \<le> mn)
     \<and> (\<forall>c' r'. (Code c', r') \<in> set rs \<longrightarrow> in_2xx c' \<longrightarrow> c \<le> c')"
proof (induction rs best rng rule: scan_2xx.induct)
  case (2 key r' rest best rng)
  show ?case
  proof (cases key)
    case (Code d)
    show ?thesis
    proof (cases "200 \<le> d \<and> d < 300 \<and> (case best of None \<Rightarrow> True | Some (mn, _) \<Rightarrow> d < mn)")
      case True
      with Code "2.prems" "2.IH"(1) [OF Code] show ?thesis
        by (auto simp: in_2xx_def split: option.splits prod.splits)
    next
      case False
      then have "in_2xx d \<Longrightarrow> \<exists>mn r''. best = Some (mn, r'') \<and> mn \<le> d"
        by (auto simp: in_2xx_def split: option.splits)
      with False Code "2.prems" "2.IH"(2) [OF Code] show ?thesis by auto (metis order_trans)+
    qed
  next
    case (Range f)
    with "2.prems" "2.IH"(3,4) [OF Range] show ?thesis by (auto split: if_splits)
  qed
qed simp

lemma scan_2xx_keeps [simp]: "fst (scan_2xx rs (Some b) g) \<noteq> None"
  by (induction rs "Some b" g arbitrary: b rule: scan_2xx.induct) (auto split: status_code.splits)

lemma scan_2xx_None:
  "fst (scan_2xx rs best rng) = None \<Longrightarrow> (Code c, r) \<in> set rs \<Longrightarrow> \<not> in_2xx c"
proof (induction rs best rng rule: scan_2xx.induct)
  case (2 key r' rest best rng)
  then have "best = None" using scan_2xx_keeps by (cases best) (metis not_None_eq)+
  with 2 show ?case
    by (auto simp: in_2xx_def simp del: split_paired_Ex not_None_eq split: status_code.splits if_splits)
qed simp

text \<open>
  the response chosen without an override: when the operation declares success codes and the entry of the
  least one resolves, that code and that response are used, whatever the order of the document.
\<close>

theorem lowest_success_code:
  assumes "cfg_force_code cfg = None" and "distinct (map fst (rs_responses (op_responses op)))"
    and "(Code c, r) \<in> set (rs_responses (op_responses op))" and "200 \<le> c \<and> c < 300"
    and "\<forall>(k, r') \<in> set (rs_responses (op_responses op)).
           case k of Code c' \<Rightarrow> 200 \<le> c' \<and> c' < 300 \<longrightarrow> c \<le> c' | Range f \<Rightarrow> True"
    and "resolve_response_ref spec r = Some resp"
  shows "resolve_status_and_response spec op cfg = Inr (c, resp)"
proof -
  let ?rs = "rs_responses (op_responses op)"
  have c: "in_2xx c" using assms(4) by (simp add: in_2xx_def)
  with scan_2xx_None [OF _ assms(3), of None None] obtain c0 r0 where
    b: "fst (scan_2xx ?rs None None) = Some (c0, r0)" by (cases "fst (scan_2xx ?rs None None)") auto
  from scan_2xx_best [OF b] have mem: "(Code c0, r0) \<in> set ?rs" "in_2xx c0" and "c0 \<le> c"
    using assms(3) c by auto
  have "c \<le> c0" using assms(5) mem by (fastforce simp: in_2xx_def)
  with \<open>c0 \<le> c\<close> have "c0 = c" by simp
  with mem assms(2,3) have "r0 = r" by (metis map_of_is_SomeI option.inject)
  with b \<open>c0 = c\<close> assms(1,6) show ?thesis
    by (auto simp: resolve_status_and_response_def lowest_2xx_response_def Let_def split: prod.splits)
qed

section \<open>The pipeline\<close>

text \<open>
  the pre-flight test before validation changes nothing: skipping validation when the operation and its
  path item declare no parameter and no body gives the same diagnostics.
\<close>

theorem preflight_transparent:
  "(if has_any_validation_target op (Option.bind (map_of (spec_paths spec) t) as_item)
    then validate rx spec n (Some t) op path_params req else Done [])
   = validate rx spec n (Some t) op path_params req"
  by (cases "Option.bind (map_of (spec_paths spec) t) as_item")
     (auto simp: has_any_validation_target_def validate_def path_item_parameters_for_template_def Let_def)

lemma cached_error: "fst (cached_spec_root_and_defs x key spec cache) = Inl e \<Longrightarrow> \<exists>s. e = SpecSerialization s"
  by (auto simp: cached_spec_root_and_defs_def Let_def split: option.splits sum.splits if_splits)

text \<open>The errors of the stages after validation.\<close>

definition response_error :: "mock_error \<Rightarrow> bool" where
  "response_error e \<longleftrightarrow>
     (case e of
        NoResponseDefined \<Rightarrow> True | NoResponseForCode _ _ _ \<Rightarrow> True | NotAcceptable _ \<Rightarrow> True
      | ExampleNotFound _ _ \<Rightarrow> True | Generation _ _ _ \<Rightarrow> True | SpecSerialization _ \<Rightarrow> True
      | _ \<Rightarrow> False)"

lemma schema_ref_to_json_error:
  "schema_ref_to_json x roots r = Inl e \<Longrightarrow> (\<And>e'. roots = Inl e' \<Longrightarrow> response_error e') \<Longrightarrow> response_error e"
  by (auto simp: schema_ref_to_json_def response_error_def split: sum.splits ref_or.splits)

lemma sum_case_eq:
  "(case r of Inl e \<Rightarrow> f e | Inr b \<Rightarrow> g b) = y \<longleftrightarrow> (\<exists>e. r = Inl e \<and> f e = y) \<or> (\<exists>b. r = Inr b \<and> g b = y)"
  by (cases r) auto

lemma eq_sum_case:
  "y = (case r of Inl e \<Rightarrow> f e | Inr b \<Rightarrow> g b) \<longleftrightarrow> (\<exists>e. r = Inl e \<and> y = f e) \<or> (\<exists>b. r = Inr b \<and> y = g b)"
  by (cases r) auto

lemma resolve_error_case_eq:
  "(case r of NoResponses \<Rightarrow> a | NoResponseForCodeErr c \<Rightarrow> b c) = y
   \<longleftrightarrow> (r = NoResponses \<and> a = y) \<or> (\<exists>c. r = NoResponseForCodeErr c \<and> b c = y)"
  by (cases r) auto

lemma negotiation_case_eq:
  "(case r of Selected ct \<Rightarrow> a ct | NotAcceptable_Of ks \<Rightarrow> b ks) = y
   \<longleftrightarrow> (\<exists>ct. r = Selected ct \<and> a ct = y) \<or> (\<exists>ks. r = NotAcceptable_Of ks \<and> b ks = y)"
  by (cases r) auto

lemmas outcome_case_eq = sum_case_eq eq_sum_case resolve_error_case_eq negotiation_case_eq

lemma build_body_error:
  assumes "build_body x n roots spec media ct cfg req = Done (Inl e)"
    and "\<And>e'. roots = Inl e' \<Longrightarrow> response_error e'"
  shows "response_error e"
proof -
  have "response_error e" if "generate_from_media_type x n roots spec media cfg req = Done (Inl e)" for e
    using that schema_ref_to_json_error [OF _ assms(2)]
    by (auto simp: generate_from_media_type_def response_error_def split: option.splits sum.splits if_splits)
  with assms(1) show ?thesis
    by (auto simp: build_body_def Let_def response_error_def outcome_case_eq split: option.splits if_splits)
qed

lemma respond_error:
  assumes "respond x n roots spec req op cfg = Done (Inl e)"
    and "\<And>e'. roots = Inl e' \<Longrightarrow> response_error e'"
  shows "response_error e"
  using assms(1) build_body_error [OF _ assms(2)]
  by (auto simp: respond_def Let_def outcome_case_eq response_error_def split: if_splits)

lemma roots_error:
  "roots = fst (cached_spec_root_and_defs x key spec cache) \<Longrightarrow> roots = Inl e' \<Longrightarrow> response_error e'"
  using cached_error [of x key spec cache e'] by (auto simp: response_error_def)

lemma mock_operation_cases:
  assumes "mock_operation x n roots spec req cfg effective m = Done r"
  shows "(cfg_check_security cfg
          \<and> (\<exists>s w. evaluate_security (x_decode x) spec (mo_operation m) req = Unauthorized_Result s w
               \<and> r = Inl (Unauthorized s w)))
    \<or> ((cfg_check_security cfg \<longrightarrow> evaluate_security (x_decode x) spec (mo_operation m) req = Authorized)
       \<and> (\<exists>errors. validate (x_regex x) spec n (Some (mo_path_template m)) (mo_operation m) (mo_path_params m) req
              = Done errors
            \<and> (if errors \<noteq> [] \<and> cfg_errors cfg then r = Inl (ValidationFailed errors)
               else respond x n roots spec req (mo_operation m) effective = Done r)))"
  using assms unfolding mock_operation_def Let_def preflight_transparent
  by (auto split: security_result.splits if_splits)

lemma mock_cases:
  assumes "mock x n roots spec req cfg = Done r"
  shows "\<exists>d. from_request (mr_headers req) (mr_query req) = Done d \<and>
    (case route_request_with_strict (x_decode x) spec (mr_method req) (mr_path req)
            (cfg_strict_method_matching cfg) of
       R_Operation m \<Rightarrow> mock_operation x n roots spec req cfg (merge_directives cfg d) m = Done r
     | R_SynthesisedOptions allow \<Rightarrow> (\<exists>rsp. r = Inr rsp \<and> rsp_headers rsp = [(''Allow'', allow)])
     | R_MethodNotAllowed allow \<Rightarrow> r = Inl (MethodNotAllowed (mr_method req) (mr_path req) allow)
     | R_NotFound \<Rightarrow> r = Inl (NoRoute (mr_method req) (mr_path req)))"
  using assms
  by (cases "route_request_with_strict (x_decode x) spec (mr_method req) (mr_path req) (cfg_strict_method_matching cfg)")
     (auto simp: mock_def Let_def)

lemma respond_answer:
  assumes "respond x n roots spec req op cfg = Done (Inr rsp)"
  shows "\<exists>resp. resolve_status_and_response spec op cfg = Inr (rsp_status rsp, resp)
    \<and> collect_response_headers x n roots spec resp cfg = Done (rsp_headers rsp)"
  using assms
  by (auto simp: respond_def Let_def outcome_case_eq split: if_splits)

text \<open>
  C10: the security gate. A call ends in the refusal of a request exactly when the request is routed, the
  server checks security, and the evaluation of the operation's requirements refuses it, with that
  scheme and challenge; no directive of the request changes it.
\<close>

theorem mock_unauthorized_iff:
  "mock_with_cache x n key spec req cfg cache = Done (Inl (Unauthorized s w)) \<longleftrightarrow>
   (\<exists>d m. from_request (mr_headers req) (mr_query req) = Done d
      \<and> route_request_with_strict (x_decode x) spec (mr_method req) (mr_path req)
            (cfg_strict_method_matching cfg) = R_Operation m
      \<and> cfg_check_security cfg
      \<and> evaluate_security (x_decode x) spec (mo_operation m) req = Unauthorized_Result s w)"
    (is "?lhs \<longleftrightarrow> ?rhs")
proof
  assume ?lhs
  then obtain d m where d: "from_request (mr_headers req) (mr_query req) = Done d"
    and m: "route_request_with_strict (x_decode x) spec (mr_method req) (mr_path req)
            (cfg_strict_method_matching cfg) = R_Operation m"
    and r: "mock_operation x n (fst (cached_spec_root_and_defs x key spec cache)) spec req cfg
              (merge_directives cfg d) m = Done (Inl (Unauthorized s w))"
    using mock_cases [of x n "fst (cached_spec_root_and_defs x key spec cache)" spec req cfg]
    unfolding mock_with_cache_def
    by (cases "route_request_with_strict (x_decode x) spec (mr_method req) (mr_path req)
         (cfg_strict_method_matching cfg)") auto
  from mock_operation_cases [OF r] respond_error [OF _ roots_error [OF refl]]
  have "cfg_check_security cfg
      \<and> evaluate_security (x_decode x) spec (mo_operation m) req = Unauthorized_Result s w"
    by (fastforce simp: response_error_def split: if_splits)
  with d m show ?rhs by blast
next
  assume ?rhs
  then show ?lhs by (auto simp: mock_with_cache_def mock_def mock_operation_def)
qed

text \<open>
  C11: what a successful answer of an operation guarantees: the request passed the security check when the
  server checks security, and it has no diagnostics when the server enforces validation.
\<close>

theorem mock_answers_valid_requests:
  assumes "mock_with_cache x n key spec req cfg cache = Done (Inr rsp)"
    and "route_request_with_strict (x_decode x) spec (mr_method req) (mr_path req)
            (cfg_strict_method_matching cfg) = R_Operation m"
  shows "(cfg_check_security cfg \<longrightarrow> evaluate_security (x_decode x) spec (mo_operation m) req = Authorized)
    \<and> (cfg_errors cfg \<longrightarrow> validate (x_regex x) spec n (Some (mo_path_template m)) (mo_operation m)
          (mo_path_params m) req = Done [])"
proof -
  obtain d where r: "mock_operation x n (fst (cached_spec_root_and_defs x key spec cache)) spec req cfg
              (merge_directives cfg d) m = Done (Inr rsp)"
    using assms by (auto simp: mock_with_cache_def mock_def Let_def)
  from mock_operation_cases [OF r] show ?thesis by (auto split: if_splits)
qed

section \<open>Status and headers of an answer\<close>

lemma respond_forced:
  "respond x n roots spec req op cfg = Done (Inr rsp) \<Longrightarrow> cfg_force_code cfg = Some code \<Longrightarrow> rsp_status rsp = code"
  using respond_answer [of x n roots spec req op cfg rsp]
  by (auto simp: resolve_status_and_response_def Let_def split: option.splits)

text \<open>
  C23: a forced status. When the request's directives, or else the configuration, force a status code, a
  successful answer of an operation has that status.
\<close>

theorem mock_forced_status:
  assumes "mock_with_cache x n key spec req cfg cache = Done (Inr rsp)"
    and "route_request_with_strict (x_decode x) spec (mr_method req) (mr_path req)
            (cfg_strict_method_matching cfg) = R_Operation m"
    and "from_request (mr_headers req) (mr_query req) = Done d"
    and "or_else (pf_code d) (cfg_force_code cfg) = Some code"
  shows "rsp_status rsp = code"
proof -
  have r: "mock_operation x n (fst (cached_spec_root_and_defs x key spec cache)) spec req cfg
              (merge_directives cfg d) m = Done (Inr rsp)"
    using assms(1-3) by (auto simp: mock_with_cache_def mock_def Let_def)
  have "cfg_force_code (merge_directives cfg d) = Some code"
    using assms(4) by (simp add: merge_directives_def)
  with mock_operation_cases [OF r] respond_forced show ?thesis by (fastforce split: if_splits)
qed

lemma header_lines_name: "(k, v) \<in> set (header_lines x name j) \<Longrightarrow> k = name"
  by (auto simp: header_lines_def split: json.splits)

lemma response_header_name:
  "response_header x n roots spec cfg e = Done ys \<Longrightarrow> (k, v) \<in> set ys \<Longrightarrow> k = fst e \<and> \<not> is_filtered_header k"
  by (cases "is_filtered_header (fst e)"; cases "resolve_header_ref spec (snd e)")
     (auto simp: response_header_def dest: header_lines_name split: option.splits)

lemma collect_headers_unfiltered:
  assumes "collect_response_headers x n roots spec resp cfg = Done hs" and "(k, v) \<in> set hs"
  shows "\<not> is_filtered_header k"
proof -
  obtain xss where xss: "map (response_header x n roots spec cfg) (r_headers resp) = map Done xss" "hs = concat xss"
    using assms(1) by (auto simp: collect_response_headers_def run_concat_Done)
  obtain ys where "ys \<in> set xss" and kv: "(k, v) \<in> set ys" using xss(2) assms(2) by auto
  then have "Done ys \<in> set (map Done xss)" by simp
  then obtain e where "response_header x n roots spec cfg e = Done ys"
    unfolding xss(1) [symmetric] by auto
  with kv response_header_name show ?thesis by blast
qed

text \<open>
  no answer carries a header the server computes itself: content encoding, content length, transfer
  encoding, date and connection, in any letter case.
\<close>

theorem mock_headers_unfiltered:
  assumes "mock_with_cache x n key spec req cfg cache = Done (Inr rsp)"
  shows "\<forall>(k, v) \<in> set (rsp_headers rsp). to_ascii_lowercase k \<notin>
     {''content-encoding'', ''content-length'', ''transfer-encoding'', ''date'', ''connection''}"
proof -
  have resp: "\<not> is_filtered_header k"
    if "respond x n roots spec req op c = Done (Inr rsp)" "(k, v) \<in> set (rsp_headers rsp)" for roots op c k v
    using respond_answer [OF that(1)] collect_headers_unfiltered that(2) by blast
  have op: "\<not> is_filtered_header k"
    if "mock_operation x n roots spec req cfg eff m = Done (Inr rsp)" "(k, v) \<in> set (rsp_headers rsp)" for roots eff m k v
    using mock_operation_cases [OF that(1)] resp [OF _ that(2)] by (auto split: if_splits)
  have "\<not> is_filtered_header ''Allow''" by code_simp
  then have "\<not> is_filtered_header k" if "(k, v) \<in> set (rsp_headers rsp)" for k v
    using mock_cases [OF assms [unfolded mock_with_cache_def]] op [OF _ that] that
    by (cases "route_request_with_strict (x_decode x) spec (mr_method req) (mr_path req)
         (cfg_strict_method_matching cfg)") auto
  then show ?thesis by (auto simp: is_filtered_header_def)
qed

section \<open>A call returns\<close>

lemma apply_first_not_Fuel: "apply_first toks part out \<noteq> Fuel"
  by (induction toks part out rule: apply_first.induct)
     (auto intro!: run_bind_not_Fuel simp: strip_prefix_ignore_ascii_case_def slice_to_def slice_from_def
        split: option.splits)

lemma prefer_parts_not_Fuel: "prefer_parts ps out \<noteq> Fuel"
proof (induction ps out rule: prefer_parts.induct)
  case (2 p ps out)
  then have "run_bind (apply_first prefer_tokens (trim p) out) (prefer_parts ps) \<noteq> Fuel"
    by (intro run_bind_not_Fuel apply_first_not_Fuel)
  then show ?case by simp
qed simp

lemma from_request_not_Fuel: "from_request headers query \<noteq> Fuel"
  by (simp add: from_request_def from_prefer_header_def prefer_parts_not_Fuel split: option.splits)

lemma settles_bind:
  assumes "settles r" and "settles q" and "\<And>n v. f n v = Fuel \<Longrightarrow> q n = Fuel"
  shows "settles (\<lambda>n. run_bind (r n) (f n))"
proof -
  from settles_both [OF assms(1,2)] obtain n where "\<forall>m \<ge> n. r m \<noteq> Fuel \<and> q m \<noteq> Fuel" by blast
  then have "\<forall>m \<ge> n. run_bind (r m) (f m) \<noteq> Fuel" using assms(3) by (intro allI impI run_bind_not_Fuel) auto
  then show ?thesis unfolding settles_def by blast
qed

lemma settles_static: "settles (\<lambda>n. generate_static n doc opts)"
proof -
  have "generate_static m doc opts \<noteq> Fuel"
    if "Suc (go_max_depth opts) * Suc (length (known_strings doc opts)) \<le> m" for m
    using generate_static_done [OF that] by auto
  then show ?thesis unfolding settles_def by blast
qed

lemma settles_header_value: "settles (\<lambda>n. pick_header_value x n roots spec h cfg)"
  unfolding pick_header_value_def generate_header_value_from_schema_def Let_def
  by (cases "h_example h"; cases "h_format h"; simp add: settles_const;
      rename_tac r; case_tac "Option.bind (as_item r) (\<lambda>s. sd_example (schema_data s))";
      simp add: settles_const; case_tac "schema_ref_to_json x roots r")
     (auto intro!: settles_const settles_if settles_map settles_static)

lemma settles_headers: "settles (\<lambda>n. collect_response_headers x n roots spec resp cfg)"
  unfolding collect_response_headers_def response_header_def
  by (intro settles_concat settles_if settles_option settles_const settles_map settles_header_value) simp_all

lemma settles_media_body: "settles (\<lambda>n. build_body x n roots spec media ct cfg req)"
proof -
  have "settles (\<lambda>n. generate_from_media_type x n roots spec media cfg req)"
    unfolding generate_from_media_type_def
    by (cases "Option.bind media mt_schema"; simp add: settles_const;
        rename_tac r; case_tac "schema_ref_to_json x roots r")
       (auto intro!: settles_const settles_if settles_map settles_static split: sum.splits)
  then show ?thesis
    unfolding build_body_def Let_def by (intro settles_option settles_const settles_map) simp_all
qed

lemma settles_respond: "settles (\<lambda>n. respond x n roots spec req op cfg)"
proof (cases "resolve_status_and_response spec op cfg")
  case (Inl e)
  then show ?thesis by (cases e) (simp_all add: respond_def settles_const)
next
  case (Inr sr)
  obtain status resp where sr: "sr = (status, resp)" by (cases sr)
  show ?thesis
  proof (cases "negotiate_content_type (r_content resp) (mr_headers req)")
    case (Selected ct)
    then show ?thesis
      unfolding respond_def Inr sr
      by (auto simp: Let_def intro!: settles_if settles_map settles_headers
          settles_bind [OF settles_media_body settles_headers] split: sum.splits)
  next
    case (NotAcceptable_Of ks)
    then show ?thesis
      unfolding respond_def Inr sr
      by (auto simp: Let_def intro!: settles_if settles_map settles_headers settles_const)
  qed
qed


section \<open>A document to instantiate the properties\<close>

definition json_media :: media_type where
  "json_media = \<lparr>mt_schema = None, mt_example = Some (JStr ''ok''), mt_examples = []\<rparr>"

definition json_response :: response where
  "json_response = \<lparr>r_headers = [], r_content = [(''application/json'', json_media)], r_extensions = []\<rparr>"

definition demo_op :: operation where
  "demo_op = (op_example ''list'')\<lparr>op_responses := \<lparr>rs_default = None,
     rs_responses = [(Code 404, Item json_response), (Code 204, Item json_response), (Code 200, Item json_response)]\<rparr>\<rparr>"

definition demo_spec :: openapi where
  "demo_spec = tree_spec\<lparr>spec_paths := [(''/pets'', Item (item_empty\<lparr>pi_get := Some demo_op\<rparr>))]\<rparr>"

definition demo_x :: externals where
  "demo_x = \<lparr>x_decode = Some, x_regex = no_regex, x_spec_to_value = (\<lambda>_. Inr (JObj [])),
     x_schema_to_value = (\<lambda>_. Inr (JObj [])), x_json_to_string = (\<lambda>_. []), x_hash = (\<lambda>_. 0),
     x_generate = (\<lambda>_ _. Inr JNull)\<rparr>"

definition demo_req :: "string \<Rightarrow> mock_request" where
  "demo_req prefer = \<lparr>mr_method = ''GET'', mr_path = ''/pets'', mr_headers = [(''Prefer'', prefer)],
     mr_query = [], mr_body = None\<rparr>"

lemma demo_spec_wf: "wfp (\<lambda>t s. t \<in> set (operands demo_spec s))"
proof -
  have "resolve_schema demo_spec = resolve_schema tree_spec"
    by (auto simp: fun_eq_iff resolve_schema_def demo_spec_def split: ref_or.split)
  then have "operands demo_spec s = operands tree_spec s" for s by (simp add: operands_def)
  then show ?thesis using tree_spec_wf by simp
qed

definition demo_rsp :: "u16 \<Rightarrow> mock_response" where
  "demo_rsp status = \<lparr>rsp_status = status, rsp_content_type = ''application/json'', rsp_body = JStr ''ok'',
     rsp_headers = [], rsp_delay_ms = None, rsp_content_encoding = None, rsp_echo = False\<rparr>"

lemma demo_route:
  "route_request_with_strict (x_decode demo_x) demo_spec (mr_method (demo_req p)) (mr_path (demo_req p))
     (cfg_strict_method_matching mock_config_default)
   = R_Operation \<lparr>mo_operation = demo_op, mo_path_params = [], mo_path_template = ''/pets''\<rparr>"
proof -
  have "route_request_with_strict Some demo_spec ''GET'' ''/pets'' False
    = R_Operation \<lparr>mo_operation = demo_op, mo_path_params = [], mo_path_template = ''/pets''\<rparr>"
    by code_simp
  then show ?thesis by (simp add: demo_x_def demo_req_def mock_config_default_def)
qed


lemma demo_forced:
  "mock_with_cache demo_x 5 0 demo_spec (demo_req ''code=404'') mock_config_default None = Done (Inr (demo_rsp 404))"
  by code_simp

lemma demo_plain:
  "mock_with_cache demo_x 5 0 demo_spec (demo_req []) mock_config_default None = Done (Inr (demo_rsp 200))"
  by code_simp

lemma demo_strict:
  "mock_with_cache demo_x 5 0 demo_spec (demo_req []) (mock_config_default\<lparr>cfg_errors := True\<rparr>) None
     = Done (Inr (demo_rsp 200))"
  by code_simp

theorem mock_answers_valid_requests_witness:
  "evaluate_security (x_decode demo_x) demo_spec demo_op (demo_req []) = Authorized
   \<and> validate (x_regex demo_x) demo_spec 5 (Some ''/pets'') demo_op [] (demo_req []) = Done []"
proof -
  have cfg: "cfg_strict_method_matching (mock_config_default\<lparr>cfg_errors := True\<rparr>) = cfg_strict_method_matching mock_config_default"
    by simp
  show ?thesis
    using mock_answers_valid_requests [OF demo_strict demo_route [of "[]", folded cfg]]
    by (simp add: mock_config_default_def)
qed

theorem mock_forced_status_witness: "rsp_status (demo_rsp 404) = 404"
proof (rule mock_forced_status [OF demo_forced demo_route])
  show "from_request (mr_headers (demo_req ''code=404'')) (mr_query (demo_req ''code=404''))
      = Done (prefer_default\<lparr>pf_code := Some 404\<rparr>)" by code_simp
  show "or_else (pf_code (prefer_default\<lparr>pf_code := Some 404\<rparr>)) (cfg_force_code mock_config_default) = Some 404"
    by simp
qed

theorem mock_headers_unfiltered_witness:
  "list_all (\<lambda>(k, v). to_ascii_lowercase k \<notin>
     {''content-encoding'', ''content-length'', ''transfer-encoding'', ''date'', ''connection''}) (rsp_headers (demo_rsp 200))"
  using mock_headers_unfiltered [OF demo_plain] by (simp only: list_all_iff)

theorem lowest_success_code_witness:
  "resolve_status_and_response demo_spec demo_op mock_config_default = Inr (200, json_response)"
  by (rule lowest_success_code [where r = "Item json_response"])
     (auto simp: mock_config_default_def demo_op_def resolve_response_ref_def)

theorem spec_cache_stale_after_reload_witness:
  "fst (cached_spec_root_and_defs (demo_x\<lparr>x_spec_to_value := (\<lambda>s. Inr (JStr (case spec_components s of None \<Rightarrow> ''new'' | Some _ \<Rightarrow> ''old'')))\<rparr>)
      7 (demo_spec\<lparr>spec_components := None\<rparr>)
      (snd (cached_spec_root_and_defs (demo_x\<lparr>x_spec_to_value := (\<lambda>s. Inr (JStr (case spec_components s of None \<Rightarrow> ''new'' | Some _ \<Rightarrow> ''old'')))\<rparr>)
        7 demo_spec None)))
   = Inr (JStr ''old'', JObj [])"
  by (rule spec_cache_stale_after_reload)
     (simp_all add: root_and_defs_def component_schemas_def json_get_def as_object_def demo_spec_def
        tree_spec_def schemas_only_def)

end
