(* ===== verification/Metrics.thy ===== *)
theory Metrics
  imports Types "HOL-Library.Multiset"
begin

text \<open>
  The metrics registry of \<open>chasm-server/src/main.rs\<close>: its operations one at a time, and the interleavings
  of recorders, whose steps are the atomic accesses of the code (a lookup under the read lock, a
  registration under the write lock, an atomic addition, one turn of the compare-exchange loop).
\<close>

section \<open>State\<close>

type_synonym request_key = "string \<times> string \<times> u16"

text \<open>The \<open>sum_bits\<close> of a series are the bits of a double: the double itself.\<close>

record histogram_series =
  hs_buckets :: "u64 list"
  hs_count :: u64
  hs_sum :: f64

record metrics =
  mx_requests_total :: "(request_key \<times> u64) list"
  mx_validation_errors_total :: "((string \<times> string) \<times> u64) list"
  mx_duration_buckets :: "(string \<times> histogram_series) list"
  mx_inflight :: u64
  mx_spec_reload_failures_total :: u64

definition metrics_default :: metrics where
  "metrics_default =
     \<lparr>mx_requests_total = [], mx_validation_errors_total = [], mx_duration_buckets = [], mx_inflight = 0,
      mx_spec_reload_failures_total = 0\<rparr>"

definition HISTOGRAM_BUCKETS :: "f64 list" where
  "HISTOGRAM_BUCKETS =
     [round64 (5 / 1000), round64 (1 / 100), round64 (5 / 100), round64 (1 / 10), Fin (1 / 2), Fin 1, Fin 5]"

definition histogram_new :: histogram_series where
  "histogram_new = \<lparr>hs_buckets = map (\<lambda>b. 0) HISTOGRAM_BUCKETS, hs_count = 0, hs_sum = Fin 0\<rparr>"

section \<open>Operations\<close>

text \<open>\<open>entry(key).or_insert(d)\<close>: a new key goes to the end of the iteration order.\<close>

definition or_insert :: "'k \<Rightarrow> 'v \<Rightarrow> ('k \<times> 'v) list \<Rightarrow> ('k \<times> 'v) list" where
  "or_insert k d m = (if map_of m k = None then m @ [(k, d)] else m)"

definition modify :: "'k \<Rightarrow> ('v \<Rightarrow> 'v) \<Rightarrow> ('k \<times> 'v) list \<Rightarrow> ('k \<times> 'v) list" where
  "modify k f m = map (\<lambda>(k', v). if k' = k then (k', f v) else (k', v)) m"

definition count_up :: "'k \<Rightarrow> ('k \<times> u64) list \<Rightarrow> ('k \<times> u64) list" where
  "count_up k m = modify k (\<lambda>c. c + 1) (or_insert k 0 m)"

definition record_request :: "string \<Rightarrow> string \<Rightarrow> u16 \<Rightarrow> metrics \<Rightarrow> metrics" where
  "record_request meth route status mx =
     mx\<lparr>mx_requests_total := count_up (to_ascii_uppercase meth, route, status) (mx_requests_total mx)\<rparr>"

definition record_validation_errors :: "validation_error list \<Rightarrow> metrics \<Rightarrow> metrics" where
  "record_validation_errors errors mx =
     mx\<lparr>mx_validation_errors_total :=
         fold (\<lambda>e. count_up (location_as_str (ve_location e), ve_code e)) errors
           (mx_validation_errors_total mx)\<rparr>"

definition observe :: "f64 \<Rightarrow> histogram_series \<Rightarrow> histogram_series" where
  "observe seconds h =
     h\<lparr>hs_buckets := map2 (\<lambda>bound c. if f_le seconds bound then c + 1 else c) HISTOGRAM_BUCKETS (hs_buckets h),
       hs_count := hs_count h + 1, hs_sum := f_add (hs_sum h) seconds\<rparr>"

definition record_duration :: "string \<Rightarrow> f64 \<Rightarrow> metrics \<Rightarrow> metrics" where
  "record_duration meth seconds mx =
     (let upper = to_ascii_uppercase meth
      in mx\<lparr>mx_duration_buckets :=
              modify upper (observe seconds) (or_insert upper histogram_new (mx_duration_buckets mx))\<rparr>)"

definition track_inflight :: "metrics \<Rightarrow> metrics" where
  "track_inflight mx = mx\<lparr>mx_inflight := mx_inflight mx + 1\<rparr>"

definition drop_inflight_guard :: "metrics \<Rightarrow> metrics" where
  "drop_inflight_guard mx = mx\<lparr>mx_inflight := mx_inflight mx - 1\<rparr>"

definition record_reload_failure :: "metrics \<Rightarrow> metrics" where
  "record_reload_failure mx = mx\<lparr>mx_spec_reload_failures_total := mx_spec_reload_failures_total mx + 1\<rparr>"

section \<open>Exposition\<close>

definition nl :: string where "nl = [char_of (10::nat)]"
definition dq :: string where "dq = [CHR 0x22]"

definition escape_char :: "char \<Rightarrow> string" where
  "escape_char c =
     (if c = CHR 0x5C then [CHR 0x5C, CHR 0x5C]
      else if c = CHR 0x22 then [CHR 0x5C, CHR 0x22]
      else if c = char_of (10::nat) then [CHR 0x5C, CHR ''n'']
      else [c])"

definition escape_label_value :: "string \<Rightarrow> string" where
  "escape_label_value v = concat (map escape_char v)"

definition label :: "string \<Rightarrow> string \<Rightarrow> string" where
  "label name v = name @ ''='' @ dq @ v @ dq"

definition sample :: "string \<Rightarrow> string list \<Rightarrow> string \<Rightarrow> string" where
  "sample name labels v =
     name @ (if labels = [] then [] else ''{'' @ join '','' labels @ ''}'') @ '' '' @ v @ nl"

definition show_u64 :: "u64 \<Rightarrow> string" where "show_u64 w = show_nat (unat w)"

definition family :: "string \<Rightarrow> string \<Rightarrow> string \<Rightarrow> string" where
  "family name help kind = ''# HELP '' @ name @ '' '' @ help @ nl @ ''# TYPE '' @ name @ '' '' @ kind @ nl"

definition render_series :: "string \<Rightarrow> histogram_series \<Rightarrow> string" where
  "render_series meth h =
     concat (map2 (\<lambda>bound c. sample ''chasm_request_duration_seconds_bucket''
               [label ''method'' meth, label ''le'' (show_f64 bound)] (show_u64 c))
             HISTOGRAM_BUCKETS (hs_buckets h))
     @ sample ''chasm_request_duration_seconds_bucket''
         [label ''method'' meth, label ''le'' ''+Inf''] (show_u64 (hs_count h))
     @ sample ''chasm_request_duration_seconds_sum'' [label ''method'' meth] (show_f64 (hs_sum h))
     @ sample ''chasm_request_duration_seconds_count'' [label ''method'' meth] (show_u64 (hs_count h))"

definition render :: "metrics \<Rightarrow> string" where
  "render mx =
     family ''chasm_requests_total'' ''Total HTTP requests'' ''counter''
     @ concat (map (\<lambda>((meth, route, status), c).
         sample ''chasm_requests_total''
           [label ''method'' meth, label ''route'' (escape_label_value route),
            label ''status'' (show_nat (unat status))] (show_u64 c)) (mx_requests_total mx))
     @ family ''chasm_inflight_requests'' ''In-flight HTTP requests'' ''gauge''
     @ sample ''chasm_inflight_requests'' [] (show_u64 (mx_inflight mx))
     @ family ''chasm_spec_reload_failures_total''
         ''Total spec reload failures from the --watch debouncer'' ''counter''
     @ sample ''chasm_spec_reload_failures_total'' [] (show_u64 (mx_spec_reload_failures_total mx))
     @ family ''chasm_validation_errors_total'' ''Total request validation errors'' ''counter''
     @ concat (map (\<lambda>((location, code), c).
         sample ''chasm_validation_errors_total'' [label ''location'' location, label ''code'' code]
           (show_u64 c)) (mx_validation_errors_total mx))
     @ family ''chasm_request_duration_seconds'' ''Request duration histogram'' ''histogram''
     @ concat (map (\<lambda>(meth, h). render_series meth h) (mx_duration_buckets mx))"

section \<open>Interleavings\<close>

text \<open>A recorder of a request: not started, past a failed lookup, holding the counter, finished.\<close>

datatype recorder = R_Start request_key | R_Miss request_key | R_Got request_key | R_Done request_key

inductive record_step ::
  "(request_key \<times> u64) list \<times> recorder multiset \<Rightarrow> (request_key \<times> u64) list \<times> recorder multiset \<Rightarrow> bool" where
  hit: "map_of m k \<noteq> None \<Longrightarrow>
    record_step (m, add_mset (R_Start k) rs) (m, add_mset (R_Got k) rs)"
| miss: "map_of m k = None \<Longrightarrow>
    record_step (m, add_mset (R_Start k) rs) (m, add_mset (R_Miss k) rs)"
| register: "record_step (m, add_mset (R_Miss k) rs) (or_insert k 0 m, add_mset (R_Got k) rs)"
| add: "record_step (m, add_mset (R_Got k) rs) (modify k (\<lambda>c. c + 1) m, add_mset (R_Done k) rs)"

text \<open>A recorder of a duration in the loop on the sum; a weak exchange may also fail spuriously.\<close>

datatype adder = A_Load f64 | A_Try f64 f64 | A_Done f64

inductive sum_step :: "f64 \<times> adder multiset \<Rightarrow> f64 \<times> adder multiset \<Rightarrow> bool" where
  load: "sum_step (s, add_mset (A_Load d) as) (s, add_mset (A_Try d s) as)"
| exchange: "sum_step (s, add_mset (A_Try d s) as) (f_add s d, add_mset (A_Done d) as)"
| retry: "sum_step (s, add_mset (A_Try d cur) as) (s, add_mset (A_Try d s) as)"

inductive_cases record_stepE: "record_step s t"
inductive_cases sum_stepE: "sum_step s t"

section \<open>Invariants along a step relation\<close>

locale step_invariant =
  fixes step :: "'s \<Rightarrow> 's \<Rightarrow> bool"
    and inv :: "'s \<Rightarrow> bool"
  assumes inv_step: "inv s \<Longrightarrow> step s t \<Longrightarrow> inv t"
begin

lemma inv_reachable: "step\<^sup>*\<^sup>* s t \<Longrightarrow> inv s \<Longrightarrow> inv t"
  by (induction rule: rtranclp_induct) (auto intro: inv_step)

end

section \<open>Facts: maps\<close>

lemma map_of_or_insert [simp]:
  "map_of (or_insert k d m) k' = (if k' = k \<and> map_of m k = None then Some d else map_of m k')"
  by (auto simp: or_insert_def map_add_def split: option.splits)

lemma map_of_modify [simp]:
  "map_of (modify k f m) k' = (if k' = k then map_option f (map_of m k) else map_of m k')"
  by (induction m) (auto simp: modify_def)

lemma map_of_count_up:
  "map_of (count_up k m) k' =
     (if k' = k then Some (case map_of m k of Some c \<Rightarrow> c + 1 | None \<Rightarrow> 1) else map_of m k')"
  by (auto simp: count_up_def split: option.splits)

section \<open>Facts: counters\<close>

fun recorder_key :: "recorder \<Rightarrow> request_key" where
  "recorder_key (R_Start k) = k"
| "recorder_key (R_Miss k) = k"
| "recorder_key (R_Got k) = k"
| "recorder_key (R_Done k) = k"

definition counter_value :: "('k \<times> u64) list \<Rightarrow> 'k \<Rightarrow> u64" where
  "counter_value m k = (case map_of m k of Some c \<Rightarrow> c | None \<Rightarrow> 0)"

definition record_inv ::
  "(request_key \<times> u64) list \<Rightarrow> request_key multiset
   \<Rightarrow> (request_key \<times> u64) list \<times> recorder multiset \<Rightarrow> bool" where
  "record_inv m0 ks = (\<lambda>(m, rs). image_mset recorder_key rs = ks
     \<and> (\<forall>k. R_Got k \<in># rs \<or> R_Done k \<in># rs \<longrightarrow> map_of m k \<noteq> None)
     \<and> (\<forall>k. counter_value m k = counter_value m0 k + of_nat (count rs (R_Done k))))"

lemma counter_value_or_insert [simp]: "counter_value (or_insert k 0 m) k' = counter_value m k'"
  by (simp add: counter_value_def split: option.splits)

lemma counter_value_modify:
  "counter_value (modify k (\<lambda>c. c + 1) m) k' =
     counter_value m k' + (if k' = k \<and> map_of m k \<noteq> None then 1 else 0)"
  by (auto simp: counter_value_def split: option.splits)

lemma record_inv_iff:
  "record_inv m0 ks (m, rs) \<longleftrightarrow> image_mset recorder_key rs = ks
     \<and> (\<forall>k. R_Got k \<in># rs \<or> R_Done k \<in># rs \<longrightarrow> map_of m k \<noteq> None)
     \<and> (\<forall>k. counter_value m k = counter_value m0 k + of_nat (count rs (R_Done k)))"
  by (simp add: record_inv_def)

lemma record_inv_known:
  "record_inv m0 ks (m, rs) \<Longrightarrow> R_Got k \<in># rs \<or> R_Done k \<in># rs \<Longrightarrow> map_of m k \<noteq> None"
  unfolding record_inv_iff by blast

lemma record_inv_value:
  "record_inv m0 ks (m, rs) \<Longrightarrow> counter_value m k = counter_value m0 k + of_nat (count rs (R_Done k))"
  unfolding record_inv_iff by blast

interpretation rec: step_invariant record_step "record_inv m0 ks" for m0 ks
proof
  fix s t assume inv: "record_inv m0 ks s" and "record_step s t"
  from this(2) show "record_inv m0 ks t"
  proof (cases rule: record_step.cases)
    case (hit m k rs)
    with inv show ?thesis by (simp add: record_inv_iff del: not_None_eq)
  next
    case (miss m k rs)
    with inv show ?thesis by (simp add: record_inv_iff del: not_None_eq)
  next
    case (register m k rs)
    with inv show ?thesis by (simp add: record_inv_iff del: not_None_eq)
  next
    case (add m k rs)
    with inv have "map_of m k \<noteq> None" using record_inv_known [of m0 ks m "add_mset (R_Got k) rs" k] by simp
    with add inv show ?thesis
      by (simp add: record_inv_iff counter_value_modify del: not_None_eq)
  qed
qed

lemma record_progress:
  assumes "r \<in># rs" and "r \<noteq> R_Done (recorder_key r)"
  shows "\<exists>t. record_step (m, rs) t"
proof -
  obtain rs' where rs: "rs = add_mset r rs'" using assms(1) by (blast dest: multi_member_split)
  show ?thesis
  proof (cases r)
    case (R_Start k)
    then show ?thesis using rs by (cases "map_of m k = None") (blast intro: hit miss)+
  qed (use rs assms(2) in \<open>auto intro: register add simp del: split_paired_Ex\<close>)
qed

lemma count_image_R_Done: "count (image_mset R_Done ks) (R_Done k) = count ks k"
  by (induction ks) auto

text \<open>
  C18: no request is lost or counted twice. However the recorders of any number of requests interleave, when
  none can take a step, every counter has grown by the number of requests with its labels.
\<close>

theorem concurrent_requests_counted:
  assumes "record_step\<^sup>*\<^sup>* (m0, image_mset R_Start ks) (m, rs)" and "\<nexists>t. record_step (m, rs) t"
  shows "\<forall>k \<in># ks. map_of m k = Some (counter_value m0 k + of_nat (count ks k))"
proof -
  have "R_Done k \<notin># image_mset R_Start ks" for k by auto
  then have "record_inv m0 ks (m0, image_mset R_Start ks)"
    by (simp only: record_inv_iff not_in_iff) (auto simp: image_mset.compositionality comp_def)
  from rec.inv_reachable [OF assms(1) this] have inv: "record_inv m0 ks (m, rs)" .
  have rs: "rs = image_mset R_Done ks"
  proof -
    have "\<forall>r \<in># rs. r = R_Done (recorder_key r)" using record_progress assms(2) by blast
    then have "rs = image_mset (\<lambda>r. R_Done (recorder_key r)) rs"
      by (metis (no_types, lifting) image_mset_cong multiset.map_ident)
    also have "\<dots> = image_mset R_Done ks" using inv by (auto simp: record_inv_def image_mset.compositionality comp_def)
    finally show ?thesis .
  qed
  show ?thesis
  proof
    fix k assume k: "k \<in># ks"
    have "count rs (R_Done k) = count ks k"
      unfolding rs by (rule count_image_R_Done)
    moreover have "R_Done k \<in># rs" using k rs by simp
    with record_inv_known [OF inv] have "map_of m k \<noteq> None" by blast
    ultimately show "map_of m k = Some (counter_value m0 k + of_nat (count ks k))"
      using record_inv_value [OF inv, of k] by (auto simp: counter_value_def)
  qed
qed

text \<open>Recorders finish: every step brings one of them nearer to its end.\<close>

fun recorder_left :: "recorder \<Rightarrow> nat" where
  "recorder_left (R_Start k) = 3"
| "recorder_left (R_Miss k) = 2"
| "recorder_left (R_Got k) = 1"
| "recorder_left (R_Done k) = 0"

definition steps_left :: "(request_key \<times> u64) list \<times> recorder multiset \<Rightarrow> nat" where
  "steps_left s = sum_mset (image_mset recorder_left (snd s))"

lemma record_step_measure: "record_step s t \<Longrightarrow> steps_left t < steps_left s"
  by (cases rule: record_step.cases) (auto simp: steps_left_def)

lemma recorders_reach_end:
  "\<exists>t. record_step\<^sup>*\<^sup>* s t \<and> (\<nexists>u. record_step t u)"
proof (induction "steps_left s" arbitrary: s rule: less_induct)
  case less
  show ?case
  proof (cases "\<exists>t. record_step s t")
    case True
    then obtain t where t: "record_step s t" ..
    from less [OF record_step_measure [OF t]] t show ?thesis
      by (meson converse_rtranclp_into_rtranclp)
  qed blast
qed

theorem concurrent_requests_counted_witness:
  "\<exists>m rs. record_step\<^sup>*\<^sup>* ([], image_mset R_Start {#(''GET'', ''/p'', 200), (''GET'', ''/p'', 200)#}) (m, rs)
     \<and> map_of m (''GET'', ''/p'', 200) = Some 2"
proof -
  let ?ks = "{#(''GET'', ''/p'', 200), (''GET'', ''/p'', 200)#} :: request_key multiset"
  obtain m rs where r: "record_step\<^sup>*\<^sup>* ([], image_mset R_Start ?ks) (m, rs)" "\<nexists>u. record_step (m, rs) u"
    using recorders_reach_end by (metis surj_pair)
  from concurrent_requests_counted [OF this]
  have "map_of m (''GET'', ''/p'', 200) = Some (counter_value [] (''GET'', ''/p'', 200 :: u16) + of_nat 2)"
    by simp
  then have "map_of m (''GET'', ''/p'', 200) = Some 2" by (simp add: counter_value_def)
  with r(1) show ?thesis by blast
qed

section \<open>Facts: the sum of a series\<close>

fun adder_value :: "adder \<Rightarrow> f64" where
  "adder_value (A_Load d) = d"
| "adder_value (A_Try d cur) = d"
| "adder_value (A_Done d) = d"

fun adder_done :: "adder \<Rightarrow> bool" where
  "adder_done (A_Done d) = True"
| "adder_done _ = False"

definition sum_inv :: "f64 \<Rightarrow> f64 multiset \<Rightarrow> f64 \<times> adder multiset \<Rightarrow> bool" where
  "sum_inv s0 ds = (\<lambda>(s, as). image_mset adder_value as = ds
     \<and> (\<exists>order. mset order = image_mset adder_value (filter_mset adder_done as) \<and> s = foldl f_add s0 order))"

interpretation cas: step_invariant sum_step "sum_inv s0 ds" for s0 ds
proof
  fix s t assume inv: "sum_inv s0 ds s" and "sum_step s t"
  from this(2) show "sum_inv s0 ds t"
  proof (cases rule: sum_step.cases)
    case (exchange cur d as)
    with inv obtain order where "mset order = image_mset adder_value (filter_mset adder_done as)"
      "cur = foldl f_add s0 order" by (auto simp: sum_inv_def)
    with exchange inv show ?thesis
      by (auto simp: sum_inv_def intro!: exI [of _ "order @ [d]"])
  qed (use inv in \<open>auto simp: sum_inv_def\<close>)
qed

text \<open>
  the compare-exchange loop is linearisable. However the additions of concurrent recorders interleave and
  fail, once all have finished the sum is what adding the durations one after the other gives, in
  some order.
\<close>

theorem concurrent_sum_linearisable:
  assumes "sum_step\<^sup>*\<^sup>* (s0, image_mset A_Load ds) (s, as)" and "\<forall>a \<in># as. adder_done a"
  shows "\<exists>order. mset order = ds \<and> s = foldl f_add s0 order"
proof -
  have "sum_inv s0 ds (s0, image_mset A_Load ds)"
    by (auto simp: sum_inv_def image_mset.compositionality comp_def filter_mset_image_mset)
  from cas.inv_reachable [OF assms(1) this] have inv: "sum_inv s0 ds (s, as)" .
  have "filter_mset adder_done as = as" using assms(2) by (simp add: filter_mset_eq_conv)
  with inv show ?thesis by (auto simp: sum_inv_def)
qed

theorem concurrent_sum_linearisable_witness:
  "\<exists>order. mset order = {#Fin 1, Fin 2#} \<and> f_add (f_add (Fin 0) (Fin 2)) (Fin 1) = foldl f_add (Fin 0) order"
proof -
  let ?s = "Fin 0"
  let ?t = "f_add ?s (Fin 2)"
  let ?u = "f_add ?t (Fin 1)"
  have "sum_step (?s, {#A_Load (Fin 1), A_Load (Fin 2)#}) (?s, {#A_Try (Fin 1) ?s, A_Load (Fin 2)#})"
    by (rule load)
  moreover have "sum_step (?s, {#A_Try (Fin 1) ?s, A_Load (Fin 2)#}) (?s, {#A_Try (Fin 1) ?s, A_Try (Fin 2) ?s#})"
    using load [of ?s "Fin 2" "{#A_Try (Fin 1) ?s#}"] by (simp add: add_mset_commute)
  moreover have "sum_step (?s, {#A_Try (Fin 1) ?s, A_Try (Fin 2) ?s#}) (?t, {#A_Try (Fin 1) ?s, A_Done (Fin 2)#})"
    using exchange [of ?s "Fin 2" "{#A_Try (Fin 1) ?s#}"] by (simp add: add_mset_commute)
  moreover have "sum_step (?t, {#A_Try (Fin 1) ?s, A_Done (Fin 2)#}) (?t, {#A_Try (Fin 1) ?t, A_Done (Fin 2)#})"
    by (rule retry)
  moreover have "sum_step (?t, {#A_Try (Fin 1) ?t, A_Done (Fin 2)#}) (?u, {#A_Done (Fin 1), A_Done (Fin 2)#})"
    by (rule exchange)
  ultimately have "sum_step\<^sup>*\<^sup>* (?s, image_mset A_Load {#Fin 1, Fin 2#}) (?u, {#A_Done (Fin 1), A_Done (Fin 2)#})"
    by (auto intro: converse_rtranclp_into_rtranclp)
  from concurrent_sum_linearisable [OF this] show ?thesis by simp
qed

section \<open>Facts: sequences of recordings\<close>

text \<open>The durations of a method, whatever the case it was recorded in.\<close>

definition durations_of :: "string \<Rightarrow> (string \<times> f64) list \<Rightarrow> f64 list" where
  "durations_of meth recs = map snd (filter (\<lambda>(m, d). to_ascii_uppercase m = meth) recs)"

definition histogram_of :: "f64 list \<Rightarrow> histogram_series" where
  "histogram_of ds =
     \<lparr>hs_buckets = map (\<lambda>b. of_nat (length (filter (\<lambda>d. f_le d b) ds))) HISTOGRAM_BUCKETS,
      hs_count = of_nat (length ds), hs_sum = foldl f_add (Fin 0) ds\<rparr>"

lemma map2_map_right: "map2 f xs (map g xs) = map (\<lambda>x. f x (g x)) xs"
  by (induction xs) auto

lemma histogram_of_Nil: "histogram_of [] = histogram_new"
  by (simp add: histogram_of_def histogram_new_def)

lemma observe_histogram_of: "observe d (histogram_of ds) = histogram_of (ds @ [d])"
  by (auto simp: observe_def histogram_of_def map2_map_right)

text \<open>
  after any sequence of recordings the series of a method holds, in each bucket, the number of its
  durations that are not above the bucket's bound (modulo the width of the counter), their number and their
  sum in the order of arrival; a method that was never recorded has no series.
\<close>

theorem histogram_after_recordings:
  "map_of (mx_duration_buckets (fold (\<lambda>(m, d). record_duration m d) recs metrics_default)) meth =
     (let ds = durations_of meth recs in if ds = [] then None else Some (histogram_of ds))"
proof (induction recs rule: rev_induct)
  case Nil
  then show ?case by (simp add: metrics_default_def durations_of_def)
next
  case (snoc r recs)
  obtain m d where r: "r = (m, d)" by (cases r)
  show ?case
    using snoc.IH
    by (auto simp: r record_duration_def Let_def durations_of_def observe_histogram_of
        histogram_of_Nil [symmetric] split: if_splits)
qed

section \<open>Facts: exposition\<close>

text \<open>What a reader of the exposition format makes of an escaped label value.\<close>

fun unescape_label :: "string \<Rightarrow> string" where
  "unescape_label (c # d # cs) =
     (if c = CHR 0x5C then (if d = CHR ''n'' then char_of (10::nat) else d) # unescape_label cs
      else c # unescape_label (d # cs))"
| "unescape_label cs = cs"

lemma unescape_plain: "c \<noteq> CHR 0x5C \<Longrightarrow> unescape_label (c # cs) = c # unescape_label cs"
  by (cases cs) auto

lemma unescape_escape_char: "unescape_label (escape_char c @ cs) = c # unescape_label cs"
  by (auto simp: escape_char_def unescape_plain)

text \<open>
  a route label survives the exposition: an escaped value holds no raw newline (so it cannot start a line
  of its own) and a reader gets the route back from it.
\<close>

theorem escaped_label_roundtrip:
  "unescape_label (escape_label_value v) = v \<and> char_of (10::nat) \<notin> set (escape_label_value v)"
proof (induction v)
  case Nil
  then show ?case by (simp add: escape_label_value_def)
next
  case (Cons c v)
  have "char_of (10::nat) \<notin> set (escape_char c)" by (simp add: escape_char_def char_of_def)
  with Cons show ?case by (simp add: escape_label_value_def unescape_escape_char)
qed

end
