(* ===== verification/Http.thy ===== *)
theory Http
  imports Engine BodyParse Metrics
begin

text \<open>
  The pure parts of \<open>chasm-server/src/main.rs\<close>: what is read from a request, what an answer or an error
  of the engine becomes on the wire, and the label of a request. The \<open>http\<close> crate's checks of header names
  and values, \<open>serde_json\<close>'s parser and printer, the form parser of the \<open>form_urlencoded\<close> crate, the hash
  and the codecs are the fields of one record.
\<close>

record wire =
  w_header_name :: "string \<Rightarrow> string option"
  w_header_value :: "string \<Rightarrow> bool"
  w_to_str :: "string \<Rightarrow> bool"
  w_header_error :: string
  w_decode :: "string \<Rightarrow> string option"
  w_from_slice :: "string \<Rightarrow> string + json"
  w_to_string :: "json \<Rightarrow> string"
  w_form_parse :: "string \<Rightarrow> (string \<times> string) list"
  w_hash_hex :: "string \<Rightarrow> string"
  w_gzip :: "string \<Rightarrow> string + string"
  w_brotli :: "string \<Rightarrow> string + string"
  w_zstd :: "string \<Rightarrow> string + string"
  w_uuid :: string

type_synonym header_map = "(string \<times> string) list"

record http_response =
  hr_status :: u16
  hr_headers :: header_map
  hr_body :: string

text \<open>A header map as its lines, names in lower case. \<open>insert\<close> replaces every line of the name.\<close>

definition hm_get :: "string \<Rightarrow> header_map \<Rightarrow> string option" where
  "hm_get name hs = map_of hs name"

definition hm_remove :: "string \<Rightarrow> header_map \<Rightarrow> header_map" where
  "hm_remove name hs = filter (\<lambda>e. fst e \<noteq> name) hs"

definition hm_insert :: "string \<Rightarrow> string \<Rightarrow> header_map \<Rightarrow> header_map" where
  "hm_insert name v hs = hm_remove name hs @ [(name, v)]"

definition insert_value :: "wire \<Rightarrow> string \<Rightarrow> string \<Rightarrow> http_response \<Rightarrow> http_response" where
  "insert_value w name v resp =
     (if w_header_value w v then resp\<lparr>hr_headers := hm_insert name v (hr_headers resp)\<rparr> else resp)"

definition append_spec_headers :: "wire \<Rightarrow> (string \<times> string) list \<Rightarrow> header_map \<Rightarrow> header_map" where
  "append_spec_headers w headers hs =
     hs @ List.map_filter (\<lambda>(name, v).
       case w_header_name w name of
         None \<Rightarrow> None
       | Some n \<Rightarrow> if w_header_value w v then Some (n, v) else None) headers"

section \<open>Reading a request\<close>

definition is_comma_unsafe_header :: "string \<Rightarrow> bool" where
  "is_comma_unsafe_header name =
     list_ex (\<lambda>s. eq_ignore_ascii_case name s)
       [''cookie'', ''set-cookie'', ''authorization'', ''www-authenticate'', ''proxy-authenticate'']"

definition header_line :: "wire \<Rightarrow> string \<times> string \<Rightarrow> string str_map \<Rightarrow> string str_map" where
  "header_line w line out =
     (case line of (name, v) \<Rightarrow>
        if \<not> w_to_str w v then out
        else case map_of out name of
            None \<Rightarrow> out @ [(name, v)]
          | Some existing \<Rightarrow>
              if is_comma_unsafe_header name then out else modify name (\<lambda>s. s @ '', '' @ v) out)"

definition extract_headers :: "wire \<Rightarrow> header_map \<Rightarrow> string str_map" where
  "extract_headers w hs = fold (header_line w) hs []"

definition decode_component :: "wire \<Rightarrow> string \<Rightarrow> string" where
  "decode_component w s = (if CHR ''%'' \<notin> set s then s else unwrap_or (w_decode w s) s)"

definition query_pair :: "wire \<Rightarrow> string \<Rightarrow> string \<times> string" where
  "query_pair w pair =
     (case split_once CHR ''='' pair of
        Some (k, v) \<Rightarrow> (decode_component w k, decode_component w v)
      | None \<Rightarrow> (decode_component w pair, decode_component w []))"

definition query_entry :: "string \<times> string \<Rightarrow> string str_map \<Rightarrow> string str_map" where
  "query_entry e out =
     (case e of (k, v) \<Rightarrow>
        if map_of out k = None then out @ [(k, v)] else modify k (\<lambda>s. s @ CHR '','' # v) out)"

definition extract_query :: "wire \<Rightarrow> string \<Rightarrow> string str_map" where
  "extract_query w query =
     fold query_entry (map (query_pair w) (filter (\<lambda>s. s \<noteq> []) (split_on CHR ''&'' query))) []"

definition resolve_request_id :: "wire \<Rightarrow> header_map \<Rightarrow> string" where
  "resolve_request_id w hs =
     (case hm_get ''x-request-id'' hs of
        Some v \<Rightarrow> if w_to_str w v \<and> trim v \<noteq> [] then trim v else w_uuid w
      | None \<Rightarrow> w_uuid w)"

definition named_header :: "string \<Rightarrow> string str_map \<Rightarrow> string option" where
  "named_header name headers = find_entry (\<lambda>k. eq_ignore_ascii_case k name) headers"

definition has_header :: "string \<Rightarrow> string str_map \<Rightarrow> bool" where
  "has_header name headers = list_ex (\<lambda>(k, v). eq_ignore_ascii_case k name \<and> v \<noteq> []) headers"

definition collect_pair :: "string \<times> string \<Rightarrow> obj \<Rightarrow> obj" where
  "collect_pair e m =
     (case e of (k, v) \<Rightarrow>
        (case map_of m k of
           None \<Rightarrow> obj_insert k (JStr v) (obj_remove k m)
         | Some (JArr arr) \<Rightarrow> obj_insert k (JArr (arr @ [JStr v])) (obj_remove k m)
         | Some existing \<Rightarrow> obj_insert k (JArr [existing, JStr v]) (obj_remove k m)))"

definition parse_form_urlencoded_to_json :: "wire \<Rightarrow> string \<Rightarrow> json" where
  "parse_form_urlencoded_to_json w bytes = JObj (fold collect_pair (w_form_parse w bytes) [])"

definition essence :: "string \<Rightarrow> string" where
  "essence ct = to_ascii_lowercase (trim (hd (split_on CHR '';'' ct)))"

definition binary_placeholder :: "string \<Rightarrow> json" where
  "binary_placeholder ct = JStr (''<binary '' @ ct @ ''>'')"

definition read_optional_json_body :: "wire \<Rightarrow> string option \<Rightarrow> string \<Rightarrow> json option" where
  "read_optional_json_body w content_type bytes =
     Option.bind content_type (\<lambda>ct_full.
       let ct = essence ct_full in
       if bytes = [] then None
       else if ct = ''application/json'' then ok (w_from_slice w bytes)
       else if ct = ''application/x-www-form-urlencoded'' then Some (parse_form_urlencoded_to_json w bytes)
       else if ct = ''multipart/form-data'' then
         or_else (parse_request_body_for_validation (w_from_slice w) ct_full bytes) (Some (binary_placeholder ct))
       else if ct = ''application/octet-stream'' then Some (binary_placeholder ct)
       else if starts_with ct ''text/'' then Some (binary_placeholder ct)
       else None)"

section \<open>The route label\<close>

definition segment_matches :: "string \<Rightarrow> string \<Rightarrow> bool" where
  "segment_matches template actual =
     (if starts_with template ''{'' \<and> ends_with template ''}''
         \<and> CHR ''{'' \<notin> set (take (length template - 2) (drop 1 template))
      then actual \<noteq> [] else template = actual)"

definition template_matches_path :: "string \<Rightarrow> string \<Rightarrow> bool" where
  "template_matches_path template path =
     (let t_segs = split_on CHR ''/'' template; p_segs = split_on CHR ''/'' path
      in length t_segs = length p_segs \<and> list_all (\<lambda>(t, p). segment_matches t p) (zip t_segs p_segs))"

definition template_literals :: "string \<Rightarrow> nat" where
  "template_literals template =
     length (filter (\<lambda>s. \<not> starts_with s ''{'') (split_on CHR ''/'' template))"

definition better_template :: "string \<Rightarrow> string \<Rightarrow> (nat \<times> string) option \<Rightarrow> (nat \<times> string) option" where
  "better_template path template best =
     (if template_matches_path template path
         \<and> (case best of Some (c, _) \<Rightarrow> c < template_literals template | None \<Rightarrow> True)
      then Some (template_literals template, template) else best)"

definition match_route_template :: "openapi \<Rightarrow> string \<Rightarrow> string" where
  "match_route_template spec path =
     (let normalised = (if 1 < length path \<and> ends_with path ''/'' then butlast path else path)
      in case fold (better_template normalised) (map fst (spec_paths spec)) None of
           Some (_, t) \<Rightarrow> t
         | None \<Rightarrow> ''_unmatched'')"

section \<open>Representations\<close>

definition contains_text :: "string \<Rightarrow> string \<Rightarrow> bool" where
  "contains_text h needle \<longleftrightarrow> find_sub h needle \<noteq> None"

definition with_utf8_charset :: "string \<Rightarrow> string" where
  "with_utf8_charset content_type =
     (if content_type = [] \<or> contains_text (to_ascii_lowercase content_type) ''charset='' then content_type
      else
        (let main_lower = essence content_type;
             is_json = (main_lower = ''application/json''
               \<or> starts_with main_lower ''application/''
                 \<and> (ends_with main_lower ''+json'' \<or> contains_text main_lower ''/json''));
             is_text = starts_with main_lower ''text/'';
             trimmed = trim_end content_type
         in if \<not> is_json \<and> \<not> is_text then content_type
            else if ends_with trimmed '';'' then trimmed @ '' charset=utf-8''
            else trimmed @ ''; charset=utf-8''))"

definition render_response_body :: "wire \<Rightarrow> string \<Rightarrow> json \<Rightarrow> string" where
  "render_response_body w content_type body =
     (case body of
        JStr s \<Rightarrow> if starts_with (essence content_type) ''text/'' then s else w_to_string w body
      | _ \<Rightarrow> w_to_string w body)"

definition compress_body :: "wire \<Rightarrow> string \<Rightarrow> string \<Rightarrow> string + string" where
  "compress_body w encoding data =
     (if encoding = ''gzip'' then w_gzip w data
      else if encoding = ''br'' then w_brotli w data
      else if encoding = ''zstd'' then w_zstd w data
      else Inr data)"

definition is_bodyless_status :: "u16 \<Rightarrow> bool" where
  "is_bodyless_status status \<longleftrightarrow>
     (100 \<le> status \<and> status \<le> 199) \<or> status = 204 \<or> status = 205 \<or> status = 304"

definition build_bodyless_response :: "u16 \<Rightarrow> http_response" where
  "build_bodyless_response status = \<lparr>hr_status = status, hr_headers = [], hr_body = []\<rparr>"

definition response_body_is_stable :: "mock_config \<Rightarrow> bool" where
  "response_body_is_stable cfg \<longleftrightarrow> \<not> cfg_dynamic cfg \<or> cfg_seed cfg \<noteq> None"

definition compute_etag :: "wire \<Rightarrow> string \<Rightarrow> string" where
  "compute_etag w body = dq @ take 16 (w_hash_hex w body) @ dq"

definition accept_prefers_yaml :: "string \<Rightarrow> bool" where
  "accept_prefers_yaml accept =
     list_ex (\<lambda>raw. essence raw \<in> set [''application/yaml'', ''application/x-yaml'', ''text/yaml''])
       (split_on CHR '','' accept)"

section \<open>Problem documents\<close>

definition error_type :: "string \<Rightarrow> string" where
  "error_type fragment = ''https://chasm.dev/errors#'' @ fragment"

definition TYPE_NO_PATH_MATCHED :: string where
  "TYPE_NO_PATH_MATCHED = error_type ''NO_PATH_MATCHED_ERROR''"
definition TYPE_NO_METHOD_MATCHED :: string where
  "TYPE_NO_METHOD_MATCHED = error_type ''NO_METHOD_MATCHED_ERROR''"
definition TYPE_NO_RESPONSE_RESPONSE_DEFINED :: string where
  "TYPE_NO_RESPONSE_RESPONSE_DEFINED = error_type ''NO_RESPONSE_RESPONSE_DEFINED''"
definition TYPE_NO_RESPONSE_DEFINED :: string where
  "TYPE_NO_RESPONSE_DEFINED = error_type ''NO_RESPONSE_DEFINED''"
definition TYPE_UNPROCESSABLE_ENTITY :: string where
  "TYPE_UNPROCESSABLE_ENTITY = error_type ''UNPROCESSABLE_ENTITY''"
definition TYPE_UNAUTHORIZED :: string where
  "TYPE_UNAUTHORIZED = error_type ''UNAUTHORIZED''"
definition TYPE_NOT_FOUND :: string where
  "TYPE_NOT_FOUND = error_type ''NOT_FOUND''"
definition TYPE_NOT_ACCEPTABLE :: string where
  "TYPE_NOT_ACCEPTABLE = error_type ''NOT_ACCEPTABLE''"
definition TYPE_PAYLOAD_TOO_LARGE :: string where
  "TYPE_PAYLOAD_TOO_LARGE = error_type ''PAYLOAD_TOO_LARGE''"

record problem_json =
  pj_type_uri :: string
  pj_title :: string
  pj_status :: u16
  pj_detail :: string
  pj_validation :: "json list option"
  pj_instance :: "string option"

definition problem_to_json :: "problem_json \<Rightarrow> json" where
  "problem_to_json p =
     JObj (obj_of_list
       ([(''type'', JStr (pj_type_uri p)), (''title'', JStr (pj_title p)),
         (''status'', JNum (JInt (uint (pj_status p)))), (''detail'', JStr (pj_detail p))]
        @ (case pj_validation p of Some v \<Rightarrow> [(''validation'', JArr v)] | None \<Rightarrow> [])
        @ (case pj_instance p of Some uri \<Rightarrow> [(''instance'', JStr uri)] | None \<Rightarrow> [])))"

definition instance_uri_for :: "string \<Rightarrow> string" where
  "instance_uri_for request_id = ''urn:chasm:request:'' @ request_id"

definition validation_errors_to_json :: "validation_error list \<Rightarrow> json list" where
  "validation_errors_to_json errors =
     map (\<lambda>e. JObj (obj_of_list
       [(''location'', JArr [JStr (location_as_str (ve_location e)), JStr (ve_field e)]),
        (''severity'', JStr (severity_as_str (ve_severity e))),
        (''code'', JStr (ve_code e)), (''message'', JStr (ve_message e))])) errors"

definition problem_for_error :: "mock_error \<Rightarrow> string \<Rightarrow> string \<Rightarrow> string \<Rightarrow> problem_json" where
  "problem_for_error err meth path request_id =
     (let problem = (\<lambda>type_uri title status detail validation.
            \<lparr>pj_type_uri = type_uri, pj_title = title, pj_status = status, pj_detail = detail,
             pj_validation = validation, pj_instance = Some (instance_uri_for request_id)\<rparr>)
      in case err of
           NoRoute _ _ \<Rightarrow>
             problem TYPE_NO_PATH_MATCHED ''Route not resolved, no path matched'' 404
               (''The route '' @ meth @ '' '' @ path @ '' wasn'' @ [CHR 0x27] @ ''t found in the spec.'') None
         | MethodNotAllowed _ _ _ \<Rightarrow>
             problem TYPE_NO_METHOD_MATCHED ''Route resolved, but no method matched'' 405
               (''The method '' @ meth @ '' is not allowed for '' @ path @ ''.'') None
         | Generation gen_method gen_path source \<Rightarrow>
             problem TYPE_NO_RESPONSE_RESPONSE_DEFINED ''Response body generation failed'' 500
               (''Failed to generate a response body for '' @ gen_method @ '' '' @ gen_path @ '': '' @ source) None
         | NoResponseDefined \<Rightarrow>
             problem TYPE_NO_RESPONSE_RESPONSE_DEFINED ''No response defined for the selected operation'' 500
               ''chasm cannot find a response definition matching the request'' None
         | SpecSerialization msg \<Rightarrow>
             problem TYPE_NO_RESPONSE_RESPONSE_DEFINED ''No response defined for the selected operation'' 500
               (''Spec serialization error: '' @ msg) None
         | ValidationFailed errors \<Rightarrow>
             problem TYPE_UNPROCESSABLE_ENTITY ''Invalid request'' 422
               (''Your request is not valid and no HTTP validation response was found in the spec, ''
                @ ''so chasm is generating this error for you.'')
               (Some (validation_errors_to_json errors))
         | Unauthorized _ _ \<Rightarrow>
             problem TYPE_UNAUTHORIZED ''Invalid security scheme used'' 401
               (''Your request does not fullfil the security requirements and no HTTP unauthorized ''
                @ ''response was found in the spec, so chasm is generating this error for you.'') None
         | ExampleNotFound content_type example_key \<Rightarrow>
             problem TYPE_NOT_FOUND ''The server cannot find the requested content'' 404
               (''Response for contentType: '' @ content_type @ '' and exampleKey: '' @ example_key
                @ '' does not exist.'') None
         | NoResponseForCode m p code \<Rightarrow>
             problem TYPE_NO_RESPONSE_DEFINED ''The server cannot find the requested content'' 404
               (''The response code '' @ show_nat (unat code) @ '' is not defined for '' @ m @ '' '' @ p
                @ '' in the spec.'') None
         | NotAcceptable acceptable \<Rightarrow>
             problem TYPE_NOT_ACCEPTABLE
               ''The server cannot produce a representation for your accept header'' 406
               (''Available content types: '' @ join '', '' acceptable @ ''.'') None)"

section \<open>The echo\<close>

text \<open>
  \<open>String::from_utf8_lossy\<close>: each maximal prefix of a character that is cut short, and each byte that
  starts none, becomes U+FFFD.
\<close>

definition replacement :: string where
  "replacement = [CHR 0xEF, CHR 0xBF, CHR 0xBD]"

definition second_ok :: "nat \<Rightarrow> char \<Rightarrow> bool" where
  "second_ok n b \<longleftrightarrow>
     cont b \<and> (n = 224 \<longrightarrow> 160 \<le> byte b) \<and> (n = 237 \<longrightarrow> byte b < 160)
     \<and> (n = 240 \<longrightarrow> 144 \<le> byte b) \<and> (n = 244 \<longrightarrow> byte b < 144)"

definition char_width :: "nat \<Rightarrow> nat" where
  "char_width n =
     (if n < 128 then 1 else if 194 \<le> n \<and> n < 224 then 2 else if 224 \<le> n \<and> n < 240 then 3
      else if 240 \<le> n \<and> n < 245 then 4 else 0)"

text \<open>The bytes that follow the first of a character, as far as they fit, and whether it is complete.\<close>

fun tail_bytes :: "nat \<Rightarrow> nat \<Rightarrow> string \<Rightarrow> nat" where
  "tail_bytes n k [] = 0"
| "tail_bytes n k (b # s) = (if 0 < k \<and> second_ok n b then Suc (tail_bytes 0 (k - 1) s) else 0)"

function utf8_lossy :: "string \<Rightarrow> string" where
  "utf8_lossy [] = []"
| "utf8_lossy (a # s) =
     (let width = char_width (byte a); k = tail_bytes (byte a) (width - 1) s
      in (if width = Suc k then a # take k s else replacement) @ utf8_lossy (drop k s))"
  by pat_completeness auto
termination
  by (relation "measure length") auto

definition cookie_pair :: "string \<Rightarrow> (string \<times> json) option" where
  "cookie_pair pair =
     map_option (\<lambda>(name, v). (trim name, JStr (trim v))) (split_once CHR ''='' (trim pair))"

definition build_echo_envelope :: "mock_request \<Rightarrow> string \<Rightarrow> json" where
  "build_echo_envelope req raw_body =
     (let headers = obj_of_list (map (\<lambda>(name, v). (name, JStr v)) (mr_headers req));
          cookies = (case named_header ''cookie'' (mr_headers req) of
              Some cookie_header \<Rightarrow> obj_of_list (List.map_filter cookie_pair (split_on CHR '';'' cookie_header))
            | None \<Rightarrow> [])
      in JObj (obj_of_list
           [(''method'', JStr (mr_method req)), (''path'', JStr (mr_path req)),
            (''headers'', JObj headers), (''cookies'', JObj cookies),
            (''body'', JStr (utf8_lossy raw_body)),
            (''contentLength'', JNum (JInt (int (length raw_body))))]))"

end
