(* ===== verification/Server.thy ===== *)
theory Server
  imports Http EngineFacts
begin

text \<open>
  The request handler of \<open>chasm-server/src/main.rs\<close>, from the bytes of a request to a response and the
  metrics, the operator endpoints, and the reload of the watched document.
\<close>

section \<open>State\<close>

record app_state =
  as_spec :: openapi
  as_default_cfg :: mock_config
  as_metrics :: metrics
  as_last_reload_error :: "string option"

text \<open>A request as it arrives; \<open>None\<close> for a body that cannot be read to its end.\<close>

record http_request =
  hq_method :: string
  hq_path :: string
  hq_query :: "string option"
  hq_headers :: header_map
  hq_body :: "string option"

definition MAX_BODY_BYTES :: nat where
  "MAX_BODY_BYTES = 16 * 1024 * 1024"

text \<open>\<open>axum::body::to_bytes\<close> fails on a longer body.\<close>

definition buffered_body :: "http_request \<Rightarrow> string option" where
  "buffered_body req =
     Option.bind (hq_body req) (\<lambda>b. if length b \<le> MAX_BODY_BYTES then Some b else None)"

definition status_code_of :: "u16 \<Rightarrow> u16" where
  "status_code_of status = (if 100 \<le> status \<and> status \<le> 999 then status else 500)"

text \<open>A status, one content type and a body; a content type that is no header value is a 500 of the framework.\<close>

definition into_response :: "wire \<Rightarrow> u16 \<Rightarrow> string \<Rightarrow> string \<Rightarrow> http_response" where
  "into_response w status content_type body =
     (if w_header_value w content_type then
        \<lparr>hr_status = status, hr_headers = [(''content-type'', content_type)], hr_body = body\<rparr>
      else
        \<lparr>hr_status = 500, hr_headers = [(''content-type'', ''text/plain; charset=utf-8'')],
         hr_body = w_header_error w\<rparr>)"

section \<open>Answers\<close>

definition answer_status :: "mock_response \<Rightarrow> u16" where
  "answer_status resp = status_code_of (rsp_status resp)"

definition suppress_body :: "string \<Rightarrow> mock_response \<Rightarrow> bool" where
  "suppress_body meth resp \<longleftrightarrow>
     is_bodyless_status (rsp_status resp) \<or> meth = ''HEAD'' \<or> meth = ''OPTIONS'' \<or> rsp_content_type resp = []"

definition answer_body :: "wire \<Rightarrow> mock_request \<Rightarrow> string \<Rightarrow> mock_response \<Rightarrow> string" where
  "answer_body w req raw_body resp =
     (if suppress_body (mr_method req) resp then []
      else render_response_body w (rsp_content_type resp)
             (if rsp_echo resp then build_echo_envelope req raw_body else rsp_body resp))"

text \<open>The applied encoding and the bytes.\<close>

definition encoded_body :: "wire \<Rightarrow> mock_request \<Rightarrow> string \<Rightarrow> mock_response \<Rightarrow> string option \<times> string" where
  "encoded_body w req raw_body resp =
     (let identity = answer_body w req raw_body resp in
      if suppress_body (mr_method req) resp then (None, [])
      else case rsp_content_encoding resp of
          None \<Rightarrow> (None, identity)
        | Some token \<Rightarrow>
            (case compress_body w token identity of
               Inr compressed \<Rightarrow> (Some token, compressed)
             | Inl e \<Rightarrow> (None, identity)))"

definition answer_etag ::
  "wire \<Rightarrow> mock_config \<Rightarrow> mock_request \<Rightarrow> string \<Rightarrow> mock_response \<Rightarrow> string option" where
  "answer_etag w cfg req raw_body resp =
     (if response_body_is_stable cfg \<and> 200 \<le> answer_status resp \<and> answer_status resp \<le> 299
         \<and> rsp_content_type resp \<noteq> [] \<and> fst (encoded_body w req raw_body resp) = None
      then Some (compute_etag w (answer_body w req raw_body resp)) else None)"

definition drop_content_headers :: "http_response \<Rightarrow> http_response" where
  "drop_content_headers resp =
     resp\<lparr>hr_headers := hm_remove ''content-length'' (hm_remove ''content-type'' (hr_headers resp))\<rparr>"

definition append_headers :: "wire \<Rightarrow> (string \<times> string) list \<Rightarrow> http_response \<Rightarrow> http_response" where
  "append_headers w headers resp = resp\<lparr>hr_headers := append_spec_headers w headers (hr_headers resp)\<rparr>"

definition not_modified :: "wire \<Rightarrow> string \<Rightarrow> mock_response \<Rightarrow> http_response" where
  "not_modified w tag resp =
     drop_content_headers
       (append_headers w (rsp_headers resp) (insert_value w ''etag'' tag (build_bodyless_response 304)))"

definition insert_some :: "wire \<Rightarrow> string \<Rightarrow> string option \<Rightarrow> http_response \<Rightarrow> http_response" where
  "insert_some w name v resp = (case v of Some s \<Rightarrow> insert_value w name s resp | None \<Rightarrow> resp)"

definition full_answer ::
  "wire \<Rightarrow> mock_config \<Rightarrow> mock_request \<Rightarrow> string \<Rightarrow> mock_response \<Rightarrow> http_response" where
  "full_answer w cfg req raw_body resp =
     (let (applied_encoding, bytes) = encoded_body w req raw_body resp;
          bodyless_status = is_bodyless_status (rsp_status resp);
          content_type = rsp_content_type resp;
          start = (if bodyless_status \<or> content_type = [] then
              \<lparr>hr_status = answer_status resp, hr_headers = [(''content-type'', ''application/octet-stream'')],
               hr_body = bytes\<rparr>
            else into_response w (answer_status resp) (with_utf8_charset content_type) bytes);
          appended = append_headers w (rsp_headers resp) start;
          cleaned = (if bodyless_status then drop_content_headers appended
            else if content_type = [] then
              appended\<lparr>hr_headers := hm_remove ''content-type'' (hr_headers appended)\<rparr>
            else appended)
      in insert_some w ''etag'' (answer_etag w cfg req raw_body resp)
           (insert_some w ''content-encoding'' applied_encoding cleaned))"

definition answer_response ::
  "wire \<Rightarrow> mock_config \<Rightarrow> string option \<Rightarrow> mock_request \<Rightarrow> string \<Rightarrow> mock_response \<Rightarrow> http_response" where
  "answer_response w cfg if_none_match req raw_body resp =
     (case answer_etag w cfg req raw_body resp of
        Some tag \<Rightarrow>
          if if_none_match = Some tag then not_modified w tag resp else full_answer w cfg req raw_body resp
      | None \<Rightarrow> full_answer w cfg req raw_body resp)"

section \<open>Errors\<close>

definition problem_response :: "wire \<Rightarrow> problem_json \<Rightarrow> http_response" where
  "problem_response w problem =
     into_response w (status_code_of (pj_status problem)) (with_utf8_charset ''application/problem+json'')
       (w_to_string w (problem_to_json problem))"

definition error_response :: "wire \<Rightarrow> mock_error \<Rightarrow> string \<Rightarrow> string \<Rightarrow> string \<Rightarrow> http_response" where
  "error_response w e meth path request_id =
     (let resp = problem_response w (problem_for_error e meth path request_id)
      in case e of
           Unauthorized _ www \<Rightarrow> insert_some w ''www-authenticate'' www resp
         | MethodNotAllowed _ _ allow \<Rightarrow> insert_value w ''allow'' allow resp
         | ValidationFailed errors \<Rightarrow>
             insert_value w ''sl-violations'' (w_to_string w (JArr (validation_errors_to_json errors))) resp
         | _ \<Rightarrow> resp)"

definition payload_too_large_response :: "wire \<Rightarrow> string \<Rightarrow> http_response" where
  "payload_too_large_response w request_id =
     problem_response w
       \<lparr>pj_type_uri = TYPE_PAYLOAD_TOO_LARGE, pj_title = ''Request body too large'', pj_status = 413,
        pj_detail = ''Request body exceeds the '' @ show_nat MAX_BODY_BYTES @ ''-byte limit.'',
        pj_validation = None, pj_instance = Some (instance_uri_for request_id)\<rparr>"

definition error_metrics :: "mock_error \<Rightarrow> metrics \<Rightarrow> metrics" where
  "error_metrics e mx = (case e of ValidationFailed errors \<Rightarrow> record_validation_errors errors mx | _ \<Rightarrow> mx)"

section \<open>The handler\<close>

record finalize_context =
  fc_request_id :: string
  fc_method :: string
  fc_route :: string
  fc_elapsed :: f64
  fc_had_prefer :: bool
  fc_had_accept :: bool

definition finalize_response ::
  "wire \<Rightarrow> finalize_context \<Rightarrow> http_response \<Rightarrow> metrics \<Rightarrow> http_response \<times> metrics" where
  "finalize_response w ctx resp mx =
     (let vary_parts = (if fc_had_prefer ctx then [''Prefer''] else []) @ (if fc_had_accept ctx then [''Accept''] else []);
          identified = insert_value w ''x-request-id'' (fc_request_id ctx) resp;
          varied = (if vary_parts = [] then identified
                    else insert_value w ''vary'' (join '', '' vary_parts) identified)
      in (varied,
          record_duration (fc_method ctx) (fc_elapsed ctx)
            (record_request (fc_method ctx) (fc_route ctx) (hr_status varied) mx)))"

definition mock_request_of :: "wire \<Rightarrow> http_request \<Rightarrow> string \<Rightarrow> mock_request" where
  "mock_request_of w req bytes =
     (let headers = extract_headers w (hq_headers req)
      in \<lparr>mr_method = hq_method req, mr_path = hq_path req, mr_headers = headers,
          mr_query = extract_query w (unwrap_or (hq_query req) []),
          mr_body = read_optional_json_body w (named_header ''content-type'' headers) bytes\<rparr>)"

definition context_of :: "wire \<Rightarrow> f64 \<Rightarrow> app_state \<Rightarrow> http_request \<Rightarrow> finalize_context" where
  "context_of w elapsed st req =
     (let headers = extract_headers w (hq_headers req)
      in \<lparr>fc_request_id = resolve_request_id w (hq_headers req), fc_method = hq_method req,
          fc_route = match_route_template (as_spec st) (hq_path req), fc_elapsed = elapsed,
          fc_had_prefer = has_header ''prefer'' headers, fc_had_accept = has_header ''accept'' headers\<rparr>)"

text \<open>The response before it is finalised, and the metrics with what the error branch counts.\<close>

definition respond_to ::
  "wire \<Rightarrow> externals \<Rightarrow> nat \<Rightarrow> nat \<Rightarrow> spec_cache \<Rightarrow> app_state \<Rightarrow> http_request \<Rightarrow> metrics
   \<Rightarrow> (http_response \<times> metrics) run" where
  "respond_to w x n key cache st req mx =
     (let request_id = resolve_request_id w (hq_headers req) in
      case buffered_body req of
        None \<Rightarrow> Done (payload_too_large_response w request_id, mx)
      | Some bytes \<Rightarrow>
          (let mock_req = mock_request_of w req bytes
           in run_map
                (\<lambda>outcome. case outcome of
                   Inr resp \<Rightarrow>
                     (answer_response w (as_default_cfg st) (named_header ''if-none-match'' (mr_headers mock_req))
                        mock_req bytes resp, mx)
                 | Inl e \<Rightarrow> (error_response w e (hq_method req) (hq_path req) request_id, error_metrics e mx))
                (mock_with_cache x n key (as_spec st) mock_req (as_default_cfg st) cache)))"

definition handle_request ::
  "wire \<Rightarrow> externals \<Rightarrow> nat \<Rightarrow> nat \<Rightarrow> spec_cache \<Rightarrow> f64 \<Rightarrow> app_state \<Rightarrow> http_request
   \<Rightarrow> (http_response \<times> app_state) run" where
  "handle_request w x n key cache elapsed st req =
     run_map
       (\<lambda>(resp, mx).
          let (final, counted) = finalize_response w (context_of w elapsed st req) resp mx
          in (final, st\<lparr>as_metrics := drop_inflight_guard counted\<rparr>))
       (respond_to w x n key cache st req (track_inflight (as_metrics st)))"

section \<open>Operator endpoints\<close>

definition plain_text :: "u16 \<Rightarrow> string \<Rightarrow> http_response" where
  "plain_text status body =
     \<lparr>hr_status = status, hr_headers = [(''content-type'', ''text/plain; charset=utf-8'')], hr_body = body\<rparr>"

definition readyz_handler :: "app_state \<Rightarrow> http_response" where
  "readyz_handler st =
     (case as_last_reload_error st of
        None \<Rightarrow> plain_text 200 ''ok''
      | Some reason \<Rightarrow> plain_text 503 (''spec reload failed: '' @ reason))"

definition metrics_handler :: "wire \<Rightarrow> app_state \<Rightarrow> http_response" where
  "metrics_handler w st = into_response w 200 ''text/plain; version=0.0.4'' (render (as_metrics st))"

definition build_spec_response :: "wire \<Rightarrow> string \<Rightarrow> string \<Rightarrow> string \<Rightarrow> http_response" where
  "build_spec_response w body content_type request_id =
     insert_value w ''x-request-id'' request_id
       \<lparr>hr_status = 200, hr_headers = [(''content-type'', content_type), (''cache-control'', ''no-cache'')],
        hr_body = body\<rparr>"

definition spec_render_error :: "wire \<Rightarrow> string \<Rightarrow> string \<Rightarrow> http_response" where
  "spec_render_error w request_id reason =
     insert_value w ''x-request-id'' request_id (plain_text 500 (''failed to render spec: '' @ reason))"

text \<open>The renderers of the document, \<open>serde_json::to_string_pretty\<close> and \<open>serde_yaml::to_string\<close>, are parameters.\<close>

definition openapi_document_handler ::
  "wire \<Rightarrow> (openapi \<Rightarrow> string + string) \<Rightarrow> string \<Rightarrow> app_state \<Rightarrow> header_map \<Rightarrow> http_response" where
  "openapi_document_handler w to_text content_type st headers =
     (let request_id = resolve_request_id w headers in
      case to_text (as_spec st) of
        Inr body \<Rightarrow> build_spec_response w body content_type request_id
      | Inl e \<Rightarrow> spec_render_error w request_id e)"

definition openapi_json_handler ::
  "wire \<Rightarrow> (openapi \<Rightarrow> string + string) \<Rightarrow> app_state \<Rightarrow> header_map \<Rightarrow> http_response" where
  "openapi_json_handler w to_json st headers =
     openapi_document_handler w to_json ''application/json; charset=utf-8'' st headers"

definition openapi_yaml_handler ::
  "wire \<Rightarrow> (openapi \<Rightarrow> string + string) \<Rightarrow> app_state \<Rightarrow> header_map \<Rightarrow> http_response" where
  "openapi_yaml_handler w to_yaml st headers =
     openapi_document_handler w to_yaml ''application/yaml; charset=utf-8'' st headers"

definition openapi_negotiated_handler ::
  "wire \<Rightarrow> (openapi \<Rightarrow> string + string) \<Rightarrow> (openapi \<Rightarrow> string + string) \<Rightarrow> app_state \<Rightarrow> header_map
   \<Rightarrow> http_response" where
  "openapi_negotiated_handler w to_json to_yaml st headers =
     (let accept = (case hm_get ''accept'' headers of
            Some v \<Rightarrow> if w_to_str w v then v else []
          | None \<Rightarrow> [])
      in if accept_prefers_yaml accept then openapi_yaml_handler w to_yaml st headers
         else openapi_json_handler w to_json st headers)"

text \<open>The outer middleware: the 408 of the timeout layer becomes a problem document.\<close>

definition rewrite_timeout_response :: "wire \<Rightarrow> http_request \<Rightarrow> http_response \<Rightarrow> http_response" where
  "rewrite_timeout_response w req resp =
     (if hr_status resp \<noteq> 408 then resp
      else
        (let request_id = resolve_request_id w (hq_headers req)
         in insert_value w ''x-request-id'' request_id
              (problem_response w
                 \<lparr>pj_type_uri = ''https://chasm.dev/errors#REQUEST_TIMEOUT'',
                  pj_title = ''Request handler exceeded the configured timeout'', pj_status = 408,
                  pj_detail = ''The handler for '' @ hq_method req @ '' '' @ hq_path req
                    @ '' did not complete within the configured --request-timeout window.'',
                  pj_validation = None, pj_instance = Some (instance_uri_for request_id)\<rparr>)))"

section \<open>Reloading the document\<close>

datatype event_kind = Ev_Modify | Ev_Create | Ev_Remove | Ev_Other

record fs_event =
  ev_kind :: event_kind
  ev_paths :: "string list"

text \<open>\<open>std::fs::canonicalize\<close> reads the file system: the parameter \<open>canon\<close>.\<close>

definition event_path_matches ::
  "(string \<Rightarrow> string option) \<Rightarrow> string \<Rightarrow> string \<Rightarrow> string option \<Rightarrow> bool" where
  "event_path_matches canon event_path target canonical_target =
     (event_path = target
      \<or> (case (canon event_path, canonical_target) of (Some a, Some b) \<Rightarrow> a = b | _ \<Rightarrow> False))"

definition reload_failed :: "string \<Rightarrow> app_state \<Rightarrow> app_state" where
  "reload_failed reason st =
     st\<lparr>as_metrics := record_reload_failure (as_metrics st), as_last_reload_error := Some reason\<rparr>"

definition reload_succeeded :: "openapi \<Rightarrow> app_state \<Rightarrow> app_state" where
  "reload_succeeded new_spec st = st\<lparr>as_last_reload_error := None, as_spec := new_spec\<rparr>"

text \<open>
  One turn of the loop on a burst of events; \<open>loaded\<close> is what loading the file gives if it is loaded.
\<close>

definition reload_burst ::
  "(string \<Rightarrow> string option) \<Rightarrow> string \<Rightarrow> string option \<Rightarrow> fs_event list \<Rightarrow> string + openapi
   \<Rightarrow> app_state \<Rightarrow> app_state" where
  "reload_burst canon path canonical_target pending loaded st =
     (let touches_target = list_ex (\<lambda>ev. list_ex (\<lambda>p. event_path_matches canon p path canonical_target) (ev_paths ev)) pending;
          any_remove = list_ex (\<lambda>ev. ev_kind ev = Ev_Remove) pending;
          any_reload_trigger = list_ex (\<lambda>ev. ev_kind ev = Ev_Modify \<or> ev_kind ev = Ev_Create) pending
      in if \<not> touches_target then st
         else if any_remove \<and> \<not> any_reload_trigger then
           reload_failed (''watched spec file was removed: '' @ path) st
         else if \<not> any_reload_trigger then st
         else case loaded of
             Inr new_spec \<Rightarrow> reload_succeeded new_spec st
           | Inl e \<Rightarrow> reload_failed e st)"

end
