(* ===== verification/ServerFacts.thy ===== *)
theory ServerFacts
  imports Server
begin

text \<open>Properties of the server: what every response carries, what is counted, what is read from a request.\<close>

section \<open>Header maps\<close>

lemma map_of_filter_other [simp]:
  "map_of (filter (\<lambda>e. fst e \<noteq> name') hs) name = (if name = name' then None else map_of hs name)"
  by (induction hs) auto

lemma hm_get_remove [simp]:
  "hm_get name (hm_remove name' hs) = (if name = name' then None else hm_get name hs)"
  by (simp add: hm_get_def hm_remove_def)

lemma hm_get_single: "hm_get name [(name, v)] = Some v"
  by (simp add: hm_get_def)

lemma hm_get_append [simp]:
  "hm_get name (hs @ hs') = (case hm_get name hs of Some v \<Rightarrow> Some v | None \<Rightarrow> hm_get name hs')"
  by (simp add: hm_get_def map_add_def split: option.splits)

lemma hm_get_insert [simp]:
  "hm_get name (hm_insert name' v hs) = (if name = name' then Some v else hm_get name hs)"
  by (auto simp: hm_insert_def hm_get_def hm_remove_def map_add_def split: option.splits)

lemma insert_value_simps [simp]:
  "hr_status (insert_value w name v resp) = hr_status resp"
  "hr_body (insert_value w name v resp) = hr_body resp"
  "hm_get name' (hr_headers (insert_value w name v resp)) =
     (if w_header_value w v \<and> name' = name then Some v else hm_get name' (hr_headers resp))"
  by (auto simp: insert_value_def)

lemma insert_some_simps [simp]:
  "hr_status (insert_some w name v resp) = hr_status resp"
  "hr_body (insert_some w name v resp) = hr_body resp"
  "name' \<noteq> name \<Longrightarrow> hm_get name' (hr_headers (insert_some w name v resp)) = hm_get name' (hr_headers resp)"
  by (auto simp: insert_some_def split: option.splits)

lemma append_headers_simps [simp]:
  "hr_status (append_headers w hs resp) = hr_status resp"
  "hr_body (append_headers w hs resp) = hr_body resp"
  by (simp_all add: append_headers_def)

lemma drop_content_headers_simps [simp]:
  "hr_status (drop_content_headers resp) = hr_status resp"
  "hr_body (drop_content_headers resp) = hr_body resp"
  "hm_get ''content-type'' (hr_headers (drop_content_headers resp)) = None"
  "hm_get ''content-length'' (hr_headers (drop_content_headers resp)) = None"
  by (simp_all add: drop_content_headers_def)

lemma finalize_response_simps [simp]:
  "hr_status (fst (finalize_response w ctx resp mx)) = hr_status resp"
  "hr_body (fst (finalize_response w ctx resp mx)) = hr_body resp"
  "name \<noteq> ''x-request-id'' \<Longrightarrow> name \<noteq> ''vary'' \<Longrightarrow>
     hm_get name (hr_headers (fst (finalize_response w ctx resp mx))) = hm_get name (hr_headers resp)"
  "w_header_value w (fc_request_id ctx) \<Longrightarrow>
     hm_get ''x-request-id'' (hr_headers (fst (finalize_response w ctx resp mx))) = Some (fc_request_id ctx)"
  "snd (finalize_response w ctx resp mx) =
     record_duration (fc_method ctx) (fc_elapsed ctx)
       (record_request (fc_method ctx) (fc_route ctx) (hr_status resp) mx)"
  by (auto simp: finalize_response_def Let_def)

section \<open>Accounting\<close>

lemma record_frames [simp]:
  "mx_inflight (record_request meth route status mx) = mx_inflight mx"
  "mx_inflight (record_duration meth d mx) = mx_inflight mx"
  "mx_inflight (error_metrics e mx) = mx_inflight mx"
  "mx_spec_reload_failures_total (record_request meth route status mx) = mx_spec_reload_failures_total mx"
  "mx_spec_reload_failures_total (record_duration meth d mx) = mx_spec_reload_failures_total mx"
  "mx_spec_reload_failures_total (error_metrics e mx) = mx_spec_reload_failures_total mx"
  "mx_requests_total (record_duration meth d mx) = mx_requests_total mx"
  "mx_requests_total (error_metrics e mx) = mx_requests_total mx"
  "mx_duration_buckets (record_request meth route status mx) = mx_duration_buckets mx"
  "mx_duration_buckets (error_metrics e mx) = mx_duration_buckets mx"
  "mx_duration_buckets (record_duration meth d mx) =
     modify (to_ascii_uppercase meth) (observe d)
       (or_insert (to_ascii_uppercase meth) histogram_new (mx_duration_buckets mx))"
  by (simp_all add: record_request_def record_duration_def error_metrics_def record_validation_errors_def
      Let_def split: mock_error.splits)

lemma respond_to_cases:
  assumes "respond_to w x n key cache st req mx = Done (resp, mx')"
  obtains (too_large) "buffered_body req = None" "mx' = mx"
      "resp = payload_too_large_response w (resolve_request_id w (hq_headers req))"
    | (answer) bytes answer where "buffered_body req = Some bytes" "mx' = mx"
      "mock_with_cache x n key (as_spec st) (mock_request_of w req bytes) (as_default_cfg st) cache
         = Done (Inr answer)"
      "resp = answer_response w (as_default_cfg st)
         (named_header ''if-none-match'' (mr_headers (mock_request_of w req bytes)))
         (mock_request_of w req bytes) bytes answer"
    | (failure) bytes e where "buffered_body req = Some bytes" "mx' = error_metrics e mx"
      "mock_with_cache x n key (as_spec st) (mock_request_of w req bytes) (as_default_cfg st) cache
         = Done (Inl e)"
      "resp = error_response w e (hq_method req) (hq_path req) (resolve_request_id w (hq_headers req))"
proof (cases "buffered_body req")
  case None
  with assms too_large show thesis by (simp add: respond_to_def Let_def)
next
  case (Some bytes)
  with assms obtain outcome where o: "mock_with_cache x n key (as_spec st) (mock_request_of w req bytes)
      (as_default_cfg st) cache = Done outcome"
    by (auto simp: respond_to_def Let_def)
  show thesis
  proof (cases outcome)
    case (Inl e)
    show thesis by (rule failure [OF Some]) (use assms Some o Inl in \<open>auto simp: respond_to_def Let_def\<close>)
  next
    case (Inr a)
    show thesis by (rule answer [OF Some]) (use assms Some o Inr in \<open>auto simp: respond_to_def Let_def\<close>)
  qed
qed

lemma handle_request_Done:
  assumes "handle_request w x n key cache elapsed st req = Done (resp, st')"
  obtains raw mx where "respond_to w x n key cache st req (track_inflight (as_metrics st)) = Done (raw, mx)"
    and "resp = fst (finalize_response w (context_of w elapsed st req) raw mx)"
    and "st' = st\<lparr>as_metrics := drop_inflight_guard
                   (snd (finalize_response w (context_of w elapsed st req) raw mx))\<rparr>"
  using assms by (auto simp: handle_request_def case_prod_beta)

lemma better_template_mem:
  "fold (better_template path) ts best = Some (c, t) \<Longrightarrow> t \<in> set ts \<or> best = Some (c, t)"
  by (induction ts arbitrary: best) (fastforce simp: better_template_def split: if_splits)+

lemma match_route_template_mem:
  "match_route_template spec path \<in> insert ''_unmatched'' (fst ` set (spec_paths spec))"
  using better_template_mem [where best = None and ts = "map fst (spec_paths spec)"]
  by (auto simp: match_route_template_def Let_def split: option.splits)

text \<open>
  C13: every request that is answered is counted once, under its method, its status and a route label that is
  one of the document's templates or the sentinel; its duration is observed once; the in-flight gauge returns
  to its value; the document, the configuration and the reload state stay; the response carries the
  request's identifier.
\<close>

theorem request_accounted:
  assumes "handle_request w x n key cache elapsed st req = Done (resp, st')"
  shows "match_route_template (as_spec st) (hq_path req) \<in> insert ''_unmatched'' (fst ` set (spec_paths (as_spec st)))
    \<and> mx_requests_total (as_metrics st') =
        count_up (to_ascii_uppercase (hq_method req), match_route_template (as_spec st) (hq_path req), hr_status resp)
          (mx_requests_total (as_metrics st))
    \<and> mx_duration_buckets (as_metrics st') =
      mx_duration_buckets (record_duration (hq_method req) elapsed (as_metrics st))
    \<and> mx_inflight (as_metrics st') = mx_inflight (as_metrics st)
    \<and> st' = st\<lparr>as_metrics := as_metrics st'\<rparr>
    \<and> (w_header_value w (resolve_request_id w (hq_headers req)) \<longrightarrow>
      hm_get ''x-request-id'' (hr_headers resp) = Some (resolve_request_id w (hq_headers req)))"
proof -
  obtain raw mx where r: "respond_to w x n key cache st req (track_inflight (as_metrics st)) = Done (raw, mx)"
    and resp: "resp = fst (finalize_response w (context_of w elapsed st req) raw mx)"
    and st': "st' = st\<lparr>as_metrics := drop_inflight_guard
      (snd (finalize_response w (context_of w elapsed st req) raw mx))\<rparr>"
    using handle_request_Done [OF assms] by blast
  have mx: "mx_requests_total mx = mx_requests_total (as_metrics st)"
    "mx_duration_buckets mx = mx_duration_buckets (as_metrics st)"
    "mx_inflight mx = mx_inflight (as_metrics st) + 1"
    by (rule respond_to_cases [OF r]; simp add: track_inflight_def)+
  have "w_header_value w (resolve_request_id w (hq_headers req)) \<longrightarrow>
      hm_get ''x-request-id'' (hr_headers resp) = Some (resolve_request_id w (hq_headers req))"
    using finalize_response_simps(4) [of w "context_of w elapsed st req" raw mx]
    by (simp add: resp context_of_def Let_def)
  moreover have "mx_requests_total (as_metrics st') =
      count_up (to_ascii_uppercase (hq_method req), match_route_template (as_spec st) (hq_path req), hr_status resp)
        (mx_requests_total (as_metrics st))"
    by (simp add: st' resp mx record_request_def drop_inflight_guard_def context_of_def Let_def)
  moreover have "mx_duration_buckets (as_metrics st') =
      mx_duration_buckets (record_duration (hq_method req) elapsed (as_metrics st))"
    by (simp add: st' mx drop_inflight_guard_def context_of_def Let_def)
  moreover have "mx_inflight (as_metrics st') = mx_inflight (as_metrics st)"
    by (simp add: st' mx drop_inflight_guard_def)
  moreover have "st' = st\<lparr>as_metrics := as_metrics st'\<rparr>" by (simp add: st')
  ultimately show ?thesis using match_route_template_mem [of _ "hq_path req"] by blast
qed

section \<open>Statuses without a body\<close>

lemma into_response_bodyless:
  "\<not> is_bodyless_status status \<Longrightarrow> \<not> is_bodyless_status (hr_status (into_response w status ct body))"
  by (simp add: into_response_def is_bodyless_status_def)

lemma problem_response_status:
  "\<not> is_bodyless_status (hr_status (problem_response w (problem_for_error e meth path rid)))"
  unfolding problem_response_def
  by (rule into_response_bodyless)
     (simp add: problem_for_error_def Let_def status_code_of_def is_bodyless_status_def split: mock_error.splits)

lemma error_response_status: "\<not> is_bodyless_status (hr_status (error_response w e meth path rid))"
  using problem_response_status [of w e meth path rid] by (cases e) (simp_all add: error_response_def)

lemma answer_status_bodyless: "is_bodyless_status (answer_status resp) \<Longrightarrow> is_bodyless_status (rsp_status resp)"
  by (auto simp: answer_status_def status_code_of_def is_bodyless_status_def split: if_splits)

definition bare :: "http_response \<Rightarrow> bool" where
  "bare resp \<longleftrightarrow> hr_body resp = [] \<and> hm_get ''content-type'' (hr_headers resp) = None
     \<and> hm_get ''content-length'' (hr_headers resp) = None"

lemma full_answer_bodyless:
  assumes "is_bodyless_status (hr_status (full_answer w cfg req raw_body resp))"
  shows "bare (full_answer w cfg req raw_body resp)"
proof -
  have "is_bodyless_status (rsp_status resp)"
  proof (rule ccontr)
    assume n: "\<not> is_bodyless_status (rsp_status resp)"
    with answer_status_bodyless have "\<not> is_bodyless_status (answer_status resp)" by blast
    with n assms into_response_bodyless [OF this] show False
      by (auto simp: full_answer_def Let_def case_prod_beta split: if_splits)
  qed
  then show ?thesis
    by (simp add: bare_def full_answer_def Let_def case_prod_beta encoded_body_def suppress_body_def)
qed

lemma answer_response_bodyless:
  "is_bodyless_status (hr_status (answer_response w cfg inm req raw_body resp)) \<Longrightarrow>
   bare (answer_response w cfg inm req raw_body resp)"
  using full_answer_bodyless [of w cfg req raw_body resp]
  by (auto simp: answer_response_def not_modified_def build_bodyless_response_def bare_def split: option.splits if_splits)

text \<open>
  C16: no response whose status forbids a body (1xx, 204, 205, 304) has one, a content type or a content
  length, whatever the document declares.
\<close>

theorem bodyless_responses:
  assumes "handle_request w x n key cache elapsed st req = Done (resp, st')"
    and "is_bodyless_status (hr_status resp)"
  shows "bare resp"
proof -
  obtain raw mx where r: "respond_to w x n key cache st req (track_inflight (as_metrics st)) = Done (raw, mx)"
    and resp: "resp = fst (finalize_response w (context_of w elapsed st req) raw mx)"
    using handle_request_Done [OF assms(1)] by blast
  have raw: "is_bodyless_status (hr_status raw)" using assms(2) resp by simp
  from r have "bare raw"
  proof (cases rule: respond_to_cases)
    case too_large
    with raw show ?thesis
      by (simp add: payload_too_large_response_def problem_response_def into_response_def
          status_code_of_def is_bodyless_status_def split: if_splits)
  next
    case answer
    with raw answer_response_bodyless show ?thesis by simp
  next
    case failure
    with raw error_response_status show ?thesis by simp
  qed
  then show ?thesis by (simp add: bare_def resp)
qed

section \<open>Validators and conditional requests\<close>

lemma hm_get_append_other [simp]:
  "w_header_value w tag \<Longrightarrow> hm_get ''etag'' (hr_headers (append_headers w hs (insert_value w ''etag'' tag resp))) = Some tag"
  by (simp add: append_headers_def append_spec_headers_def)

lemma hr_status_full_answer:
  "hr_status (full_answer w cfg req raw_body resp) =
     (if is_bodyless_status (rsp_status resp) \<or> rsp_content_type resp = [] then answer_status resp
      else hr_status (into_response w (answer_status resp) (with_utf8_charset (rsp_content_type resp)) []))"
  by (simp add: full_answer_def Let_def case_prod_beta into_response_def)

text \<open>
  C28: a conditional request is answered with 304 exactly when it repeats the tag of the answer; the full
  answer and the 304 both carry the tag, the 304 has no body, and the tag is the hash of the uncompressed
  body.
\<close>

theorem etag_revalidation:
  assumes "answer_etag w cfg req raw_body resp = Some tag" and "w_header_value w tag"
  shows "answer_response w cfg if_none_match req raw_body resp =
      (if if_none_match = Some tag then not_modified w tag resp else full_answer w cfg req raw_body resp)
    \<and> hm_get ''etag'' (hr_headers (full_answer w cfg req raw_body resp)) = Some tag
    \<and> hm_get ''etag'' (hr_headers (not_modified w tag resp)) = Some tag
    \<and> hr_status (not_modified w tag resp) = 304 \<and> hr_body (not_modified w tag resp) = []
    \<and> tag = compute_etag w (answer_body w req raw_body resp)"
proof (intro conjI)
  show "answer_response w cfg if_none_match req raw_body resp =
      (if if_none_match = Some tag then not_modified w tag resp else full_answer w cfg req raw_body resp)"
    by (simp add: answer_response_def assms(1))
  show "hm_get ''etag'' (hr_headers (full_answer w cfg req raw_body resp)) = Some tag"
    by (simp add: full_answer_def Let_def case_prod_beta insert_some_def assms)
  show "hm_get ''etag'' (hr_headers (not_modified w tag resp)) = Some tag"
    using hm_get_append_other [OF assms(2), of "rsp_headers resp" "build_bodyless_response 304"]
    by (simp add: not_modified_def drop_content_headers_def)
  show "tag = compute_etag w (answer_body w req raw_body resp)"
    using assms(1) by (simp add: answer_etag_def split: if_splits)
qed (simp_all add: not_modified_def build_bodyless_response_def)

text \<open>
  the tag of an answer to HEAD (and OPTIONS) is the hash of no bytes, whatever the representation: two
  different representations share it, and it is not the tag of the GET.
\<close>

theorem head_tag_ignores_representation:
  assumes "mr_method req \<in> {''HEAD'', ''OPTIONS''}" and "\<not> cfg_dynamic cfg"
    and "200 \<le> rsp_status resp" and "rsp_status resp \<le> 299" and "rsp_content_type resp \<noteq> []"
  shows "answer_etag w cfg req raw_body resp = Some (compute_etag w [])"
proof -
  have "answer_status resp = rsp_status resp"
    using order_trans [of "100::u16" 200] order_trans [of _ "299::u16" 999] assms(3,4)
    by (simp add: answer_status_def status_code_of_def)
  then show ?thesis
    using assms by (auto simp: answer_etag_def response_body_is_stable_def answer_body_def encoded_body_def suppress_body_def)
qed

section \<open>Reading a request\<close>

lemma map_of_header_line:
  "map_of (header_line w (name, v) out) k =
     (if k = name \<and> w_to_str w v then
        Some (case map_of out name of
                None \<Rightarrow> v
              | Some s \<Rightarrow> if is_comma_unsafe_header name then s else s @ '', '' @ v)
      else map_of out k)"
  by (auto simp: header_line_def map_add_def split: option.splits)

text \<open>The values of a name that are strings, in the order of the lines.\<close>

definition values_for :: "wire \<Rightarrow> string \<Rightarrow> header_map \<Rightarrow> string list" where
  "values_for w name hs = map snd (filter (\<lambda>(k, v). k = name \<and> w_to_str w v) hs)"

lemma join_snoc: "vs \<noteq> [] \<Longrightarrow> join sep (vs @ [v]) = join sep vs @ sep @ v"
proof (induction vs)
  case (Cons a vs)
  then show ?case by (cases vs) auto
qed simp

text \<open>
  a repeated header is the list of its readable values joined by a comma and a space, except those whose
  values contain commas themselves, where the first line counts.
\<close>

theorem extract_headers_lookup:
  "map_of (extract_headers w hs) name =
     (let vs = values_for w name hs in
      if vs = [] then None
      else if is_comma_unsafe_header name then Some (hd vs) else Some (join '', '' vs))"
proof (induction hs rule: rev_induct)
  case Nil
  then show ?case by (simp add: extract_headers_def values_for_def)
next
  case (snoc e hs)
  obtain k v where e: "e = (k, v)" by (cases e)
  have step: "extract_headers w (hs @ [e]) = header_line w (k, v) (extract_headers w hs)"
    by (simp add: extract_headers_def e)
  have vs: "values_for w name (hs @ [e]) = values_for w name hs @ (if k = name \<and> w_to_str w v then [v] else [])"
    by (simp add: values_for_def e)
  show ?case
    unfolding step map_of_header_line vs
    using snoc.IH by (auto simp: Let_def join_snoc split: if_splits)
qed

text \<open>
  a repeated query key is the list of its decoded values joined by commas, in order; \<open>a=b=c\<close> has the
  value \<open>b=c\<close>, and a key without a value the empty value.
\<close>

theorem extract_query_lookup:
  "map_of (extract_query w query) key =
     (let vs = map snd (filter (\<lambda>e. fst e = key)
        (map (query_pair w) (filter (\<lambda>s. s \<noteq> []) (split_on CHR ''&'' query))))
      in if vs = [] then None else Some (join '','' vs))"
proof -
  have "map_of (fold query_entry es []) key =
    (let vs = map snd (filter (\<lambda>e. fst e = key) es) in if vs = [] then None else Some (join '','' vs))" for es
  proof (induction es rule: rev_induct)
    case (snoc e es)
    obtain k v where "e = (k, v)" by (cases e)
    with snoc show ?case
      by (auto simp: query_entry_def map_add_def Let_def join_snoc split: option.splits if_splits)
  qed simp
  then show ?thesis by (simp only: extract_query_def)
qed

text \<open>
  a body with a JSON suffix type, and a JSON body that does not parse, reach the engine as no body: an
  operation that requires a body refuses the first although a body was sent, and an operation that does not
  accepts the second unchecked.
\<close>

theorem unread_bodies:
  assumes "named_header ''content-type'' (extract_headers w (hq_headers req)) = Some ct"
    and "(\<exists>sub. essence ct = ''application/'' @ sub @ ''+json'')
      \<or> (essence ct = ''application/json'' \<and> (\<exists>e. w_from_slice w bytes = Inl e))"
  shows "mr_body (mock_request_of w req bytes) = None
    \<and> validate_body vv n spec rb (mock_request_of w req bytes) =
       (if rb_required rb then Done [verr LBody ''body'' ''required'' ''body is required'']
        else Done (content_type_errors rb (request_content_type (mock_request_of w req bytes))))"
proof -
  have suffix: "essence ct \<notin> {''application/json'', ''application/x-www-form-urlencoded'', ''multipart/form-data'',
      ''application/octet-stream''} \<and> \<not> starts_with (essence ct) ''text/''"
    if "essence ct = ''application/'' @ sub @ ''+json''" for sub
  proof -
    have "ends_with (essence ct) ''+json''" using that by (auto simp: ends_with_iff)
    then show ?thesis using that by (auto simp: ends_with_def starts_with_def)
  qed
  have "read_optional_json_body w (Some ct) bytes = None"
    using assms(2) suffix by (auto simp: read_optional_json_body_def Let_def ok_def)
  then have "mr_body (mock_request_of w req bytes) = None"
    by (simp add: mock_request_of_def Let_def assms(1))
  then show ?thesis by (simp add: validate_body_def Let_def)
qed

section \<open>Representations\<close>

lemma contains_text_append: "contains_text (a @ needle @ b) needle"
  by (auto simp: contains_text_def find_sub_None_iff)

text \<open>
  annotating a content type with the charset a second time changes nothing, and an annotated type is the
  original, up to trailing white space, with the parameter appended.
\<close>

theorem charset_idempotent:
  "with_utf8_charset (with_utf8_charset ct) = with_utf8_charset ct
   \<and> with_utf8_charset ct \<in> {ct, trim_end ct @ '' charset=utf-8'', trim_end ct @ ''; charset=utf-8''}"
proof -
  have "contains_text (to_ascii_lowercase (x @ '' charset=utf-8'')) ''charset=''" for x
    using contains_text_append [of "to_ascii_lowercase (x @ '' '')" "''charset=''" "''utf-8''"]
    by (simp add: to_ascii_lowercase_def lower_byte_def byte_def)
  moreover have "contains_text (to_ascii_lowercase (x @ ''; charset=utf-8'')) ''charset=''" for x
    using contains_text_append [of "to_ascii_lowercase (x @ ''; '')" "''charset=''" "''utf-8''"]
    by (simp add: to_ascii_lowercase_def lower_byte_def byte_def)
  ultimately have fixed: "with_utf8_charset (x @ '' charset=utf-8'') = x @ '' charset=utf-8''"
    "with_utf8_charset (x @ ''; charset=utf-8'') = x @ ''; charset=utf-8''" for x
    unfolding with_utf8_charset_def by simp_all
  have "with_utf8_charset ct \<in> {ct, trim_end ct @ '' charset=utf-8'', trim_end ct @ ''; charset=utf-8''}"
    unfolding with_utf8_charset_def [of ct] Let_def by (simp split: if_split)
  with fixed show ?thesis by auto
qed

lemma tail_bytes_0 [simp]: "tail_bytes n 0 s = 0"
  by (cases s) simp_all

lemma tail_bytes_le: "tail_bytes n k s \<le> k \<and> tail_bytes n k s \<le> length s"
  by (induction n k s rule: tail_bytes.induct) auto

lemma tail_bytes_take: "tail_bytes n k s = k \<Longrightarrow> tail_bytes n k (take k s @ t) = k"
  by (induction n k s rule: tail_bytes.induct) (auto simp: take_Cons' split: if_splits)

lemma utf8_valid_step:
  "utf8_valid (a # s) \<longleftrightarrow>
     char_width (byte a) = Suc (tail_bytes (byte a) (char_width (byte a) - 1) s)
     \<and> utf8_valid (drop (tail_bytes (byte a) (char_width (byte a) - 1) s) s)"
proof -
  consider "byte a < 128" | "128 \<le> byte a \<and> byte a < 194" | "194 \<le> byte a \<and> byte a < 224"
    | "224 \<le> byte a \<and> byte a < 240" | "240 \<le> byte a \<and> byte a < 245" | "245 \<le> byte a" by linarith
  then show ?thesis
  proof cases
    case 3
    then show ?thesis by (cases s) (auto simp: char_width_def second_ok_def)
  next
    case 4
    then show ?thesis
      by (cases s; cases "tl s") (auto simp: char_width_def second_ok_def numeral_2_eq_2)
  next
    case 5
    then show ?thesis
      by (cases s; cases "tl s"; cases "tl (tl s)") (auto simp: char_width_def second_ok_def numeral_3_eq_3)
  qed (auto simp: char_width_def)
qed

lemma utf8_valid_replacement: "utf8_valid (replacement @ s) = utf8_valid s"
  by (simp add: replacement_def byte_def cont_def)

lemma utf8_valid_char:
  assumes "char_width (byte a) = Suc k" and "tail_bytes (byte a) k s = k"
  shows "utf8_valid (a # take k s @ t) = utf8_valid t"
proof -
  have "length (take k s) = k" using tail_bytes_le [of "byte a" k s] assms(2) by simp
  then show ?thesis using assms tail_bytes_take [OF assms(2), of t] by (simp add: utf8_valid_step del: utf8_valid.simps)
qed

lemma lossy_valid:
  "utf8_valid (utf8_lossy s) \<and> (utf8_lossy s = s) = utf8_valid s"
proof -
  have valid: "utf8_valid (utf8_lossy s)" for s
  proof (induction s rule: utf8_lossy.induct)
    case (2 a s)
    define k where "k = tail_bytes (byte a) (char_width (byte a) - 1) s"
    have IH: "utf8_valid (utf8_lossy (drop k s))" using 2 k_def by blast
    show ?case
    proof (cases "char_width (byte a) = Suc k")
      case True
      then have "char_width (byte a) - 1 = k" by simp
      then have "tail_bytes (byte a) k s = k" using k_def by metis
      then have "utf8_valid (a # take k s @ utf8_lossy (drop k s))"
        using utf8_valid_char [OF True] IH by blast
      then show ?thesis using True unfolding utf8_lossy.simps(2) Let_def k_def [symmetric] by simp
    next
      case False
      then show ?thesis using IH utf8_valid_replacement unfolding utf8_lossy.simps(2) Let_def k_def [symmetric] by simp
    qed
  qed simp
  moreover have "utf8_valid s \<Longrightarrow> utf8_lossy s = s" for s
  proof (induction s rule: utf8_lossy.induct)
    case (2 a s)
    then show ?case by (simp add: utf8_valid_step Let_def del: utf8_valid.simps)
  qed simp
  ultimately show ?thesis by metis
qed

text \<open>
  The echo reports every request body as well-formed UTF-8, changes exactly the bodies that are not, and
  reports the length of what was sent.
\<close>

theorem lossy_body_text:
  "\<exists>s. json_get (build_echo_envelope req raw_body) ''body'' = Some (JStr s)
    \<and> utf8_valid s \<and> (s = raw_body) = utf8_valid raw_body
    \<and> json_get (build_echo_envelope req raw_body) ''contentLength'' = Some (JNum (JInt (int (length raw_body))))"
proof (intro exI conjI)
  show "json_get (build_echo_envelope req raw_body) ''body'' = Some (JStr (utf8_lossy raw_body))"
    by (simp add: build_echo_envelope_def Let_def json_get_def json_accessors map_of_obj_of_list)
  show "json_get (build_echo_envelope req raw_body) ''contentLength'' = Some (JNum (JInt (int (length raw_body))))"
    by (simp add: build_echo_envelope_def Let_def json_get_def json_accessors map_of_obj_of_list)
qed (use lossy_valid in blast)+

section \<open>Problem documents\<close>

lemmas problem_types = TYPE_NO_PATH_MATCHED_def TYPE_NO_METHOD_MATCHED_def TYPE_NO_RESPONSE_RESPONSE_DEFINED_def
  TYPE_NO_RESPONSE_DEFINED_def TYPE_UNPROCESSABLE_ENTITY_def TYPE_UNAUTHORIZED_def TYPE_NOT_FOUND_def
  TYPE_NOT_ACCEPTABLE_def error_type_def

lemma pj_type_uri_problem:
  "pj_type_uri (problem_for_error e meth path rid) =
     (case e of NoRoute _ _ \<Rightarrow> TYPE_NO_PATH_MATCHED | MethodNotAllowed _ _ _ \<Rightarrow> TYPE_NO_METHOD_MATCHED
      | ValidationFailed _ \<Rightarrow> TYPE_UNPROCESSABLE_ENTITY | Unauthorized _ _ \<Rightarrow> TYPE_UNAUTHORIZED
      | ExampleNotFound _ _ \<Rightarrow> TYPE_NOT_FOUND | NoResponseForCode _ _ _ \<Rightarrow> TYPE_NO_RESPONSE_DEFINED
      | NotAcceptable _ \<Rightarrow> TYPE_NOT_ACCEPTABLE | _ \<Rightarrow> TYPE_NO_RESPONSE_RESPONSE_DEFINED)"
  by (cases e) (simp_all add: problem_for_error_def)

lemma pj_status_problem:
  "pj_status (problem_for_error e meth path rid) =
     (case e of NoRoute _ _ \<Rightarrow> 404 | MethodNotAllowed _ _ _ \<Rightarrow> 405 | ValidationFailed _ \<Rightarrow> 422
      | Unauthorized _ _ \<Rightarrow> 401 | ExampleNotFound _ _ \<Rightarrow> 404 | NoResponseForCode _ _ _ \<Rightarrow> 404
      | NotAcceptable _ \<Rightarrow> 406 | _ \<Rightarrow> 500)"
  by (cases e) (simp_all add: problem_for_error_def)

lemma problem_to_json_status:
  "json_get (problem_to_json p) ''status'' = Some (JNum (JInt (uint (pj_status p))))"
  by (simp add: problem_to_json_def json_get_def json_accessors map_of_obj_of_list map_add_def split: option.splits)

lemma problem_content_type:
  "with_utf8_charset ''application/problem+json'' = ''application/problem+json; charset=utf-8''"
  by code_simp

lemma problem_response_fields:
  assumes "w_header_value w ''application/problem+json; charset=utf-8''"
  shows "problem_response w p =
    \<lparr>hr_status = status_code_of (pj_status p),
     hr_headers = [(''content-type'', ''application/problem+json; charset=utf-8'')],
     hr_body = w_to_string w (problem_to_json p)\<rparr>"
  using assms by (simp add: problem_response_def into_response_def problem_content_type)

lemma error_response_frame:
  "hr_status (error_response w e meth path rid) = hr_status (problem_response w (problem_for_error e meth path rid))"
  "hr_body (error_response w e meth path rid) = hr_body (problem_response w (problem_for_error e meth path rid))"
  "hm_get ''content-type'' (hr_headers (error_response w e meth path rid)) =
     hm_get ''content-type'' (hr_headers (problem_response w (problem_for_error e meth path rid)))"
  by (simp_all add: error_response_def Let_def split: mock_error.split)

lemma problem_status_code:
  "status_code_of (pj_status (problem_for_error e meth path rid)) = pj_status (problem_for_error e meth path rid)"
  by (simp add: pj_status_problem status_code_of_def split: mock_error.split)

lemma error_response_fields:
  assumes "w_header_value w ''application/problem+json; charset=utf-8''"
  shows "hr_status (error_response w e meth path rid) = pj_status (problem_for_error e meth path rid)"
    and "hr_body (error_response w e meth path rid) = w_to_string w (problem_to_json (problem_for_error e meth path rid))"
    and "hm_get ''content-type'' (hr_headers (error_response w e meth path rid))
      = Some ''application/problem+json; charset=utf-8''"
  by (simp_all add: error_response_frame problem_response_fields [OF assms] problem_status_code hm_get_single)

text \<open>
  C29: every error of the engine becomes a problem document whose \<open>status\<close> member is the status of the
  response, with the violations exactly for a failed validation; a client that knows the \<open>type\<close> of
  two problems to be the same knows their statuses to be the same.
\<close>

theorem problem_documents:
  assumes "w_header_value w ''application/problem+json; charset=utf-8''"
  shows "\<exists>p. hr_body (error_response w e meth path rid) = w_to_string w (problem_to_json p)
    \<and> json_get (problem_to_json p) ''status'' = Some (JNum (JInt (uint (hr_status (error_response w e meth path rid)))))
    \<and> hm_get ''content-type'' (hr_headers (error_response w e meth path rid))
        = Some ''application/problem+json; charset=utf-8''
    \<and> pj_validation p = (case e of ValidationFailed es \<Rightarrow> Some (validation_errors_to_json es) | _ \<Rightarrow> None)
    \<and> (pj_type_uri p = pj_type_uri (problem_for_error e' meth' path' rid') \<longrightarrow>
        hr_status (error_response w e meth path rid) = hr_status (error_response w e' meth' path' rid'))"
proof (intro exI [of _ "problem_for_error e meth path rid"] conjI)
  show "pj_validation (problem_for_error e meth path rid) =
      (case e of ValidationFailed es \<Rightarrow> Some (validation_errors_to_json es) | _ \<Rightarrow> None)"
    by (cases e) (simp_all add: problem_for_error_def)
  show "pj_type_uri (problem_for_error e meth path rid) = pj_type_uri (problem_for_error e' meth' path' rid') \<longrightarrow>
        hr_status (error_response w e meth path rid) = hr_status (error_response w e' meth' path' rid')"
    unfolding error_response_fields [OF assms] pj_type_uri_problem pj_status_problem
    by (cases e; cases e'; simp add: problem_types)
qed (simp_all add: error_response_fields [OF assms] problem_to_json_status)

section \<open>The timeout middleware\<close>

text \<open>
  a 408 that the document itself declares does not reach the client: behind the timeout middleware it is
  the problem document of an expired handler, the same for every declared body and header.
\<close>

theorem declared_408_replaced:
  assumes "hr_status resp = 408" and "hr_status resp' = 408"
  shows "rewrite_timeout_response w req resp = rewrite_timeout_response w req resp'
    \<and> (\<exists>p. pj_type_uri p = ''https://chasm.dev/errors#REQUEST_TIMEOUT''
          \<and> hr_body (rewrite_timeout_response w req resp) \<in> {w_to_string w (problem_to_json p), w_header_error w})"
  using assms
  by (auto simp: rewrite_timeout_response_def Let_def problem_response_def into_response_def
      intro!: exI [of _ "\<lparr>pj_type_uri = _, pj_title = _, pj_status = _, pj_detail = _, pj_validation = _, pj_instance = _\<rparr>"])

section \<open>Reloads\<close>

text \<open>What a burst of events amounts to: nothing, a failure with its reason, or a new document.\<close>

definition burst_result ::
  "(string \<Rightarrow> string option) \<Rightarrow> string \<Rightarrow> string option \<Rightarrow> fs_event list \<times> (string + openapi)
   \<Rightarrow> (string + openapi) option" where
  "burst_result canon path canonical_target b =
     (if \<not> (\<exists>ev \<in> set (fst b). \<exists>p \<in> set (ev_paths ev). event_path_matches canon p path canonical_target) then None
      else if \<exists>ev \<in> set (fst b). ev_kind ev \<in> {Ev_Modify, Ev_Create} then Some (snd b)
      else if \<exists>ev \<in> set (fst b). ev_kind ev = Ev_Remove then
        Some (Inl (''watched spec file was removed: '' @ path))
      else None)"

definition apply_result :: "string + openapi \<Rightarrow> app_state \<Rightarrow> app_state" where
  "apply_result r st = (case r of Inr new_spec \<Rightarrow> reload_succeeded new_spec st | Inl e \<Rightarrow> reload_failed e st)"

lemma reload_burst_result:
  "reload_burst canon path ct pending loaded st =
     (case burst_result canon path ct (pending, loaded) of None \<Rightarrow> st | Some r \<Rightarrow> apply_result r st)"
  by (auto simp: reload_burst_def burst_result_def apply_result_def list_ex_iff Let_def split: sum.splits)

lemma fold_reload_burst:
  "fold (\<lambda>(pending, loaded). reload_burst canon path ct pending loaded) bursts st =
     fold apply_result (List.map_filter (burst_result canon path ct) bursts) st"
proof (induction bursts arbitrary: st)
  case (Cons b bursts)
  then show ?case
    by (cases b) (auto simp: reload_burst_result List.map_filter_simps split: option.splits)
qed (simp add: List.map_filter_simps)

definition loaded_document :: "string + openapi \<Rightarrow> openapi option" where
  "loaded_document r = (case r of Inr d \<Rightarrow> Some d | Inl e \<Rightarrow> None)"

definition load_failed :: "string + openapi \<Rightarrow> bool" where
  "load_failed r = (case r of Inr d \<Rightarrow> False | Inl e \<Rightarrow> True)"

lemma fold_apply_result:
  "as_spec (fold apply_result rs st) = last (as_spec st # List.map_filter loaded_document rs)"
  "hr_status (readyz_handler (fold apply_result rs st)) =
     (if rs = [] then hr_status (readyz_handler st) else if load_failed (last rs) then 503 else 200)"
  "mx_spec_reload_failures_total (as_metrics (fold apply_result rs st)) =
     mx_spec_reload_failures_total (as_metrics st) + of_nat (length (filter load_failed rs))"
  "mx_requests_total (as_metrics (fold apply_result rs st)) = mx_requests_total (as_metrics st)"
proof (induction rs rule: rev_induct)
  case (snoc r rs)
  case 1
  show ?case using snoc(1)
    by (cases r) (auto simp: apply_result_def loaded_document_def List.map_filter_def reload_succeeded_def
        reload_failed_def)
  case 2
  show ?case
    by (cases r) (simp_all add: apply_result_def load_failed_def readyz_handler_def plain_text_def reload_succeeded_def reload_failed_def)
  case 3
  show ?case using snoc(3)
    by (cases r) (simp_all add: apply_result_def load_failed_def reload_succeeded_def reload_failed_def record_reload_failure_def)
  case 4
  show ?case using snoc(4)
    by (cases r) (simp_all add: apply_result_def load_failed_def reload_succeeded_def reload_failed_def record_reload_failure_def)
qed (simp_all add: List.map_filter_simps)

text \<open>
  C17: after any bursts of events the server serves the document of the last successful reload (or the one it
  started with), is ready exactly when the last reload succeeded, and has counted every failure; what
  it has counted of requests stays.
\<close>

theorem reloads_track_last_result:
  "let results = List.map_filter (burst_result canon path ct) bursts;
       st' = fold (\<lambda>(pending, loaded). reload_burst canon path ct pending loaded) bursts st
   in as_spec st' = last (as_spec st # List.map_filter loaded_document results)
    \<and> hr_status (readyz_handler st') =
        (if results = [] then hr_status (readyz_handler st) else if load_failed (last results) then 503 else 200)
    \<and> mx_spec_reload_failures_total (as_metrics st') =
        mx_spec_reload_failures_total (as_metrics st) + of_nat (length (filter load_failed results))
    \<and> mx_requests_total (as_metrics st') = mx_requests_total (as_metrics st)"
  by (simp add: Let_def fold_reload_burst fold_apply_result)

section \<open>Instances\<close>

definition demo_w :: wire where
  "demo_w = \<lparr>w_header_name = Some, w_header_value = (\<lambda>_. True), w_to_str = (\<lambda>_. True), w_header_error = [],
     w_decode = Some, w_from_slice = (\<lambda>_. Inl ''expected value''), w_to_string = (\<lambda>_. ''{}''), w_form_parse = (\<lambda>_. []),
     w_hash_hex = (\<lambda>_. ''0123456789abcdef''), w_gzip = Inr, w_brotli = Inr, w_zstd = Inr, w_uuid = ''id''\<rparr>"

definition demo_http :: "string \<Rightarrow> header_map \<Rightarrow> http_request" where
  "demo_http meth hs = \<lparr>hq_method = meth, hq_path = ''/pets'', hq_query = None, hq_headers = hs, hq_body = Some []\<rparr>"

definition demo_state :: app_state where
  "demo_state = \<lparr>as_spec = demo_spec, as_default_cfg = mock_config_default, as_metrics = metrics_default,
     as_last_reload_error = None\<rparr>"

definition demo_204 :: http_request where
  "demo_204 = demo_http ''GET'' [(''prefer'', ''code=204'')]"

lemma demo_204_raw:
  "respond_to demo_w demo_x 5 0 None demo_state demo_204 mx =
     Done (\<lparr>hr_status = 204, hr_headers = [(''etag'', dq @ ''0123456789abcdef'' @ dq)], hr_body = []\<rparr>, mx)"
proof -
  have m: "mock_with_cache demo_x 5 0 demo_spec (mock_request_of demo_w demo_204 []) mock_config_default None
    = Done (Inr (demo_rsp 204))" by code_simp
  have a: "answer_response demo_w mock_config_default None (mock_request_of demo_w demo_204 []) [] (demo_rsp 204)
    = \<lparr>hr_status = 204, hr_headers = [(''etag'', dq @ ''0123456789abcdef'' @ dq)], hr_body = []\<rparr>" by code_simp
  have b: "buffered_body demo_204 = Some []" by (simp add: buffered_body_def demo_204_def demo_http_def)
  have "named_header ''if-none-match'' (mr_headers (mock_request_of demo_w demo_204 [])) = None" by code_simp
  then show ?thesis by (simp add: respond_to_def Let_def b m a demo_state_def)
qed

lemma demo_204_handled:
  obtains resp st' where "handle_request demo_w demo_x 5 0 None (Fin 0) demo_state demo_204 = Done (resp, st')"
    and "hr_status resp = 204"
  using that by (simp add: handle_request_def demo_204_raw case_prod_beta)

theorem request_accounted_witness:
  "\<exists>resp st'. handle_request demo_w demo_x 5 0 None (Fin 0) demo_state demo_204 = Done (resp, st')
    \<and> hr_status resp = 204
    \<and> mx_requests_total (as_metrics st') = [((''GET'', ''/pets'', 204), 1)]
    \<and> mx_inflight (as_metrics st') = 0 \<and> as_spec st' = demo_spec"
proof (rule demo_204_handled)
  fix resp st'
  assume h: "handle_request demo_w demo_x 5 0 None (Fin 0) demo_state demo_204 = Done (resp, st')" and s: "hr_status resp = 204"
  have route: "match_route_template demo_spec ''/pets'' = ''/pets''" by code_simp
  have up: "to_ascii_uppercase ''GET'' = ''GET''" by code_simp
  have one: "count_up (''GET'', ''/pets'', 204) [] = [((''GET'', ''/pets'', 204 :: u16), 1)]" by code_simp
  have "mx_inflight metrics_default = 0" "mx_requests_total metrics_default = []"
    by (simp_all add: metrics_default_def)
  then have "mx_requests_total (as_metrics st') = [((''GET'', ''/pets'', 204), 1)]
    \<and> mx_inflight (as_metrics st') = 0"
    using request_accounted [OF h] route up s one by (simp add: demo_state_def demo_204_def demo_http_def)
  moreover have "st' = demo_state\<lparr>as_metrics := as_metrics st'\<rparr>" using request_accounted [OF h] by blast
  then have "as_spec st' = as_spec (demo_state\<lparr>as_metrics := as_metrics st'\<rparr>)" by (rule arg_cong)
  then have "as_spec st' = demo_spec" by (simp add: demo_state_def)
  ultimately have "mx_requests_total (as_metrics st') = [((''GET'', ''/pets'', 204), 1)]
    \<and> mx_inflight (as_metrics st') = 0 \<and> as_spec st' = demo_spec" by blast
  with h s show ?thesis by blast
qed

theorem bodyless_responses_witness:
  "\<exists>resp st'. handle_request demo_w demo_x 5 0 None (Fin 0) demo_state demo_204 = Done (resp, st')
    \<and> hr_status resp = 204 \<and> bare resp"
proof (rule demo_204_handled)
  fix resp st'
  assume h: "handle_request demo_w demo_x 5 0 None (Fin 0) demo_state demo_204 = Done (resp, st')" and s: "hr_status resp = 204"
  have "is_bodyless_status (hr_status resp)" by (simp add: s is_bodyless_status_def)
  from bodyless_responses [OF h this] h s show ?thesis by blast
qed

theorem etag_revalidation_witness:
  "answer_response demo_w mock_config_default (Some (dq @ ''0123456789abcdef'' @ dq)) (demo_req []) [] (demo_rsp 200)
     = not_modified demo_w (dq @ ''0123456789abcdef'' @ dq) (demo_rsp 200)
   \<and> answer_response demo_w mock_config_default None (demo_req []) [] (demo_rsp 200)
     = full_answer demo_w mock_config_default (demo_req []) [] (demo_rsp 200)"
proof -
  have tag: "answer_etag demo_w mock_config_default (demo_req []) [] (demo_rsp 200) = Some (dq @ ''0123456789abcdef'' @ dq)"
    by code_simp
  have "w_header_value demo_w v" for v by (simp add: demo_w_def)
  from etag_revalidation [OF tag this] show ?thesis by simp
qed

theorem head_tag_ignores_representation_witness:
  "answer_etag demo_w mock_config_default ((demo_req [])\<lparr>mr_method := ''HEAD''\<rparr>) [] (demo_rsp 200)
   = Some (compute_etag demo_w [])"
  by (rule head_tag_ignores_representation) (simp_all add: mock_config_default_def demo_rsp_def)

theorem unread_bodies_witness:
  "mr_body (mock_request_of demo_w (demo_http ''POST'' [(''content-type'', ''application/vnd.api+json'')]) ''{}'') = None
   \<and> mr_body (mock_request_of demo_w (demo_http ''POST'' [(''content-type'', ''application/json'')]) ''{'') = None"
proof -
  have 1: "named_header ''content-type'' (extract_headers demo_w (hq_headers
      (demo_http ''POST'' [(''content-type'', ''application/vnd.api+json'')]))) = Some ''application/vnd.api+json''"
    and 2: "named_header ''content-type'' (extract_headers demo_w (hq_headers
      (demo_http ''POST'' [(''content-type'', ''application/json'')]))) = Some ''application/json''"
    by code_simp+
  have 3: "essence ''application/vnd.api+json'' = ''application/'' @ ''vnd.api'' @ ''+json''"
    and 4: "essence ''application/json'' = ''application/json''"
    by code_simp+
  have 5: "w_from_slice demo_w b = Inl ''expected value''" for b by (simp add: demo_w_def)
  show ?thesis
    using unread_bodies [OF 1 disjI1 [OF exI [of _ "''vnd.api''"]], OF 3, of "''{}''"]
      unread_bodies [OF 2 disjI2 [OF conjI [OF _ exI]], OF 4 5, of "''{''"]
    by blast
qed

theorem problem_documents_witness:
  "hr_status (error_response demo_w (NoRoute ''GET'' ''/a'') ''GET'' ''/a'' ''r'')
   = hr_status (error_response demo_w (NoRoute ''PUT'' ''/b'') ''PUT'' ''/b'' ''s'')"
proof -
  have "w_header_value demo_w v" for v by (simp add: demo_w_def)
  from problem_documents [OF this, of "NoRoute ''GET'' ''/a''" "''GET''" "''/a''" "''r''" "NoRoute ''PUT'' ''/b''" "''PUT''" "''/b''" "''s''"]
  show ?thesis by (simp add: error_response_fields demo_w_def pj_status_problem)
qed

theorem declared_408_replaced_witness:
  "rewrite_timeout_response demo_w demo_204 \<lparr>hr_status = 408, hr_headers = [(''retry-after'', ''1'')], hr_body = ''declared''\<rparr>
   = rewrite_timeout_response demo_w demo_204 \<lparr>hr_status = 408, hr_headers = [], hr_body = []\<rparr>"
  by (rule declared_408_replaced [THEN conjunct1]) simp_all

end
