(* ===== verification/Normalise.thy ===== *)
theory Normalise
  imports Types
begin

text \<open>
  \<open>loader.rs\<close>, the passes that turn an OpenAPI 3.1 document into the 3.0 form the document parser reads,
  on \<open>serde_yaml\<close> values. A mapping is an \<open>IndexMap\<close>: an association list in insertion order.
\<close>

datatype ynum = YInt int | YFloat f64

datatype yaml =
    YNull
  | YBool bool
  | YNum ynum
  | YStr string
  | YSeq "yaml list"
  | YMap "(yaml \<times> yaml) list"
  | YTagged string yaml

type_synonym ymap = "(yaml \<times> yaml) list"

section \<open>Mappings\<close>

definition yget :: "ymap \<Rightarrow> string \<Rightarrow> yaml option" where
  "yget m key = map_of m (YStr key)"

definition ycontains :: "ymap \<Rightarrow> string \<Rightarrow> bool" where
  "ycontains m key \<longleftrightarrow> yget m key \<noteq> None"

text \<open>\<open>insert\<close> replaces in place or appends; \<open>remove\<close> fills the gap with the last entry (\<open>swap_remove\<close>).\<close>

definition yupdate :: "string \<Rightarrow> (yaml \<Rightarrow> yaml) \<Rightarrow> ymap \<Rightarrow> ymap" where
  "yupdate key f m = map (\<lambda>e. if fst e = YStr key then (fst e, f (snd e)) else e) m"

definition yinsert :: "string \<Rightarrow> yaml \<Rightarrow> ymap \<Rightarrow> ymap" where
  "yinsert key v m = (if ycontains m key then yupdate key (\<lambda>x. v) m else m @ [(YStr key, v)])"

definition yremove :: "string \<Rightarrow> ymap \<Rightarrow> ymap" where
  "yremove key m =
     (if \<not> ycontains m key then m
      else if fst (last m) = YStr key then butlast m
      else map (\<lambda>e. if fst e = YStr key then last m else e) (butlast m))"

text \<open>The accessors look through tags.\<close>

fun untag :: "yaml \<Rightarrow> yaml" where
  "untag (YTagged t v) = untag v"
| "untag v = v"

definition as_yseq :: "yaml \<Rightarrow> yaml list option" where
  "as_yseq v = (case untag v of YSeq xs \<Rightarrow> Some xs | _ \<Rightarrow> None)"

definition as_ystr :: "yaml \<Rightarrow> string option" where
  "as_ystr v = (case untag v of YStr s \<Rightarrow> Some s | _ \<Rightarrow> None)"

definition is_ybool :: "yaml \<Rightarrow> bool" where
  "is_ybool v = (case v of YBool b \<Rightarrow> True | _ \<Rightarrow> False)"

definition is_ymap :: "yaml \<Rightarrow> bool" where
  "is_ymap v = (case v of YMap m \<Rightarrow> True | _ \<Rightarrow> False)"

definition is_ynum :: "yaml \<Rightarrow> bool" where
  "is_ynum v = (case v of YNum n \<Rightarrow> True | _ \<Rightarrow> False)"

text \<open>Every value of the result is one of the argument or a leaf: recursion below it is well founded.\<close>

definition adds_leaves :: "('k \<times> 'v :: size) list \<Rightarrow> ('k \<times> 'v) list \<Rightarrow> bool" where
  "adds_leaves m m' \<longleftrightarrow> (\<forall>e \<in> set m'. e \<in> set m \<or> size (snd e) = 0)"

lemma size_ymap_entry: "e \<in> set m \<Longrightarrow> size (snd e) < size (YMap m)"
  by (induction m) (auto simp: less_Suc_eq)

lemma adds_leaves_size: "adds_leaves m m' \<Longrightarrow> e \<in> set m' \<Longrightarrow> size (snd e) < size (YMap m)"
  unfolding adds_leaves_def using size_ymap_entry [of e m] by auto

lemma adds_leaves_refl [simp]: "adds_leaves m m"
  by (simp add: adds_leaves_def)

lemma adds_leaves_trans: "adds_leaves a b \<Longrightarrow> adds_leaves b c \<Longrightarrow> adds_leaves a c"
  unfolding adds_leaves_def by metis

lemma adds_leaves_insert: "size v = 0 \<Longrightarrow> adds_leaves m (yinsert key v m)"
  by (auto simp: adds_leaves_def yinsert_def yupdate_def)

lemma adds_leaves_remove: "adds_leaves m (yremove key m)"
proof (cases "m = []")
  case False
  then have "last m \<in> set m" and "set (butlast m) \<subseteq> set m" by (auto dest: in_set_butlastD)
  then show ?thesis by (auto simp: adds_leaves_def yremove_def)
qed (simp add: adds_leaves_def yremove_def)

section \<open>Types with null\<close>

definition nullable_pair :: "string \<Rightarrow> string \<Rightarrow> string option" where
  "nullable_pair a b =
     (if a = ''null'' \<and> b \<noteq> ''null'' then Some b
      else if b = ''null'' \<and> a \<noteq> ''null'' then Some a else None)"

definition extract_nullable_pair_yaml :: "yaml list \<Rightarrow> string option" where
  "extract_nullable_pair_yaml xs =
     (case xs of
        [a, b] \<Rightarrow> Option.bind (as_ystr a) (\<lambda>s. Option.bind (as_ystr b) (\<lambda>t. nullable_pair s t))
      | _ \<Rightarrow> None)"

definition rewrite_nullable :: "ymap \<Rightarrow> ymap" where
  "rewrite_nullable m =
     (case Option.bind (Option.bind (yget m ''type'') as_yseq) extract_nullable_pair_yaml of
        None \<Rightarrow> m
      | Some non_null \<Rightarrow>
          (let m1 = yinsert ''type'' (YStr non_null) m
           in if ycontains m1 ''nullable'' then m1 else yinsert ''nullable'' (YBool True) m1))"

lemma adds_leaves_nullable: "adds_leaves m (rewrite_nullable m)"
  unfolding rewrite_nullable_def Let_def
  by (auto split: option.splits intro: adds_leaves_insert adds_leaves_trans [OF adds_leaves_insert adds_leaves_insert])

function rewrite_nullable_type_arrays_yaml :: "yaml \<Rightarrow> yaml" where
  "rewrite_nullable_type_arrays_yaml (YMap m) =
     YMap (map (\<lambda>e. (fst e, rewrite_nullable_type_arrays_yaml (snd e))) (rewrite_nullable m))"
| "rewrite_nullable_type_arrays_yaml (YSeq xs) = YSeq (map rewrite_nullable_type_arrays_yaml xs)"
| "rewrite_nullable_type_arrays_yaml YNull = YNull"
| "rewrite_nullable_type_arrays_yaml (YBool b) = YBool b"
| "rewrite_nullable_type_arrays_yaml (YNum n) = YNum n"
| "rewrite_nullable_type_arrays_yaml (YStr s) = YStr s"
| "rewrite_nullable_type_arrays_yaml (YTagged t v) = YTagged t v"
  by pat_completeness auto
termination
  by (relation "measure size")
     (auto simp: less_Suc_eq_le intro: size_list_estimation' adds_leaves_size [OF adds_leaves_nullable, simplified])

section \<open>Header objects without a schema\<close>

definition fix_header :: "yaml \<Rightarrow> yaml" where
  "fix_header header =
     (case header of
        YMap m \<Rightarrow>
          if \<not> ycontains m ''schema'' \<and> \<not> ycontains m ''content'' \<and> \<not> ycontains m ''$ref''
          then YMap (yinsert ''schema'' (YMap [(YStr ''type'', YStr ''string'')]) m) else header
      | _ \<Rightarrow> header)"

definition fix_headers_node :: "yaml \<Rightarrow> yaml" where
  "fix_headers_node node =
     (case node of YMap m \<Rightarrow> YMap (map (\<lambda>e. (fst e, fix_header (snd e))) m) | _ \<Rightarrow> node)"

definition fix_response :: "yaml \<Rightarrow> yaml" where
  "fix_response response =
     (case response of YMap m \<Rightarrow> YMap (yupdate ''headers'' fix_headers_node m) | _ \<Rightarrow> response)"

definition fix_responses_node :: "yaml \<Rightarrow> yaml" where
  "fix_responses_node node =
     (case node of YMap m \<Rightarrow> YMap (map (\<lambda>e. (fst e, fix_response (snd e))) m) | _ \<Rightarrow> node)"

text \<open>
  The walk below a node goes on in what the fix has made of its \<open>responses\<close>. The fix adds no key of that
  name, so with every fix fewer such keys are left.
\<close>

fun responses_keys :: "yaml \<Rightarrow> nat" where
  "responses_keys (YMap m) =
     sum_list (map (\<lambda>e. (if fst e = YStr ''responses'' then 1 else 0) + responses_keys (snd e)) m)"
| "responses_keys (YSeq xs) = sum_list (map responses_keys xs)"
| "responses_keys v = 0"

lemma responses_keys_entry: "e \<in> set m \<Longrightarrow> responses_keys (snd e) \<le> responses_keys (YMap m)"
  by (induction m) auto

lemma responses_keys_fewer:
  "d \<in> set m \<Longrightarrow> fst d = YStr ''responses'' \<Longrightarrow> e \<in> set m \<Longrightarrow> responses_keys (snd e) < responses_keys (YMap m)"
proof -
  assume d: "d \<in> set m" "fst d = YStr ''responses''" and e: "e \<in> set m"
  let ?g = "\<lambda>e. (if fst e = YStr ''responses'' then 1 else 0) + responses_keys (snd e)"
  have split: "sum_list (map ?g m) = ?g d + sum_list (map ?g (remove1 d m))"
    by (rule sum_list_map_remove1 [OF d(1)])
  show ?thesis
  proof (cases "e = d")
    case True
    then show ?thesis using split d by simp
  next
    case False
    then have "e \<in> set (remove1 d m)" using e by simp
    then have "?g e \<le> sum_list (map ?g (remove1 d m))" by (intro member_le_sum_list) auto
    then show ?thesis using split d by simp
  qed
qed

lemma responses_keys_map:
  "(\<And>v. responses_keys (f v) = responses_keys v) \<Longrightarrow>
   responses_keys (YMap (map (\<lambda>e. (fst e, f (snd e))) m)) = responses_keys (YMap m)"
  by (induction m) auto

lemma responses_keys_update:
  "(\<And>v. responses_keys (f v) = responses_keys v) \<Longrightarrow> responses_keys (YMap (yupdate key f m)) = responses_keys (YMap m)"
  by (induction m) (auto simp: yupdate_def)

lemma responses_keys_fix_header: "responses_keys (fix_header v) = responses_keys v"
  by (cases v) (auto simp: fix_header_def yinsert_def)

lemma responses_keys_fix_headers: "responses_keys (fix_headers_node v) = responses_keys v"
  using responses_keys_map [OF responses_keys_fix_header] by (cases v) (auto simp: fix_headers_node_def)

lemma responses_keys_fix_response: "responses_keys (fix_response v) = responses_keys v"
  using responses_keys_update [OF responses_keys_fix_headers] by (cases v) (auto simp: fix_response_def)

lemma responses_keys_fix: "responses_keys (fix_responses_node v) = responses_keys v"
  using responses_keys_map [OF responses_keys_fix_response] by (cases v) (auto simp: fix_responses_node_def)

lemma responses_update_smaller:
  assumes "e \<in> set (yupdate ''responses'' fix_responses_node m)"
  shows "responses_keys (snd e) < responses_keys (YMap m)
    \<or> responses_keys (snd e) \<le> responses_keys (YMap m) \<and> size (snd e) < size (YMap m)"
proof (cases "\<exists>d \<in> set m. fst d = YStr ''responses''")
  case True
  then obtain d where "d \<in> set m" "fst d = YStr ''responses''" by blast
  then have "\<exists>d' \<in> set (yupdate ''responses'' fix_responses_node m). fst d' = YStr ''responses''"
    by (intro bexI [of _ "(fst d, fix_responses_node (snd d))"]) (auto simp: yupdate_def image_iff)
  then have "responses_keys (snd e) < responses_keys (YMap (yupdate ''responses'' fix_responses_node m))"
    using responses_keys_fewer assms by blast
  then have "responses_keys (snd e) < responses_keys (YMap m)"
    by (simp only: responses_keys_update [OF responses_keys_fix])
  then show ?thesis by blast
next
  case False
  then have "yupdate ''responses'' fix_responses_node m = m" unfolding yupdate_def by (intro map_idI) auto
  then show ?thesis using assms responses_keys_entry size_ymap_entry by metis
qed

function walk_for_responses :: "yaml \<Rightarrow> yaml" where
  "walk_for_responses (YMap m) =
     YMap (map (\<lambda>e. (fst e, walk_for_responses (snd e))) (yupdate ''responses'' fix_responses_node m))"
| "walk_for_responses (YSeq xs) = YSeq (map walk_for_responses xs)"
| "walk_for_responses YNull = YNull"
| "walk_for_responses (YBool b) = YBool b"
| "walk_for_responses (YNum n) = YNum n"
| "walk_for_responses (YStr s) = YStr s"
| "walk_for_responses (YTagged t v) = YTagged t v"
  by pat_completeness auto
termination
proof (relation "measures [responses_keys, size]")
  fix m e assume "e \<in> set (yupdate ''responses'' fix_responses_node m)"
  then show "(snd e, YMap m) \<in> measures [responses_keys, size]"
    using responses_update_smaller by (fastforce simp del: responses_keys.simps yaml.size)
next
  fix xs :: "yaml list" and x assume "x \<in> set xs"
  then show "(x, YSeq xs) \<in> measures [responses_keys, size]"
    by (induction xs) (auto simp: less_Suc_eq)
qed simp

definition inject_header_schema_fallback_yaml :: "yaml \<Rightarrow> yaml" where
  "inject_header_schema_fallback_yaml v =
     (case v of YMap m \<Rightarrow> YMap (map (\<lambda>e. (fst e, walk_for_responses (snd e))) m) | _ \<Rightarrow> v)"

section \<open>Bounds\<close>

definition f_to_i64 :: "f64 \<Rightarrow> int" where
  "f_to_i64 f =
     (case f of
        Fin q \<Rightarrow> max i64_min (min i64_max (if 0 \<le> q then \<lfloor>q\<rfloor> else \<lceil>q\<rceil>))
      | PInf \<Rightarrow> i64_max
      | NInf \<Rightarrow> i64_min
      | NaN \<Rightarrow> 0)"

definition f_clamp :: "f64 \<Rightarrow> f64 \<Rightarrow> f64 \<Rightarrow> f64" where
  "f_clamp f lo hi = (if f_lt f lo then lo else if f_lt hi f then hi else f)"

definition ynum_as_i64 :: "ynum \<Rightarrow> int option" where
  "ynum_as_i64 n = (case n of YInt i \<Rightarrow> if in_i64 i then Some i else None | YFloat f \<Rightarrow> None)"

definition ynum_as_f64 :: "ynum \<Rightarrow> f64" where
  "ynum_as_f64 n = (case n of YInt i \<Rightarrow> f_of_int i | YFloat f \<Rightarrow> f)"

definition maybe_coerce_float_bound :: "yaml \<Rightarrow> yaml" where
  "maybe_coerce_float_bound node =
     (case node of
        YNum n \<Rightarrow>
          if ynum_as_i64 n \<noteq> None \<or> ynum_as_f64 n = NaN then node
          else YNum (YInt (f_to_i64 (f_clamp (ynum_as_f64 n) (f_of_int i64_min) (f_of_int i64_max))))
      | _ \<Rightarrow> node)"

definition coerce_bounds :: "ymap \<Rightarrow> ymap" where
  "coerce_bounds m = yupdate ''maximum'' maybe_coerce_float_bound (yupdate ''minimum'' maybe_coerce_float_bound m)"

lemma coerce_leaf: "maybe_coerce_float_bound v = v \<or> size (maybe_coerce_float_bound v) = 0"
  by (cases v) (auto simp: maybe_coerce_float_bound_def)

lemma adds_leaves_update:
  assumes "\<And>v. f v = v \<or> size (f v) = 0"
  shows "adds_leaves m (yupdate key f m)"
  unfolding adds_leaves_def yupdate_def
proof
  fix e assume "e \<in> set (map (\<lambda>e. if fst e = YStr key then (fst e, f (snd e)) else e) m)"
  then have "e \<in> (\<lambda>e. if fst e = YStr key then (fst e, f (snd e)) else e) ` set m" by (simp only: set_map)
  then obtain d where d: "d \<in> set m" "e = (if fst d = YStr key then (fst d, f (snd d)) else d)"
    by (elim imageE)
  then have "e = d \<or> size (snd e) = 0" using assms [of "snd d"] by (metis prod.collapse snd_conv)
  then show "e \<in> set m \<or> size (snd e) = 0" using d(1) by auto
qed

lemma adds_leaves_coerce: "adds_leaves m (coerce_bounds m)"
  unfolding coerce_bounds_def
  by (rule adds_leaves_trans [OF adds_leaves_update adds_leaves_update]) (rule coerce_leaf)+

function coerce_float_bounds_yaml :: "yaml \<Rightarrow> yaml" where
  "coerce_float_bounds_yaml (YMap m) =
     YMap (map (\<lambda>e. (fst e, coerce_float_bounds_yaml (snd e))) (coerce_bounds m))"
| "coerce_float_bounds_yaml (YSeq xs) = YSeq (map coerce_float_bounds_yaml xs)"
| "coerce_float_bounds_yaml YNull = YNull"
| "coerce_float_bounds_yaml (YBool b) = YBool b"
| "coerce_float_bounds_yaml (YNum n) = YNum n"
| "coerce_float_bounds_yaml (YStr s) = YStr s"
| "coerce_float_bounds_yaml (YTagged t v) = YTagged t v"
  by pat_completeness auto
termination
  by (relation "measure size")
     (auto simp: less_Suc_eq_le intro: size_list_estimation' adds_leaves_size [OF adds_leaves_coerce, simplified])

definition rewrite_exclusive_bound_pair :: "string \<Rightarrow> string \<Rightarrow> ymap \<Rightarrow> ymap" where
  "rewrite_exclusive_bound_pair exclusive_key bound_key m =
     (case yget m exclusive_key of
        Some (YNum numeric) \<Rightarrow>
          (case yget m bound_key of
             Some (YNum existing) \<Rightarrow> m
           | _ \<Rightarrow> yinsert exclusive_key (YBool True) (yinsert bound_key (YNum numeric) m))
      | _ \<Rightarrow> m)"

definition rewrite_bounds :: "ymap \<Rightarrow> ymap" where
  "rewrite_bounds m =
     rewrite_exclusive_bound_pair ''exclusiveMaximum'' ''maximum''
       (rewrite_exclusive_bound_pair ''exclusiveMinimum'' ''minimum'' m)"

lemma adds_leaves_exclusive: "adds_leaves m (rewrite_exclusive_bound_pair e b m)"
  by (auto simp: rewrite_exclusive_bound_pair_def split: option.splits yaml.splits
      intro: adds_leaves_trans [OF adds_leaves_insert adds_leaves_insert])

lemma adds_leaves_bounds: "adds_leaves m (rewrite_bounds m)"
  unfolding rewrite_bounds_def by (rule adds_leaves_trans [OF adds_leaves_exclusive adds_leaves_exclusive])

function rewrite_exclusive_bounds_yaml :: "yaml \<Rightarrow> yaml" where
  "rewrite_exclusive_bounds_yaml (YMap m) =
     YMap (map (\<lambda>e. (fst e, rewrite_exclusive_bounds_yaml (snd e))) (rewrite_bounds m))"
| "rewrite_exclusive_bounds_yaml (YSeq xs) = YSeq (map rewrite_exclusive_bounds_yaml xs)"
| "rewrite_exclusive_bounds_yaml YNull = YNull"
| "rewrite_exclusive_bounds_yaml (YBool b) = YBool b"
| "rewrite_exclusive_bounds_yaml (YNum n) = YNum n"
| "rewrite_exclusive_bounds_yaml (YStr s) = YStr s"
| "rewrite_exclusive_bounds_yaml (YTagged t v) = YTagged t v"
  by pat_completeness auto
termination
  by (relation "measure size")
     (auto simp: less_Suc_eq_le intro: size_list_estimation' adds_leaves_size [OF adds_leaves_bounds, simplified])

section \<open>Boolean items\<close>

definition drop_items :: "ymap \<Rightarrow> ymap" where
  "drop_items m =
     (if ycontains m ''prefixItems'' then
        (case yget m ''items'' of
           Some items \<Rightarrow> if is_ybool items then yremove ''items'' m else m
         | None \<Rightarrow> m)
      else m)"

lemma adds_leaves_drop: "adds_leaves m (drop_items m)"
  by (auto simp: drop_items_def adds_leaves_remove split: option.splits)

function drop_invalid_items_yaml :: "yaml \<Rightarrow> yaml" where
  "drop_invalid_items_yaml (YMap m) =
     YMap (map (\<lambda>e. (fst e, drop_invalid_items_yaml (snd e))) (drop_items m))"
| "drop_invalid_items_yaml (YSeq xs) = YSeq (map drop_invalid_items_yaml xs)"
| "drop_invalid_items_yaml YNull = YNull"
| "drop_invalid_items_yaml (YBool b) = YBool b"
| "drop_invalid_items_yaml (YNum n) = YNum n"
| "drop_invalid_items_yaml (YStr s) = YStr s"
| "drop_invalid_items_yaml (YTagged t v) = YTagged t v"
  by pat_completeness auto
termination
  by (relation "measure size")
     (auto simp: less_Suc_eq_le intro: size_list_estimation' adds_leaves_size [OF adds_leaves_drop, simplified])

section \<open>Path items and callbacks by reference\<close>

definition unescape_token :: "string \<Rightarrow> string" where
  "unescape_token raw = replace_all ''~0'' ''~'' (replace_all ''~1'' ''/'' raw)"

fun resolve_tokens :: "string list \<Rightarrow> yaml \<Rightarrow> yaml option" where
  "resolve_tokens [] current = Some current"
| "resolve_tokens (raw # rest) current =
     (let token = unescape_token raw in
      case current of
        YMap m \<Rightarrow> Option.bind (yget m token) (resolve_tokens rest)
      | YSeq xs \<Rightarrow>
          Option.bind (parse_usize token) (\<lambda>idx. if idx < length xs then resolve_tokens rest (xs ! idx) else None)
      | _ \<Rightarrow> None)"

definition resolve_json_pointer :: "yaml \<Rightarrow> string \<Rightarrow> yaml option" where
  "resolve_json_pointer r pointer =
     Option.bind (strip_prefix pointer ''#/'') (\<lambda>fragment.
       if fragment = [] then Some r else resolve_tokens (split_on CHR ''/'' fragment) r)"

text \<open>A mapping whose only entry is a \<open>$ref\<close> string is replaced by its target, if it has one.\<close>

definition sole_ref :: "yaml \<Rightarrow> string option" where
  "sole_ref v =
     (case v of
        YMap inner \<Rightarrow>
          (case yget inner ''$ref'' of Some (YStr s) \<Rightarrow> if length inner = 1 then Some s else None | _ \<Rightarrow> None)
      | _ \<Rightarrow> None)"

definition inline_entry :: "yaml \<Rightarrow> yaml \<Rightarrow> yaml" where
  "inline_entry snapshot v =
     (case Option.bind (sole_ref v) (resolve_json_pointer snapshot) of Some resolved \<Rightarrow> resolved | None \<Rightarrow> v)"

definition inline_entries :: "yaml \<Rightarrow> yaml \<Rightarrow> yaml" where
  "inline_entries snapshot v =
     (case v of YMap m \<Rightarrow> YMap (map (\<lambda>e. (fst e, inline_entry snapshot (snd e))) m) | _ \<Rightarrow> v)"

definition inline_path_item_refs_yaml :: "yaml \<Rightarrow> yaml" where
  "inline_path_item_refs_yaml v =
     (case v of YMap m \<Rightarrow> YMap (yupdate ''paths'' (inline_entries v) m) | _ \<Rightarrow> v)"

text \<open>
  The walk goes on inside an inlined target, which may contain a reference to itself: it has a budget for
  the depth.
\<close>

definition run_values :: "(yaml \<Rightarrow> yaml run) \<Rightarrow> ymap \<Rightarrow> yaml run" where
  "run_values f m =
     run_map YMap (run_concat (map (\<lambda>e. run_map (\<lambda>v. [(fst e, v)]) (f (snd e))) m))"

definition run_items :: "(yaml \<Rightarrow> yaml run) \<Rightarrow> yaml list \<Rightarrow> yaml run" where
  "run_items f xs = run_map YSeq (run_concat (map (\<lambda>x. run_map (\<lambda>v. [v]) (f x)) xs))"

fun inline_callback_refs_walker :: "nat \<Rightarrow> yaml \<Rightarrow> yaml \<Rightarrow> yaml run" where
  "inline_callback_refs_walker 0 snapshot v = Fuel"
| "inline_callback_refs_walker (Suc n) snapshot v =
     (case v of
        YMap m \<Rightarrow>
          run_values (inline_callback_refs_walker n snapshot) (yupdate ''callbacks'' (inline_entries snapshot) m)
      | YSeq xs \<Rightarrow> run_items (inline_callback_refs_walker n snapshot) xs
      | _ \<Rightarrow> Done v)"

definition inline_callback_refs_yaml :: "nat \<Rightarrow> yaml \<Rightarrow> yaml run" where
  "inline_callback_refs_yaml n v = inline_callback_refs_walker n v v"

section \<open>The passes\<close>

definition normalise_tree :: "nat \<Rightarrow> yaml \<Rightarrow> yaml run" where
  "normalise_tree n v =
     inline_callback_refs_yaml n
       (inline_path_item_refs_yaml
         (drop_invalid_items_yaml
           (rewrite_exclusive_bounds_yaml
             (coerce_float_bounds_yaml
               (inject_header_schema_fallback_yaml (rewrite_nullable_type_arrays_yaml v))))))"

section \<open>Facts: passes over a tree\<close>

text \<open>A property of every mapping of a tree.\<close>

fun all_maps :: "(ymap \<Rightarrow> bool) \<Rightarrow> yaml \<Rightarrow> bool" where
  "all_maps P (YMap m) = (P m \<and> list_all (\<lambda>e. all_maps P (snd e)) m)"
| "all_maps P (YSeq xs) = list_all (all_maps P) xs"
| "all_maps P v = True"

lemma all_maps_leaf: "(\<nexists>m. v = YMap m) \<Longrightarrow> (\<nexists>xs. v = YSeq xs) \<Longrightarrow> all_maps P v"
  by (cases v) auto

lemma all_maps_conj: "all_maps (\<lambda>m. P m \<and> Q m) v = (all_maps P v \<and> all_maps Q v)"
  by (induction P v rule: all_maps.induct) (auto simp: list_all_iff)

lemma all_maps_small: "size v = 0 \<Longrightarrow> all_maps P v"
  by (cases v) auto

text \<open>
  A pass that fixes a mapping and goes on below. When the fix has nothing left to do on a mapping it has
  fixed, even after the pass has gone through the values, the pass is idempotent.
\<close>

locale tree_pass =
  fixes fix_map :: "ymap \<Rightarrow> ymap"
    and pass :: "yaml \<Rightarrow> yaml"
  assumes pass_map: "pass (YMap m) = YMap (map (\<lambda>e. (fst e, pass (snd e))) (fix_map m))"
    and pass_seq: "pass (YSeq xs) = YSeq (map pass xs)"
    and pass_leaf: "(\<nexists>m. v = YMap m) \<Longrightarrow> (\<nexists>xs. v = YSeq xs) \<Longrightarrow> pass v = v"
    and fix_leaves: "adds_leaves m (fix_map m)"
    and fix_stable: "fix_map (map (\<lambda>e. (fst e, pass (snd e))) (fix_map m)) = map (\<lambda>e. (fst e, pass (snd e))) (fix_map m)"
begin

lemma pass_induct [case_names Map Seq Leaf]:
  assumes "\<And>m. (\<And>e. e \<in> set (fix_map m) \<Longrightarrow> Q (snd e)) \<Longrightarrow> Q (YMap m)"
    and "\<And>xs. (\<And>x. x \<in> set xs \<Longrightarrow> Q x) \<Longrightarrow> Q (YSeq xs)"
    and "\<And>v. (\<nexists>m. v = YMap m) \<Longrightarrow> (\<nexists>xs. v = YSeq xs) \<Longrightarrow> Q v"
  shows "Q v"
proof (induction v rule: measure_induct_rule [of size])
  case (less v)
  show ?case
  proof (cases v)
    case (YSeq xs)
    have "Q x" if "x \<in> set xs" for x
      by (rule less) (use that YSeq in \<open>auto simp: less_Suc_eq_le intro: size_list_estimation'\<close>)
    then show ?thesis using YSeq assms(2) by simp
  next
    case (YMap m)
    have "Q (snd e)" if "e \<in> set (fix_map m)" for e
      by (rule less) (use that YMap adds_leaves_size [OF fix_leaves] in auto)
    then show ?thesis using YMap assms(1) by simp
  qed (simp_all add: assms(3))
qed

lemma pass_idem: "pass (pass v) = pass v"
  by (induction v rule: pass_induct) (simp_all add: pass_map pass_seq pass_leaf fix_stable)

text \<open>A property of mappings that a fixed mapping has after the pass holds all over the result.\<close>

lemma pass_everywhere:
  assumes "\<And>m. P (map (\<lambda>e. (fst e, pass (snd e))) (fix_map m))"
  shows "all_maps P (pass v)"
  by (induction v rule: pass_induct) (auto simp: pass_map pass_seq pass_leaf all_maps_leaf assms list_all_iff)

text \<open>A property of mappings that the fix and the pass keep is kept all over a tree.\<close>

lemma pass_keeps:
  assumes "\<And>m. P m \<Longrightarrow> P (map (\<lambda>e. (fst e, pass (snd e))) (fix_map m))"
  shows "all_maps P v \<Longrightarrow> all_maps P (pass v)"
proof (induction v rule: pass_induct)
  case (Map m)
  have "all_maps P (snd e)" if "e \<in> set (fix_map m)" for e
    using that fix_leaves [of m] Map.prems all_maps_small [of "snd e" P]
    unfolding adds_leaves_def all_maps.simps list_all_iff by metis
  with Map assms show ?case by (auto simp: pass_map list_all_iff)
qed (auto simp: pass_seq pass_leaf list_all_iff)

end

text \<open>What a pass leaves of a mapping: its keys, and the kind of the values.\<close>

lemma yget_map [simp]: "yget (map (\<lambda>e. (fst e, f (snd e))) m) key = map_option f (yget m key)"
  by (induction m) (auto simp: yget_def)

lemma yget_insert [simp]: "yget (yinsert key v m) key' = (if key' = key then Some v else yget m key')"
proof -
  have "map_of (map (\<lambda>e. if fst e = YStr key then (fst e, v) else e) m) (YStr key') =
    (if key' = key then map_option (\<lambda>x. v) (map_of m (YStr key)) else map_of m (YStr key'))"
    by (induction m) auto
  then show ?thesis
    by (auto simp: yinsert_def yget_def yupdate_def ycontains_def map_add_def split: option.splits)
qed

lemma yget_update [simp]:
  "yget (yupdate key f m) key' = (if key' = key then map_option f (yget m key) else yget m key')"
  by (induction m) (auto simp: yget_def yupdate_def)

lemma ycontains_map [simp]: "ycontains (map (\<lambda>e. (fst e, f (snd e))) m) key = ycontains m key"
  by (simp add: ycontains_def)

definition type_pair :: "ymap \<Rightarrow> string option" where
  "type_pair m = Option.bind (Option.bind (yget m ''type'') as_yseq) extract_nullable_pair_yaml"

lemma as_ystr_nullable [simp]: "as_ystr (rewrite_nullable_type_arrays_yaml v) = as_ystr v"
  by (cases v) (simp_all add: as_ystr_def)

lemma extract_pair_nullable [simp]:
  "extract_nullable_pair_yaml (map rewrite_nullable_type_arrays_yaml xs) = extract_nullable_pair_yaml xs"
  by (auto simp: extract_nullable_pair_yaml_def split: list.splits)

lemma type_pair_pass [simp]:
  "type_pair (map (\<lambda>e. (fst e, rewrite_nullable_type_arrays_yaml (snd e))) m) = type_pair m"
proof -
  have "Option.bind (as_yseq (rewrite_nullable_type_arrays_yaml v)) extract_nullable_pair_yaml
      = Option.bind (as_yseq v) extract_nullable_pair_yaml" for v
    by (cases v) (simp_all add: as_yseq_def)
  then show ?thesis by (cases "yget m ''type''") (simp_all add: type_pair_def)
qed

lemma type_pair_rewritten: "type_pair (rewrite_nullable m) = None"
  by (auto simp: rewrite_nullable_def type_pair_def Let_def as_yseq_def split: option.splits)

lemma rewrite_nullable_done: "type_pair m = None \<Longrightarrow> rewrite_nullable m = m"
  by (simp add: rewrite_nullable_def type_pair_def)

interpretation nullable: tree_pass rewrite_nullable rewrite_nullable_type_arrays_yaml
proof
  show "(\<nexists>m. v = YMap m) \<Longrightarrow> (\<nexists>xs. v = YSeq xs) \<Longrightarrow> rewrite_nullable_type_arrays_yaml v = v" for v
    by (cases v) auto
qed (simp_all add: adds_leaves_nullable rewrite_nullable_done type_pair_rewritten)

lemma f_to_i64_range: "in_i64 (f_to_i64 f)"
  by (cases f) (auto simp: f_to_i64_def in_i64_def i64_min_def i64_max_def)

lemma coerce_pass_stable:
  "maybe_coerce_float_bound (coerce_float_bounds_yaml (maybe_coerce_float_bound v))
     = coerce_float_bounds_yaml (maybe_coerce_float_bound v)"
  using f_to_i64_range by (cases v) (auto simp: maybe_coerce_float_bound_def ynum_as_i64_def)

lemma coerce_bounds_map:
  "coerce_bounds m =
     map (\<lambda>e. if fst e = YStr ''minimum'' \<or> fst e = YStr ''maximum''
              then (fst e, maybe_coerce_float_bound (snd e)) else e) m"
  by (auto simp: coerce_bounds_def yupdate_def)

interpretation coerce: tree_pass coerce_bounds coerce_float_bounds_yaml
proof
  show "(\<nexists>m. v = YMap m) \<Longrightarrow> (\<nexists>xs. v = YSeq xs) \<Longrightarrow> coerce_float_bounds_yaml v = v" for v
    by (cases v) auto
  show "coerce_bounds (map (\<lambda>e. (fst e, coerce_float_bounds_yaml (snd e))) (coerce_bounds m))
      = map (\<lambda>e. (fst e, coerce_float_bounds_yaml (snd e))) (coerce_bounds m)" for m
    unfolding coerce_bounds_map by (auto simp: coerce_pass_stable)
qed (simp_all add: adds_leaves_coerce)

definition number_at :: "ymap \<Rightarrow> string \<Rightarrow> bool" where
  "number_at m key = (case yget m key of Some v \<Rightarrow> is_ynum v | None \<Rightarrow> False)"

definition bound_pair_done :: "string \<Rightarrow> string \<Rightarrow> ymap \<Rightarrow> bool" where
  "bound_pair_done exclusive_key bound_key m \<longleftrightarrow> \<not> number_at m exclusive_key \<or> number_at m bound_key"

lemma yget_exclusive_other:
  "key \<noteq> e \<Longrightarrow> key \<noteq> b \<Longrightarrow> yget (rewrite_exclusive_bound_pair e b m) key = yget m key"
  by (auto simp: rewrite_exclusive_bound_pair_def split: option.splits yaml.splits)

lemma exclusive_pair_done: "e \<noteq> b \<Longrightarrow> bound_pair_done e b (rewrite_exclusive_bound_pair e b m)"
  by (auto simp: rewrite_exclusive_bound_pair_def bound_pair_done_def number_at_def is_ynum_def
      split: option.splits yaml.splits)

lemma exclusive_done: "bound_pair_done e b m \<Longrightarrow> rewrite_exclusive_bound_pair e b m = m"
  by (auto simp: rewrite_exclusive_bound_pair_def bound_pair_done_def number_at_def is_ynum_def
      split: option.splits yaml.splits)

definition bounds_done :: "ymap \<Rightarrow> bool" where
  "bounds_done m \<longleftrightarrow>
     bound_pair_done ''exclusiveMinimum'' ''minimum'' m \<and> bound_pair_done ''exclusiveMaximum'' ''maximum'' m"

lemma bound_pair_done_cong:
  "yget m e = yget m' e \<Longrightarrow> yget m b = yget m' b \<Longrightarrow> bound_pair_done e b m = bound_pair_done e b m'"
  by (simp add: bound_pair_done_def number_at_def)

lemma bounds_done_rewritten: "bounds_done (rewrite_bounds m)"
proof -
  let ?m = "rewrite_exclusive_bound_pair ''exclusiveMinimum'' ''minimum'' m"
  have "bound_pair_done ''exclusiveMinimum'' ''minimum''
      (rewrite_exclusive_bound_pair ''exclusiveMaximum'' ''maximum'' ?m)
    = bound_pair_done ''exclusiveMinimum'' ''minimum'' ?m"
    by (rule bound_pair_done_cong) (simp_all add: yget_exclusive_other)
  then show ?thesis by (simp add: bounds_done_def rewrite_bounds_def exclusive_pair_done)
qed

lemma bounds_done_pass [simp]:
  "bounds_done (map (\<lambda>e. (fst e, rewrite_exclusive_bounds_yaml (snd e))) m) = bounds_done m"
proof -
  have "is_ynum (rewrite_exclusive_bounds_yaml v) = is_ynum v" for v
    by (cases v) (simp_all add: is_ynum_def)
  then have "number_at (map (\<lambda>e. (fst e, rewrite_exclusive_bounds_yaml (snd e))) m) key = number_at m key" for key
    by (simp add: number_at_def split: option.split)
  then show ?thesis by (simp add: bounds_done_def bound_pair_done_def)
qed

interpretation exclusive: tree_pass rewrite_bounds rewrite_exclusive_bounds_yaml
proof
  show "(\<nexists>m. v = YMap m) \<Longrightarrow> (\<nexists>xs. v = YSeq xs) \<Longrightarrow> rewrite_exclusive_bounds_yaml v = v" for v
    by (cases v) auto
  have "bounds_done m \<Longrightarrow> rewrite_bounds m = m" for m
    by (simp add: rewrite_bounds_def bounds_done_def exclusive_done)
  then show "rewrite_bounds (map (\<lambda>e. (fst e, rewrite_exclusive_bounds_yaml (snd e))) (rewrite_bounds m))
      = map (\<lambda>e. (fst e, rewrite_exclusive_bounds_yaml (snd e))) (rewrite_bounds m)" for m
    by (simp add: bounds_done_rewritten)
qed (simp_all add: adds_leaves_bounds)

text \<open>
  normalising a document a second time changes nothing: the passes on nullable types, on bounds and on
  exclusive bounds are idempotent.
\<close>

theorem normalisation_idempotent:
  "rewrite_nullable_type_arrays_yaml (rewrite_nullable_type_arrays_yaml v) = rewrite_nullable_type_arrays_yaml v
   \<and> coerce_float_bounds_yaml (coerce_float_bounds_yaml v) = coerce_float_bounds_yaml v
   \<and> rewrite_exclusive_bounds_yaml (rewrite_exclusive_bounds_yaml v) = rewrite_exclusive_bounds_yaml v"
  by (intro conjI nullable.pass_idem coerce.pass_idem exclusive.pass_idem)

lemma type_pair_coerced: "type_pair (map (\<lambda>e. (fst e, coerce_float_bounds_yaml (snd e))) (coerce_bounds m)) = type_pair m"
proof -
  have str: "as_ystr (coerce_float_bounds_yaml x) = as_ystr x" for x by (cases x) (simp_all add: as_ystr_def)
  have "extract_nullable_pair_yaml (map coerce_float_bounds_yaml xs) = extract_nullable_pair_yaml xs" for xs
    by (auto simp: extract_nullable_pair_yaml_def str split: list.splits)
  then have "Option.bind (as_yseq (coerce_float_bounds_yaml v)) extract_nullable_pair_yaml
      = Option.bind (as_yseq v) extract_nullable_pair_yaml" for v
    by (cases v) (simp_all add: as_yseq_def)
  then show ?thesis by (cases "yget m ''type''") (simp_all add: type_pair_def coerce_bounds_def)
qed

lemma type_pair_bounds:
  "type_pair (map (\<lambda>e. (fst e, rewrite_exclusive_bounds_yaml (snd e))) (rewrite_bounds m)) = type_pair m"
proof -
  have str: "as_ystr (rewrite_exclusive_bounds_yaml x) = as_ystr x" for x by (cases x) (simp_all add: as_ystr_def)
  have "extract_nullable_pair_yaml (map rewrite_exclusive_bounds_yaml xs) = extract_nullable_pair_yaml xs" for xs
    by (auto simp: extract_nullable_pair_yaml_def str split: list.splits)
  then have "Option.bind (as_yseq (rewrite_exclusive_bounds_yaml v)) extract_nullable_pair_yaml
      = Option.bind (as_yseq v) extract_nullable_pair_yaml" for v
    by (cases v) (simp_all add: as_yseq_def)
  then show ?thesis
    by (cases "yget m ''type''") (simp_all add: type_pair_def rewrite_bounds_def yget_exclusive_other)
qed


lemma i64_bounds_f64:
  "f_of_int i64_min = Fin (- 9223372036854775808)" "f_of_int i64_max = Fin 9223372036854775808"
proof -
  have "quotient_of 9223372036854775808 = (9223372036854775808, 1)"
    "quotient_of 9223372036854775807 = (9223372036854775807, 1)"
    by (simp_all add: quotient_of_int [of 9223372036854775808, simplified] quotient_of_int [of 9223372036854775807, simplified])
  moreover have "bitlen 9223372036854775808 = 64" "bitlen 9223372036854775807 = 63" "bitlen 1 = 1"
    by code_simp+
  moreover have "\<lfloor>9223372036854775807 / 1024 :: rat\<rfloor> = 9007199254740991"
    by (simp add: floor_eq_iff)
  ultimately show "f_of_int i64_min = Fin (- 9223372036854775808)" "f_of_int i64_max = Fin 9223372036854775808"
    by (simp_all add: f_of_int_def round64_def i64_min_def i64_max_def ilog2_def pow2_def Let_def round_half_even_def)
qed

text \<open>
  a fractional bound is cut to an integer, also in a schema of type \<open>number\<close>, whose type stays: a minimum
  strictly between 0 and 1 becomes 0.
\<close>

theorem fractional_bound_cut:
  assumes "yget m ''minimum'' = Some (YNum (YFloat (Fin q)))" and "0 < q" and "q < 1"
  shows "\<exists>m'. coerce_float_bounds_yaml (YMap m) = YMap m' \<and> yget m' ''minimum'' = Some (YNum (YInt 0))
    \<and> yget m' ''type'' = map_option coerce_float_bounds_yaml (yget m ''type'')"
proof -
  have "f_clamp (Fin q) (f_of_int i64_min) (f_of_int i64_max) = Fin q"
    using assms(2,3) by (simp add: f_clamp_def i64_bounds_f64)
  moreover have "f_to_i64 (Fin q) = 0"
    using assms(2,3) by (simp add: f_to_i64_def i64_min_def i64_max_def floor_eq_iff)
  ultimately have "maybe_coerce_float_bound (YNum (YFloat (Fin q))) = YNum (YInt 0)"
    by (simp add: maybe_coerce_float_bound_def ynum_as_i64_def ynum_as_f64_def)
  then show ?thesis using assms(1) by (simp add: coerce_bounds_def)
qed

theorem fractional_bound_cut_witness:
  "\<exists>m'. coerce_float_bounds_yaml
        (YMap [(YStr ''type'', YStr ''number''), (YStr ''minimum'', YNum (YFloat (Fin (1 / 2))))]) = YMap m'
    \<and> yget m' ''minimum'' = Some (YNum (YInt 0)) \<and> yget m' ''type'' = Some (YStr ''number'')"
  using fractional_bound_cut [of "[(YStr ''type'', YStr ''number''), (YStr ''minimum'', YNum (YFloat (Fin (1 / 2))))]" "1 / 2"]
  by (simp add: yget_def)

section \<open>Facts: callbacks\<close>

text \<open>
  A callback that refers to itself. The reference sits where the specification allows one, in the callbacks
  of an operation of the callback.
\<close>

definition callback_ref :: yaml where
  "callback_ref = YMap [(YStr ''$ref'', YStr ''#/components/callbacks/again'')]"

definition looping_callback :: yaml where
  "looping_callback =
     YMap [(YStr ''{$request.body#/url}'',
       YMap [(YStr ''post'', YMap [(YStr ''callbacks'', YMap [(YStr ''again'', callback_ref)])])])]"

definition looping_doc :: yaml where
  "looping_doc = YMap [(YStr ''components'', YMap [(YStr ''callbacks'', YMap [(YStr ''again'', looping_callback)])])]"

lemma inline_looping: "inline_entry looping_doc callback_ref = looping_callback"
  by code_simp

lemma inline_plain: "inline_entry looping_doc looping_callback = looping_callback"
  by code_simp

lemma run_values_one: "run_values f [(k, v)] = run_map (\<lambda>x. YMap [(k, x)]) (f v)"
  by (cases "f v") (simp_all add: run_values_def)

lemma yupdate_one: "yupdate key f [(YStr k, v)] = (if k = key then [(YStr k, f v)] else [(YStr k, v)])"
  by (simp add: yupdate_def)

declare inline_callback_refs_walker.simps [simp del]

lemma walk_zero: "inline_callback_refs_walker 0 snapshot v = Fuel"
  by (simp add: inline_callback_refs_walker.simps)

lemma walk_one:
  "inline_callback_refs_walker (Suc n) snapshot (YMap [(YStr k, v)]) =
     run_map (\<lambda>x. YMap [(YStr k, x)])
       (inline_callback_refs_walker n snapshot (if k = ''callbacks'' then inline_entries snapshot v else v))"
  by (simp add: run_values_one yupdate_one inline_callback_refs_walker.simps)

lemma inline_looping_entries: "inline_entries looping_doc (YMap [(k, callback_ref)]) = YMap [(k, looping_callback)]"
  by (simp add: inline_entries_def inline_looping)

lemma walk_looping_step:
  "inline_callback_refs_walker (Suc (Suc (Suc (Suc k)))) looping_doc looping_callback = Fuel
     \<longleftrightarrow> inline_callback_refs_walker k looping_doc looping_callback = Fuel"
proof -
  have "inline_callback_refs_walker (Suc (Suc (Suc (Suc k)))) looping_doc
      (YMap [(YStr ''{$request.body#/url}'',
       YMap [(YStr ''post'', YMap [(YStr ''callbacks'', YMap [(YStr ''again'', callback_ref)])])])]) = Fuel
     \<longleftrightarrow> inline_callback_refs_walker k looping_doc looping_callback = Fuel"
    by (simp add: walk_one inline_looping_entries)
  then show ?thesis by (simp only: looping_callback_def [symmetric])
qed

lemma walk_looping_short:
  assumes "n < 4"
  shows "inline_callback_refs_walker n looping_doc looping_callback = Fuel"
proof -
  have "n = 0 \<or> n = Suc 0 \<or> n = Suc (Suc 0) \<or> n = Suc (Suc (Suc 0))" using assms by linarith
  then have "inline_callback_refs_walker n looping_doc
      (YMap [(YStr ''{$request.body#/url}'',
       YMap [(YStr ''post'', YMap [(YStr ''callbacks'', YMap [(YStr ''again'', callback_ref)])])])]) = Fuel"
    by (elim disjE)
       (simp_all add: walk_one inline_looping_entries walk_zero)
  then show ?thesis by (simp only: looping_callback_def [symmetric])
qed

lemma walk_looping: "inline_callback_refs_walker n looping_doc looping_callback = Fuel"
proof (induction n rule: less_induct)
  case (less n)
  show ?case
  proof (cases "n < 4")
    case False
    then obtain k where "n = k + 4" by (metis add.commute le_Suc_ex not_less)
    then have n: "n = Suc (Suc (Suc (Suc k)))" by simp
    then show ?thesis using less [of k] walk_looping_step [of k] by simp
  qed (rule walk_looping_short)
qed

text \<open>
  a callback that refers to itself, as a subscription that is renewed does, makes the loader inline it
  into itself without end: no budget is enough.
\<close>

theorem self_referential_callback_diverges:
  "inline_callback_refs_yaml n looping_doc = Fuel \<and> normalise_tree n looping_doc = Fuel"
proof -
  have fuel: "inline_callback_refs_yaml n looping_doc = Fuel" for n
  proof -
    have entries: "inline_entries looping_doc (YMap [(k, looping_callback)]) = YMap [(k, looping_callback)]" for k
      by (simp add: inline_entries_def inline_plain)
    have "n = 0 \<or> n = Suc 0 \<or> n = Suc (Suc 0) \<or> (\<exists>k. n = Suc (Suc (Suc k)))" by presburger
    then have "inline_callback_refs_walker n looping_doc
        (YMap [(YStr ''components'', YMap [(YStr ''callbacks'', YMap [(YStr ''again'', looping_callback)])])]) = Fuel"
      by (elim disjE exE)
         (simp_all add: walk_one entries walk_looping walk_zero)
    then show ?thesis unfolding inline_callback_refs_yaml_def by (simp only: looping_doc_def [symmetric])
  qed
  have "inline_path_item_refs_yaml
      (drop_invalid_items_yaml (rewrite_exclusive_bounds_yaml (coerce_float_bounds_yaml
        (inject_header_schema_fallback_yaml (rewrite_nullable_type_arrays_yaml looping_doc))))) = looping_doc"
    by code_simp
  with fuel show ?thesis by (simp add: normalise_tree_def)
qed

text \<open>A document whose callbacks are all written out.\<close>

fun no_callback_refs :: "yaml \<Rightarrow> bool" where
  "no_callback_refs (YMap m) =
     list_all (\<lambda>e. no_callback_refs (snd e)
       \<and> (fst e = YStr ''callbacks'' \<longrightarrow>
            (case snd e of YMap cs \<Rightarrow> list_all (\<lambda>c. sole_ref (snd c) = None) cs | _ \<Rightarrow> True))) m"
| "no_callback_refs (YSeq xs) = list_all no_callback_refs xs"
| "no_callback_refs v = True"

lemma inline_entries_plain:
  "(case v of YMap cs \<Rightarrow> list_all (\<lambda>c. sole_ref (snd c) = None) cs | _ \<Rightarrow> True) \<Longrightarrow> inline_entries snapshot v = v"
  by (cases v) (auto simp: inline_entries_def inline_entry_def list_all_iff intro!: map_idI)

lemma run_values_Done: "(\<And>e. e \<in> set m \<Longrightarrow> f (snd e) = Done (snd e)) \<Longrightarrow> run_values f m = Done (YMap m)"
  unfolding run_values_def by (induction m) auto

lemma run_items_Done: "(\<And>x. x \<in> set xs \<Longrightarrow> f x = Done x) \<Longrightarrow> run_items f xs = Done (YSeq xs)"
  unfolding run_items_def by (induction xs) auto

text \<open>
  a document whose callbacks are all written out passes the inlining of callbacks unchanged, with its
  size as a sufficient budget.
\<close>

theorem plain_callbacks_unchanged:
  assumes "no_callback_refs v" and "size v < n"
  shows "inline_callback_refs_walker n snapshot v = Done v"
  using assms
proof (induction n arbitrary: v)
  case (Suc n)
  show ?case
  proof (cases v)
    case (YMap m)
    have "yupdate ''callbacks'' (inline_entries snapshot) m = m"
      using Suc.prems(1) YMap inline_entries_plain
      unfolding yupdate_def by (intro map_idI) (auto simp: list_all_iff)
    moreover have "run_values (inline_callback_refs_walker n snapshot) m = Done (YMap m)"
      by (rule run_values_Done, rule Suc.IH) (use Suc.prems YMap size_ymap_entry in \<open>fastforce simp: list_all_iff\<close>)+
    ultimately show ?thesis using YMap by (simp add: inline_callback_refs_walker.simps)
  next
    case (YSeq xs)
    have "run_items (inline_callback_refs_walker n snapshot) xs = Done (YSeq xs)"
      by (rule run_items_Done, rule Suc.IH)
         (use Suc.prems YSeq in \<open>auto simp: list_all_iff dest!: size_list_estimation' [OF _ order_refl, where f = size]\<close>)
    then show ?thesis using YSeq by (simp add: inline_callback_refs_walker.simps)
  qed (simp_all add: inline_callback_refs_walker.simps)
qed simp

definition written_out_callbacks :: yaml where
  "written_out_callbacks = YMap [(YStr ''callbacks'', YMap [(YStr ''done'', YMap [(YStr ''x'', YSeq [YNull])])])]"

theorem plain_callbacks_unchanged_witness:
  "inline_callback_refs_walker 20 YNull written_out_callbacks = Done written_out_callbacks"
  by (rule plain_callbacks_unchanged) (simp_all add: written_out_callbacks_def sole_ref_def yget_def)

end
