(* ===== verification/Loader.thy ===== *)
theory Loader
  imports Normalise Formats
begin

text \<open>
  \<open>loader.rs\<close>: reading a document, the checks before and after parsing, and the guarded inlining of remote
  references. What the loader calls outside the repository is gathered in two records: the parsers, the
  regex crate and the file system; and the network.
\<close>

datatype spec_error = SpecIo string string | SpecParse string

record loader_env =
  le_yaml :: "string \<Rightarrow> string + yaml"
  le_yaml_to_json :: "yaml \<Rightarrow> string + string"
  le_yaml_value_to_json :: "yaml \<Rightarrow> string + json"
  le_json :: "string \<Rightarrow> string + json"
  le_openapi :: "string \<Rightarrow> string + openapi"
  le_openapi_value :: "json \<Rightarrow> string + openapi"
  le_regex :: compiler
  le_replace_all :: "string \<Rightarrow> ((string \<Rightarrow> string) \<Rightarrow> string) \<Rightarrow> string \<Rightarrow> string"
  le_file_len :: "string \<Rightarrow> nat option"
  le_read_file :: "string \<Rightarrow> string + string"

definition MAX_SPEC_BYTES :: nat where "MAX_SPEC_BYTES = 64 * 1024 * 1024"
definition REMOTE_REF_MAX_BODY_BYTES :: nat where "REMOTE_REF_MAX_BODY_BYTES = 1024 * 1024"
definition REMOTE_REF_MAX_FETCHES :: nat where "REMOTE_REF_MAX_FETCHES = 64"

section \<open>Reading\<close>

definition too_large :: "string \<Rightarrow> nat \<Rightarrow> spec_error" where
  "too_large what n =
     SpecParse (''spec '' @ what @ ''size '' @ show_nat n @ '' bytes exceeds MAX_SPEC_BYTES='' @ show_nat MAX_SPEC_BYTES)"

definition read_content :: "loader_env \<Rightarrow> string \<Rightarrow> spec_error + string" where
  "read_content le src =
     (if starts_with (trim_start src) ''{'' \<or> starts_with (trim_start src) ''openapi'' then
        if MAX_SPEC_BYTES < length src then Inl (too_large [] (length src)) else Inr src
      else
        case le_file_len le src of
          Some n \<Rightarrow>
            if MAX_SPEC_BYTES < n then Inl (too_large ''file '' n)
            else (case le_read_file le src of
                Inl e \<Rightarrow> Inl (SpecIo src e)
              | Inr raw \<Rightarrow> if MAX_SPEC_BYTES < length raw then Inl (too_large [] (length raw)) else Inr raw)
        | None \<Rightarrow>
            (case le_read_file le src of
               Inl e \<Rightarrow> Inl (SpecIo src e)
             | Inr raw \<Rightarrow> if MAX_SPEC_BYTES < length raw then Inl (too_large [] (length raw)) else Inr raw))"

section \<open>Versions\<close>

definition version_pattern :: string where
  "version_pattern = ''^3'' @ [CHR 0x5C] @ ''.(0|1)'' @ [CHR 0x5C] @ ''.'' @ [CHR 0x5C] @ ''d+$''"

definition top_level_string :: "loader_env \<Rightarrow> string \<Rightarrow> string \<Rightarrow> string option" where
  "top_level_string le content key =
     (case le_yaml le content of
        Inr (YMap m) \<Rightarrow> (case yget m key of Some (YStr s) \<Rightarrow> Some s | _ \<Rightarrow> None)
      | _ \<Rightarrow> None)"

definition reject_unsupported_openapi_version :: "loader_env \<Rightarrow> string \<Rightarrow> spec_error option" where
  "reject_unsupported_openapi_version le content =
     (case top_level_string le content ''openapi'' of
        None \<Rightarrow> None
      | Some version \<Rightarrow>
          if (case le_regex le version_pattern of Some re \<Rightarrow> re version | None \<Rightarrow> False) then None
          else Some (SpecParse (''unsupported openapi version '' @ version @ '': chasm supports 3.0.x and 3.1.x'')))"

definition reject_swagger_two :: "loader_env \<Rightarrow> string \<Rightarrow> spec_error option" where
  "reject_swagger_two le content =
     (if top_level_string le content ''swagger'' = Some ''2.0'' then
        Some (SpecParse (''Swagger 2.0 specs are not supported '' @ [CHR 0xE2, CHR 0x80, CHR 0x94]
          @ '' chasm requires OpenAPI 3.0 or 3.1. Convert via `swagger2openapi` or `openapi-generator`.''))
      else None)"

section \<open>Integer bounds in the text\<close>

definition bound_line_pattern :: string where
  "bound_line_pattern =
     ''(?m)^(?P<indent>'' @ [CHR 0x5C] @ ''s*)(?P<key>minimum|maximum):'' @ [CHR 0x5C] @ ''s*(?P<num>-?''
     @ [CHR 0x5C] @ ''d+)'' @ [CHR 0x5C] @ ''s*$''"

definition clamp_literal :: "string \<Rightarrow> string" where
  "clamp_literal num =
     (case parse_i128 num of
        Some parsed \<Rightarrow>
          if parsed < i64_min then show_int i64_min
          else if i64_max < parsed then show_int i64_max
          else num
      | None \<Rightarrow> if starts_with num ''-'' then show_int i64_min else show_int i64_max)"

definition clamp_integer_bounds_textual :: "loader_env \<Rightarrow> string \<Rightarrow> string" where
  "clamp_integer_bounds_textual le spec =
     le_replace_all le bound_line_pattern
       (\<lambda>caps. caps ''indent'' @ caps ''key'' @ '': '' @ clamp_literal (caps ''num'')) spec"

definition normalize_oas31_nullable :: "loader_env \<Rightarrow> nat \<Rightarrow> string \<Rightarrow> (spec_error + string) run" where
  "normalize_oas31_nullable le n spec_str =
     (case le_yaml le (clamp_integer_bounds_textual le spec_str) of
        Inl e \<Rightarrow> Done (Inl (SpecParse e))
      | Inr v \<Rightarrow>
          run_map (\<lambda>v'. case le_yaml_to_json le v' of Inl e \<Rightarrow> Inl (SpecParse e) | Inr s \<Rightarrow> Inr s)
            (normalise_tree n v))"

section \<open>Dangling references\<close>

fun walk_for_refs :: "yaml \<Rightarrow> string list" where
  "walk_for_refs (YMap m) =
     (case yget m ''$ref'' of Some (YStr target) \<Rightarrow> [target] | _ \<Rightarrow> [])
     @ concat (map (\<lambda>e. walk_for_refs (snd e)) m)"
| "walk_for_refs (YSeq xs) = concat (map walk_for_refs xs)"
| "walk_for_refs v = []"

definition resolve_component_entry :: "yaml \<Rightarrow> string \<Rightarrow> string \<Rightarrow> yaml option" where
  "resolve_component_entry r bag name =
     (case r of
        YMap root_map \<Rightarrow>
          (case yget root_map ''components'' of
             Some (YMap comp_map) \<Rightarrow>
               (case yget comp_map bag of
                  Some (YMap bag_map) \<Rightarrow> yget bag_map (unescape_token name)
                | _ \<Rightarrow> None)
           | _ \<Rightarrow> None)
      | _ \<Rightarrow> None)"

definition component_bags :: "string list" where
  "component_bags =
     [''schemas'', ''parameters'', ''responses'', ''requestBodies'', ''headers'', ''securitySchemes'',
      ''callbacks'', ''pathItems'']"

definition dangling :: "yaml \<Rightarrow> string \<Rightarrow> bool" where
  "dangling r pointer =
     (case Option.bind (strip_prefix pointer ''#/components/'') (split_once CHR ''/'') of
        Some (bag, name) \<Rightarrow>
          bag \<in> set component_bags \<and> name \<noteq> [] \<and> resolve_component_entry r bag name = None
      | None \<Rightarrow> False)"

definition check_dangling_refs :: "yaml \<Rightarrow> spec_error option" where
  "check_dangling_refs r =
     (case find (dangling r) (walk_for_refs r) of
        Some pointer \<Rightarrow>
          Some (SpecParse (''dangling $ref '' @ [CHR 0x27] @ pointer @ [CHR 0x27]
            @ '': target does not exist in spec''))
      | None \<Rightarrow> None)"

section \<open>Operation identifiers\<close>

definition operations_in :: "path_item \<Rightarrow> (string \<times> operation) list" where
  "operations_in item =
     List.map_filter (\<lambda>(name, op). map_option (Pair name) op)
       [(''GET'', pi_get item), (''PUT'', pi_put item), (''POST'', pi_post item), (''DELETE'', pi_delete item),
        (''OPTIONS'', pi_options item), (''HEAD'', pi_head item), (''PATCH'', pi_patch item),
        (''TRACE'', pi_trace item)]"

text \<open>The operations of the document in the order of the loops: identifier, method, path.\<close>

definition declared_ids :: "openapi \<Rightarrow> (string \<times> string \<times> string) list" where
  "declared_ids spec =
     concat (map (\<lambda>(path, item). case item of
         Reference _ \<Rightarrow> []
       | Item path_item \<Rightarrow>
           List.map_filter (\<lambda>(meth, op). map_option (\<lambda>op_id. (op_id, meth, path)) (op_operation_id op))
             (operations_in path_item)) (spec_paths spec))"

fun first_duplicate ::
  "(string \<times> string \<times> string) list \<Rightarrow> (string \<times> string \<times> string) list \<Rightarrow> spec_error option" where
  "first_duplicate seen [] = None"
| "first_duplicate seen ((op_id, meth, path) # rest) =
     (case map_of seen op_id of
        Some (prev_method, prev_path) \<Rightarrow>
          Some (SpecParse (''duplicate operationId '' @ [CHR 0x27] @ op_id @ [CHR 0x27] @ '': defined on ''
            @ prev_method @ '' '' @ prev_path @ '' and '' @ meth @ '' '' @ path))
      | None \<Rightarrow> first_duplicate ((op_id, meth, path) # seen) rest)"

definition check_duplicate_operation_ids :: "openapi \<Rightarrow> spec_error option" where
  "check_duplicate_operation_ids spec = first_duplicate [] (declared_ids spec)"

section \<open>Schema types\<close>

definition escape_pointer_segment :: "string \<Rightarrow> string" where
  "escape_pointer_segment seg = replace_all ''/'' ''~1'' (replace_all ''~'' ''~0'' seg)"

definition build_pointer_from_path :: "string list \<Rightarrow> string" where
  "build_pointer_from_path path = ''#'' @ concat (map (\<lambda>seg. CHR ''/'' # escape_pointer_segment seg) path)"

definition show_ynum :: "ynum \<Rightarrow> string" where
  "show_ynum n = (case n of YInt i \<Rightarrow> show_int i | YFloat f \<Rightarrow> show_f64 f)"

definition key_as_str :: "yaml \<Rightarrow> string" where
  "key_as_str key =
     (case key of
        YStr s \<Rightarrow> s
      | YNum n \<Rightarrow> show_ynum n
      | YBool b \<Rightarrow> (if b then ''true'' else ''false'')
      | _ \<Rightarrow> ''<non-string>'')"

type_synonym visited = "(string \<times> yaml) list"

definition visit_entries :: "(string list \<Rightarrow> yaml \<Rightarrow> visited) \<Rightarrow> string list \<Rightarrow> ymap \<Rightarrow> visited" where
  "visit_entries f path m = concat (map (\<lambda>e. f (path @ [key_as_str (fst e)]) (snd e)) m)"

definition visit_items :: "(string list \<Rightarrow> yaml \<Rightarrow> visited) \<Rightarrow> string list \<Rightarrow> yaml list \<Rightarrow> visited" where
  "visit_items f path xs = concat (map (\<lambda>i. f (path @ [show_nat i]) (xs ! i)) [0..<length xs])"

text \<open>The schemas below a schema, with the path of each, in the order of the walk.\<close>

definition sub_entries :: "ymap \<Rightarrow> (string list \<times> yaml) list" where
  "sub_entries m =
     (case yget m ''properties'' of
        Some (YMap props) \<Rightarrow> map (\<lambda>e. ([''properties'', key_as_str (fst e)], snd e)) props | _ \<Rightarrow> [])
     @ (case yget m ''additionalProperties'' of
          Some addl \<Rightarrow> if is_ymap addl then [([''additionalProperties''], addl)] else [] | None \<Rightarrow> [])
     @ (case yget m ''items'' of
          Some items \<Rightarrow> if is_ymap items then [([''items''], items)] else [] | None \<Rightarrow> [])
     @ concat (map (\<lambda>combinator. case yget m combinator of
          Some (YSeq xs) \<Rightarrow> map (\<lambda>(i, x). ([combinator, show_nat i], x)) (enumerate 0 xs) | _ \<Rightarrow> [])
         [''allOf'', ''anyOf'', ''oneOf'', ''prefixItems''])
     @ (case yget m ''not'' of Some x \<Rightarrow> [([''not''], x)] | None \<Rightarrow> [])"

lemma yget_size: "yget m key = Some v \<Longrightarrow> size v < size (YMap m)"
  using size_ymap_entry [of "(YStr key, v)" m] by (auto simp: yget_def dest: map_of_SomeD)

lemma yget_size': "Some v = yget m key \<Longrightarrow> size v < size (YMap m)"
  by (rule yget_size) simp

lemma size_item: "x \<in> set xs \<Longrightarrow> size x < size (YSeq xs)"
  by (induction xs) auto

lemma set_enumerate_snd: "(i, x) \<in> set (enumerate k xs) \<Longrightarrow> x \<in> set xs"
  by (metis enumerate_eq_zip set_zip_rightD)

lemma sub_entries_size: "(p, v) \<in> set (sub_entries m) \<Longrightarrow> size v < size (YMap m)"
  by (auto simp: sub_entries_def split: option.splits yaml.splits if_splits
      dest!: yget_size yget_size' size_ymap_entry size_item set_enumerate_snd)

function walk_schema :: "string list \<Rightarrow> yaml \<Rightarrow> visited" where
  "walk_schema path schema =
     (build_pointer_from_path path, schema)
     # (case schema of
          YMap m \<Rightarrow>
            if ycontains m ''$ref'' then []
            else concat (map (\<lambda>e. walk_schema (path @ fst e) (snd e)) (sub_entries m))
        | _ \<Rightarrow> [])"
  by pat_completeness auto
termination
  by (relation "measure (\<lambda>(path, v). size v)") (auto dest: sub_entries_size)

declare walk_schema.simps [simp del]

definition visit_content_block :: "string list \<Rightarrow> yaml \<Rightarrow> visited" where
  "visit_content_block path node =
     (case node of
        YMap m \<Rightarrow>
          (case yget m ''content'' of
             Some (YMap content) \<Rightarrow>
               visit_entries (\<lambda>p entry. case entry of
                   YMap em \<Rightarrow> (case yget em ''schema'' of
                       Some schema \<Rightarrow> walk_schema (p @ [''schema'']) schema | None \<Rightarrow> [])
                 | _ \<Rightarrow> []) (path @ [''content'']) content
           | _ \<Rightarrow> [])
      | _ \<Rightarrow> [])"

definition visit_param_or_header_schema :: "string list \<Rightarrow> yaml \<Rightarrow> visited" where
  "visit_param_or_header_schema path node =
     (case node of
        YMap m \<Rightarrow>
          (case yget m ''schema'' of Some schema \<Rightarrow> walk_schema (path @ [''schema'']) schema | None \<Rightarrow> [])
          @ visit_content_block path node
      | _ \<Rightarrow> [])"

definition visit_response :: "string list \<Rightarrow> yaml \<Rightarrow> visited" where
  "visit_response path node =
     (case node of
        YMap m \<Rightarrow>
          visit_content_block path node
          @ (case yget m ''headers'' of
               Some (YMap headers) \<Rightarrow> visit_entries visit_param_or_header_schema (path @ [''headers'']) headers
             | _ \<Rightarrow> [])
      | _ \<Rightarrow> [])"

definition visit_operation :: "string list \<Rightarrow> yaml \<Rightarrow> visited" where
  "visit_operation path op =
     (case op of
        YMap m \<Rightarrow>
          (case yget m ''parameters'' of
             Some (YSeq ps) \<Rightarrow> visit_items visit_param_or_header_schema (path @ [''parameters'']) ps | _ \<Rightarrow> [])
          @ (case yget m ''requestBody'' of
               Some rb \<Rightarrow> visit_content_block (path @ [''requestBody'']) rb | None \<Rightarrow> [])
          @ (case yget m ''responses'' of
               Some (YMap rs) \<Rightarrow> visit_entries visit_response (path @ [''responses'']) rs | _ \<Rightarrow> [])
      | _ \<Rightarrow> [])"

definition visit_path_item :: "string list \<Rightarrow> yaml \<Rightarrow> visited" where
  "visit_path_item path item =
     (case item of
        YMap m \<Rightarrow>
          concat (map (\<lambda>meth. case yget m meth of
              Some op \<Rightarrow> visit_operation (path @ [meth]) op | None \<Rightarrow> [])
            [''get'', ''put'', ''post'', ''delete'', ''options'', ''head'', ''patch'', ''trace''])
      | _ \<Rightarrow> [])"

definition visit_schemas :: "yaml \<Rightarrow> visited" where
  "visit_schemas r =
     (case r of
        YMap root_map \<Rightarrow>
          (case yget root_map ''components'' of
             Some (YMap comps) \<Rightarrow>
               (case yget comps ''schemas'' of
                  Some (YMap schemas) \<Rightarrow> visit_entries walk_schema [''components'', ''schemas''] schemas
                | _ \<Rightarrow> [])
           | _ \<Rightarrow> [])
          @ (case yget root_map ''paths'' of
               Some (YMap paths) \<Rightarrow> visit_entries visit_path_item [''paths''] paths | _ \<Rightarrow> [])
      | _ \<Rightarrow> [])"

definition allowed_types :: "string list" where
  "allowed_types = [''null'', ''boolean'', ''integer'', ''number'', ''string'', ''array'', ''object'']"

definition type_names :: "yaml \<Rightarrow> string list" where
  "type_names type_val =
     (case type_val of
        YStr s \<Rightarrow> [s]
      | YSeq xs \<Rightarrow> List.map_filter (\<lambda>v. case v of YStr s \<Rightarrow> Some s | _ \<Rightarrow> None) xs
      | _ \<Rightarrow> [])"

definition validate_schema_type :: "string \<Rightarrow> yaml \<Rightarrow> string option" where
  "validate_schema_type pointer schema =
     (case schema of
        YMap m \<Rightarrow>
          Option.bind (yget m ''type'') (\<lambda>type_val.
            map_option (\<lambda>s. ''invalid schema type '' @ [CHR 0x27] @ s @ [CHR 0x27] @ '' at '' @ pointer
                @ ''/type: must be one of null, boolean, integer, number, string, array, object'')
              (find (\<lambda>s. s \<notin> set allowed_types) (type_names type_val)))
      | _ \<Rightarrow> None)"

definition check_invalid_schema_types :: "yaml \<Rightarrow> spec_error option" where
  "check_invalid_schema_types r =
     map_option SpecParse (find_map (\<lambda>(pointer, schema). validate_schema_type pointer schema) (visit_schemas r))"

section \<open>Loading\<close>

definition validate_spec_semantics :: "openapi \<Rightarrow> yaml \<Rightarrow> spec_error option" where
  "validate_spec_semantics spec raw_yaml =
     (case check_dangling_refs raw_yaml of
        Some e \<Rightarrow> Some e
      | None \<Rightarrow>
          (case check_duplicate_operation_ids spec of
             Some e \<Rightarrow> Some e
           | None \<Rightarrow> check_invalid_schema_types raw_yaml))"

definition parse_normalised :: "loader_env \<Rightarrow> string \<Rightarrow> spec_error + openapi" where
  "parse_normalised le normalised =
     (case le_openapi le normalised of
        Inl e \<Rightarrow> Inl (SpecParse e)
      | Inr spec \<Rightarrow>
          (case le_yaml le normalised of
             Inl e \<Rightarrow> Inl (SpecParse e)
           | Inr normalised_value \<Rightarrow>
               (case validate_spec_semantics spec normalised_value of
                  Some e \<Rightarrow> Inl e
                | None \<Rightarrow> Inr spec)))"

definition load_spec :: "loader_env \<Rightarrow> nat \<Rightarrow> string \<Rightarrow> (spec_error + openapi) run" where
  "load_spec le n src =
     (case read_content le src of
        Inl e \<Rightarrow> Done (Inl e)
      | Inr content \<Rightarrow>
          (case reject_unsupported_openapi_version le content of
             Some e \<Rightarrow> Done (Inl e)
           | None \<Rightarrow>
               (case reject_swagger_two le content of
                  Some e \<Rightarrow> Done (Inl e)
                | None \<Rightarrow>
                    run_map (\<lambda>r. case r of Inl e \<Rightarrow> Inl e | Inr normalised \<Rightarrow> parse_normalised le normalised)
                      (normalize_oas31_nullable le n content))))"

end
