(* ===== verification/RemoteRefs.thy ===== *)
theory RemoteRefs
  imports Loader
begin

text \<open>
  \<open>loader.rs\<close>, remote references: the address classes the guard refuses, the capped read, the fetch with
  its cache and limits, and the loader that inlines what is fetched. The URL parser, name resolution and
  the HTTP client are parameters.
\<close>

section \<open>Addresses\<close>

datatype ip_addr = V4 "32 word" | V6 "128 word"

definition octet :: "nat \<Rightarrow> 32 word \<Rightarrow> nat" where
  "octet i a = unat (drop_bit (24 - 8 * i) a) mod 256"

definition segment0 :: "128 word \<Rightarrow> nat" where
  "segment0 a = unat (drop_bit 112 a)"

definition v4_is_loopback :: "32 word \<Rightarrow> bool" where
  "v4_is_loopback a \<longleftrightarrow> octet 0 a = 127"

definition v4_is_private :: "32 word \<Rightarrow> bool" where
  "v4_is_private a \<longleftrightarrow>
     octet 0 a = 10 \<or> octet 0 a = 172 \<and> 16 \<le> octet 1 a \<and> octet 1 a \<le> 31 \<or> octet 0 a = 192 \<and> octet 1 a = 168"

definition v4_is_link_local :: "32 word \<Rightarrow> bool" where
  "v4_is_link_local a \<longleftrightarrow> octet 0 a = 169 \<and> octet 1 a = 254"

definition v4_is_broadcast :: "32 word \<Rightarrow> bool" where
  "v4_is_broadcast a \<longleftrightarrow> a = 0xFFFFFFFF"

definition v4_is_multicast :: "32 word \<Rightarrow> bool" where
  "v4_is_multicast a \<longleftrightarrow> 224 \<le> octet 0 a \<and> octet 0 a \<le> 239"

definition v4_is_unspecified :: "32 word \<Rightarrow> bool" where
  "v4_is_unspecified a \<longleftrightarrow> a = 0"

definition to_ipv4_mapped :: "128 word \<Rightarrow> 32 word option" where
  "to_ipv4_mapped a = (if drop_bit 32 a = 0xFFFF then Some (ucast a) else None)"

definition is_unsafe_ipv4 :: "32 word \<Rightarrow> bool" where
  "is_unsafe_ipv4 v4 \<longleftrightarrow>
     v4_is_loopback v4 \<or> v4_is_private v4 \<or> v4_is_link_local v4 \<or> v4_is_broadcast v4
     \<or> v4_is_multicast v4 \<or> v4_is_unspecified v4"

definition is_ipv6_link_local :: "128 word \<Rightarrow> bool" where
  "is_ipv6_link_local v6 \<longleftrightarrow> segment0 v6 div 64 * 64 = 0xfe80"

definition is_ipv6_unique_local :: "128 word \<Rightarrow> bool" where
  "is_ipv6_unique_local v6 \<longleftrightarrow> (let high = segment0 v6 div 256 in high = 0xfc \<or> high = 0xfd)"

definition is_unsafe_ip :: "ip_addr \<Rightarrow> bool" where
  "is_unsafe_ip ip \<longleftrightarrow>
     (case ip of
        V4 v4 \<Rightarrow> v4_is_loopback v4 \<or> v4_is_multicast v4 \<or> v4_is_unspecified v4 \<or> is_unsafe_ipv4 v4
      | V6 v6 \<Rightarrow>
          v6 = 1 \<or> segment0 v6 div 256 = 0xff \<or> v6 = 0
          \<or> (case to_ipv4_mapped v6 of Some mapped \<Rightarrow> is_unsafe_ipv4 mapped | None \<Rightarrow> False)
          \<or> is_ipv6_link_local v6 \<or> is_ipv6_unique_local v6)"

section \<open>The guard\<close>

record parsed_url =
  pu_scheme :: string
  pu_host :: "string option"
  pu_port :: "nat option"

datatype read_result = R_Bytes string | R_Interrupted | R_Error string

text \<open>A request may be answered differently each time: the client takes the number of the call.\<close>

datatype http_outcome =
    Send_Error string
  | Http_Response (ho_status: nat) (ho_content_length: "nat option") (ho_body: "read_result list")

record network =
  nw_url :: "string \<Rightarrow> parsed_url option"
  nw_resolve :: "string \<Rightarrow> nat \<Rightarrow> ip_addr list option"
  nw_get :: "(nat \<Rightarrow> string \<Rightarrow> http_outcome) option"
  nw_late :: "nat \<Rightarrow> bool"

definition validate_remote_url :: "network \<Rightarrow> string \<Rightarrow> string option" where
  "validate_remote_url nw raw =
     (case nw_url nw raw of
        None \<Rightarrow> Some ''url parse failed''
      | Some parsed \<Rightarrow>
          (let scheme = pu_scheme parsed in
           if scheme \<noteq> ''http'' \<and> scheme \<noteq> ''https'' then Some ''scheme not http(s)''
           else case pu_host parsed of
               None \<Rightarrow> Some ''missing host''
             | Some host \<Rightarrow>
                 (case nw_resolve nw host (unwrap_or (pu_port parsed) (if scheme = ''https'' then 443 else 80)) of
                    None \<Rightarrow> Some ''dns resolution failed''
                  | Some addrs \<Rightarrow>
                      if list_ex is_unsafe_ip addrs then Some ''resolved to internal/private address''
                      else if addrs = [] then Some ''no addresses resolved''
                      else None)))"

definition is_remote_ref :: "string \<Rightarrow> bool" where
  "is_remote_ref target \<longleftrightarrow> starts_with target ''http://'' \<or> starts_with target ''https://''"

section \<open>The capped read\<close>

datatype read_capped_error = ExceedsCap | ReadIo string

text \<open>The results of successive reads; the end of the list is the end of the stream.\<close>

fun read_capped :: "read_result list \<Rightarrow> nat \<Rightarrow> string \<Rightarrow> read_capped_error + string" where
  "read_capped [] cap buffer = Inr buffer"
| "read_capped (r # rs) cap buffer =
     (case r of
        R_Bytes chunk \<Rightarrow>
          if chunk = [] then Inr buffer
          else if cap < length buffer + length chunk then Inl ExceedsCap
          else read_capped rs cap (buffer @ chunk)
      | R_Interrupted \<Rightarrow> read_capped rs cap buffer
      | R_Error e \<Rightarrow> Inl (ReadIo e))"

section \<open>Fetching\<close>

text \<open>The cache, the number of fetch calls so far (the clock), and the requests that were sent.\<close>

record fetch_state =
  fs_cache :: "(string \<times> json) list"
  fs_calls :: nat
  fs_sent :: "string list"

definition parse_remote_ref_body :: "loader_env \<Rightarrow> string \<Rightarrow> json option" where
  "parse_remote_ref_body le body =
     (case le_json le body of
        Inr v \<Rightarrow> Some v
      | Inl _ \<Rightarrow>
          (case le_yaml le body of
             Inr y \<Rightarrow> (case le_yaml_value_to_json le y of Inr v \<Rightarrow> Some v | Inl _ \<Rightarrow> None)
           | Inl _ \<Rightarrow> None))"

definition response_body :: "loader_env \<Rightarrow> http_outcome \<Rightarrow> json option" where
  "response_body le outcome =
     (case outcome of
        Send_Error e \<Rightarrow> None
      | Http_Response status content_length body \<Rightarrow>
          if \<not> (200 \<le> status \<and> status \<le> 299) then None
          else if (case content_length of Some n \<Rightarrow> REMOTE_REF_MAX_BODY_BYTES < n | None \<Rightarrow> False) then None
          else case read_capped body REMOTE_REF_MAX_BODY_BYTES [] of
              Inl _ \<Rightarrow> None
            | Inr capped \<Rightarrow> Option.bind (from_utf8 capped) (parse_remote_ref_body le))"

definition fetch_remote_ref ::
  "loader_env \<Rightarrow> network \<Rightarrow> string \<Rightarrow> fetch_state \<Rightarrow> json option \<times> fetch_state" where
  "fetch_remote_ref le nw url st0 =
     (let st = st0\<lparr>fs_calls := fs_calls st0 + 1\<rparr> in
      case map_of (fs_cache st) url of
        Some hit \<Rightarrow> (Some hit, st)
      | None \<Rightarrow>
          if nw_late nw (fs_calls st) then (None, st)
          else if REMOTE_REF_MAX_FETCHES \<le> length (fs_cache st) then (None, st)
          else if validate_remote_url nw url \<noteq> None then (None, st)
          else case nw_get nw of
              None \<Rightarrow> (None, st)
            | Some get \<Rightarrow>
                (let sent = st\<lparr>fs_sent := fs_sent st @ [url]\<rparr> in
                 case response_body le (get (fs_calls st) url) of
                   None \<Rightarrow> (None, sent)
                 | Some parsed \<Rightarrow> (Some parsed, sent\<lparr>fs_cache := (url, parsed) # fs_cache sent\<rparr>)))"

section \<open>Inlining\<close>

text \<open>Running a step over a list with the state passed along.\<close>

fun thread :: "('a \<Rightarrow> 's \<Rightarrow> 'b \<times> 's) \<Rightarrow> 'a list \<Rightarrow> 's \<Rightarrow> 'b list \<times> 's" where
  "thread f [] s = ([], s)"
| "thread f (x # xs) s =
     (let (y, s1) = f x s; (ys, s2) = thread f xs s1 in (y # ys, s2))"

lemma thread_cong [fundef_cong]:
  "xs = ys \<Longrightarrow> s = t \<Longrightarrow> (\<And>x u. x \<in> set ys \<Longrightarrow> f x u = g x u) \<Longrightarrow> thread f xs s = thread g ys t"
  by (induction xs arbitrary: ys s t) (auto split: prod.splits)

definition remote_target :: "obj \<Rightarrow> string option" where
  "remote_target m =
     (case map_of m ''$ref'' of Some (JStr target) \<Rightarrow> if is_remote_ref target then Some target else None | _ \<Rightarrow> None)"

fun inline_remote_refs :: "loader_env \<Rightarrow> network \<Rightarrow> json \<Rightarrow> fetch_state \<Rightarrow> json \<times> fetch_state" where
  "inline_remote_refs le nw (JObj m) st =
     (let (fetched, st1) = (case remote_target m of
            Some url \<Rightarrow> fetch_remote_ref le nw url st | None \<Rightarrow> (None, st))
      in case fetched of
           Some v \<Rightarrow> (v, st1)
         | None \<Rightarrow>
             (let (es, st2) = thread (\<lambda>e s. let (v, s1) = inline_remote_refs le nw (snd e) s in ((fst e, v), s1)) m st1
              in (JObj es, st2)))"
| "inline_remote_refs le nw (JArr xs) st =
     (let (ys, st1) = thread (\<lambda>x s. inline_remote_refs le nw x s) xs st in (JArr ys, st1))"
| "inline_remote_refs le nw v st = (v, st)"

definition extract_nullable_pair :: "json list \<Rightarrow> string option" where
  "extract_nullable_pair xs =
     (case xs of
        [a, b] \<Rightarrow> Option.bind (as_str a) (\<lambda>s. Option.bind (as_str b) (\<lambda>t. nullable_pair s t))
      | _ \<Rightarrow> None)"

definition rewrite_nullable_json :: "obj \<Rightarrow> obj" where
  "rewrite_nullable_json m =
     (case Option.bind (Option.bind (map_of m ''type'') as_array) extract_nullable_pair of
        None \<Rightarrow> m
      | Some non_null \<Rightarrow>
          (let m1 = obj_insert ''type'' (JStr non_null) m
           in if contains_key m1 ''nullable'' then m1 else obj_insert ''nullable'' (JBool True) m1))"

lemma adds_leaves_obj_insert: "size v = 0 \<Longrightarrow> adds_leaves m (obj_insert k v m)"
  unfolding adds_leaves_def by (induction k v m rule: obj_insert.induct) auto

lemma adds_leaves_nullable_json: "adds_leaves m (rewrite_nullable_json m)"
  unfolding rewrite_nullable_json_def Let_def
  by (auto split: option.splits
      intro: adds_leaves_obj_insert adds_leaves_trans [OF adds_leaves_obj_insert adds_leaves_obj_insert])

lemma adds_leaves_obj_size: "adds_leaves m m' \<Longrightarrow> e \<in> set m' \<Longrightarrow> size (snd e) < size (JObj m)"
  unfolding adds_leaves_def using size_obj_entry [of e m] by auto

function rewrite_nullable_type_arrays :: "json \<Rightarrow> json" where
  "rewrite_nullable_type_arrays (JObj m) =
     JObj (map (\<lambda>e. (fst e, rewrite_nullable_type_arrays (snd e))) (rewrite_nullable_json m))"
| "rewrite_nullable_type_arrays (JArr xs) = JArr (map rewrite_nullable_type_arrays xs)"
| "rewrite_nullable_type_arrays JNull = JNull"
| "rewrite_nullable_type_arrays (JBool b) = JBool b"
| "rewrite_nullable_type_arrays (JNum n) = JNum n"
| "rewrite_nullable_type_arrays (JStr s) = JStr s"
  by pat_completeness auto
termination
  by (relation "measure size")
     (auto simp: less_Suc_eq_le intro: size_list_estimation' adds_leaves_obj_size [OF adds_leaves_nullable_json, simplified])

definition load_spec_with_remote_refs :: "loader_env \<Rightarrow> network \<Rightarrow> string \<Rightarrow> spec_error + openapi" where
  "load_spec_with_remote_refs le nw src =
     (case read_content le src of
        Inl e \<Rightarrow> Inl e
      | Inr content \<Rightarrow>
          (case (if starts_with (trim_start content) ''{'' then le_json le content
                 else case le_yaml le content of Inl e \<Rightarrow> Inl e | Inr y \<Rightarrow> le_yaml_value_to_json le y) of
             Inl e \<Rightarrow> Inl (SpecParse e)
           | Inr tree \<Rightarrow>
               (case le_openapi_value le
                       (rewrite_nullable_type_arrays
                         (fst (inline_remote_refs le nw tree \<lparr>fs_cache = [], fs_calls = 0, fs_sent = []\<rparr>))) of
                  Inl e \<Rightarrow> Inl (SpecParse e)
                | Inr spec \<Rightarrow> Inr spec)))"

end
