(* ===== verification/LoaderFacts.thy ===== *)
theory LoaderFacts
  imports Loader EngineFacts
begin

text \<open>Properties of the loader: what an accepted document satisfies, and what its checks reject.\<close>

section \<open>JSON pointers\<close>

lemma replace_char: "replace_all [c] rep s = concat (map (\<lambda>x. if x = c then rep else [x]) s)"
  by (induction "[c]" rep s rule: replace_all.induct) (auto simp: starts_with_def)

lemma unescape_step:
  "replace_all ''~1'' ''/'' (concat (map (\<lambda>x. if x = CHR ''/'' then ''~1'' else [x])
     (concat (map (\<lambda>x. if x = CHR ''~'' then ''~0'' else [x]) s))))
   = concat (map (\<lambda>x. if x = CHR ''~'' then ''~0'' else [x]) s)"
  by (induction s) (auto simp: starts_with_def)

lemma unescape_last:
  "replace_all ''~0'' ''~'' (concat (map (\<lambda>x. if x = CHR ''~'' then ''~0'' else [x]) s)) = s"
  by (induction s) (auto simp: starts_with_def)

lemma unescape_escape: "unescape_token (escape_pointer_segment s) = s"
  by (simp add: unescape_token_def escape_pointer_segment_def replace_char unescape_step unescape_last)

lemma escape_no_slash: "CHR ''/'' \<notin> set (escape_pointer_segment s)"
  by (auto simp: escape_pointer_segment_def replace_char)

lemma pointer_tokens:
  "path \<noteq> [] \<Longrightarrow>
   split_on CHR ''/'' (tl (concat (map (\<lambda>seg. CHR ''/'' # escape_pointer_segment seg) path)))
     = map escape_pointer_segment path"
proof (induction path)
  case (Cons seg path)
  show ?case
  proof (cases path)
    case Nil
    then show ?thesis by (simp add: split_on_no_sep [OF escape_no_slash])
  next
    case (Cons seg' rest)
    then show ?thesis using Cons.IH by (simp add: split_on_append [OF escape_no_slash])
  qed
qed simp

text \<open>The value at the end of a path of keys and indices, written as the walks write them.\<close>

fun value_at :: "string list \<Rightarrow> yaml \<Rightarrow> yaml option" where
  "value_at [] v = Some v"
| "value_at (key # path) v =
     (case v of
        YMap m \<Rightarrow> Option.bind (yget m key) (value_at path)
      | YSeq xs \<Rightarrow> Option.bind (parse_usize key) (\<lambda>i. if i < length xs then value_at path (xs ! i) else None)
      | _ \<Rightarrow> None)"

lemma resolve_escaped: "resolve_tokens (map escape_pointer_segment path) v = value_at path v"
  by (induction path v rule: value_at.induct)
     (auto simp: unescape_escape Let_def split: yaml.split Option.bind_split)

text \<open>
  a pointer that the loader builds from a path of keys and indices, whatever characters the keys have,
  is resolved by the loader's resolver to the value at that path.
\<close>

theorem pointer_roundtrip:
  assumes "path \<noteq> []" and "build_pointer_from_path path \<noteq> ''#/''"
  shows "resolve_json_pointer r (build_pointer_from_path path) = value_at path r"
proof -
  define body where "body = tl (concat (map (\<lambda>seg. CHR ''/'' # escape_pointer_segment seg) path))"
  have "build_pointer_from_path path = ''#/'' @ body"
    using assms(1) by (cases path) (simp_all add: build_pointer_from_path_def body_def)
  moreover have "split_on CHR ''/'' body = map escape_pointer_segment path"
    unfolding body_def by (rule pointer_tokens [OF assms(1)])
  moreover have "body \<noteq> []" using assms(2) calculation(1) by auto
  moreover have "resolve_json_pointer r (''#/'' @ body) =
      (if body = [] then Some r else resolve_tokens (split_on CHR ''/'' body) r)"
    unfolding resolve_json_pointer_def strip_prefix_append by simp
  ultimately show ?thesis by (simp only: if_False resolve_escaped)
qed

theorem pointer_roundtrip_witness:
  "resolve_json_pointer (YMap [(YStr ''a/b~1'', YSeq [YNull, YBool True])])
     (build_pointer_from_path [''a/b~1'', show_nat 1]) = Some (YBool True)"
proof -
  have "parse_usize (show_nat 1) = Some 1" by code_simp
  then show ?thesis
    by (subst pointer_roundtrip) (simp_all add: build_pointer_from_path_def yget_def escape_pointer_segment_def)
qed

section \<open>References\<close>

text \<open>The values of a document, however deep.\<close>

inductive part_of :: "yaml \<Rightarrow> yaml \<Rightarrow> bool" where
  whole: "part_of v v"
| entry: "part_of v x \<Longrightarrow> (k, x) \<in> set m \<Longrightarrow> part_of v (YMap m)"
| item: "part_of v x \<Longrightarrow> x \<in> set xs \<Longrightarrow> part_of v (YSeq xs)"

inductive_simps part_of_map: "part_of v (YMap m)"
inductive_simps part_of_seq: "part_of v (YSeq xs)"
inductive_simps part_of_leaf: "part_of v YNull" "part_of v (YBool b)" "part_of v (YNum n)" "part_of v (YStr s)"
  "part_of v (YTagged t x)"

definition has_ref :: "yaml \<Rightarrow> string \<Rightarrow> bool" where
  "has_ref r target \<longleftrightarrow> (\<exists>m. part_of (YMap m) r \<and> yget m ''$ref'' = Some (YStr target))"

lemma some_entry: "(\<exists>k x. (k, x) \<in> set m \<and> P x) \<longleftrightarrow> (\<exists>e \<in> set m. P (snd e))"
  by force

lemma has_ref_map:
  "has_ref (YMap m) target \<longleftrightarrow> yget m ''$ref'' = Some (YStr target) \<or> (\<exists>e \<in> set m. has_ref (snd e) target)"
  unfolding has_ref_def part_of_map
    some_entry [symmetric, of m "\<lambda>x. \<exists>m'. part_of (YMap m') x \<and> yget m' ''$ref'' = Some (YStr target)"]
  by blast

lemma has_ref_seq: "has_ref (YSeq xs) target \<longleftrightarrow> (\<exists>x \<in> set xs. has_ref x target)"
  unfolding has_ref_def part_of_seq by blast

lemma walk_for_refs_iff: "target \<in> set (walk_for_refs r) \<longleftrightarrow> has_ref r target"
proof (induction r rule: walk_for_refs.induct)
  case (1 m)
  have "target \<in> set (case yget m ''$ref'' of Some (YStr t) \<Rightarrow> [t] | _ \<Rightarrow> []) \<longleftrightarrow>
      yget m ''$ref'' = Some (YStr target)"
    by (cases "yget m ''$ref''"; simp; case_tac a; auto)
  moreover have "target \<in> set (concat (map (\<lambda>e. walk_for_refs (snd e)) m)) \<longleftrightarrow>
      (\<exists>e \<in> set m. target \<in> set (walk_for_refs (snd e)))"
    unfolding set_concat set_map by blast
  moreover have "(\<exists>e \<in> set m. target \<in> set (walk_for_refs (snd e))) \<longleftrightarrow> (\<exists>e \<in> set m. has_ref (snd e) target)"
    by (rule bex_cong [OF refl 1])
  ultimately show ?case unfolding has_ref_map walk_for_refs.simps(1) set_append Un_iff by blast
next
  case (2 xs)
  have "target \<in> set (walk_for_refs (YSeq xs)) \<longleftrightarrow> (\<exists>x \<in> set xs. target \<in> set (walk_for_refs x))" by auto
  also have "\<dots> \<longleftrightarrow> (\<exists>x \<in> set xs. has_ref x target)" by (rule bex_cong [OF refl 2])
  finally show ?case unfolding has_ref_seq .
qed (simp_all add: has_ref_def part_of_leaf)

text \<open>The component a reference names.\<close>

definition component_entry :: "yaml \<Rightarrow> string \<Rightarrow> string \<Rightarrow> yaml \<Rightarrow> bool" where
  "component_entry r bag name v \<longleftrightarrow>
     (\<exists>m comps entries. r = YMap m \<and> yget m ''components'' = Some (YMap comps)
        \<and> yget comps bag = Some (YMap entries) \<and> yget entries name = Some v)"

lemma resolve_component_entry_Some_iff:
  "resolve_component_entry r bag name = Some v \<longleftrightarrow> component_entry r bag (unescape_token name) v"
  by (auto simp: resolve_component_entry_def component_entry_def split: option.splits yaml.splits)

lemma check_dangling_None_iff:
  "check_dangling_refs r = None \<longleftrightarrow> (\<forall>target. has_ref r target \<longrightarrow> \<not> dangling r target)"
proof -
  have "check_dangling_refs r = None \<longleftrightarrow> find (dangling r) (walk_for_refs r) = None"
    by (simp add: check_dangling_refs_def split: option.split)
  then show ?thesis by (auto simp: find_None_iff walk_for_refs_iff)
qed

lemma dangling_component:
  assumes "bag \<in> set component_bags"
  shows "dangling r (''#/components/'' @ bag @ ''/'' @ name) \<longleftrightarrow>
    name \<noteq> [] \<and> (\<nexists>v. component_entry r bag (unescape_token name) v)"
proof -
  have "CHR ''/'' \<notin> set bag" using assms by (auto simp: component_bags_def)
  then have "split_once CHR ''/'' (bag @ ''/'' @ name) = Some (bag, name)" by simp
  then have "dangling r (''#/components/'' @ bag @ ''/'' @ name) \<longleftrightarrow>
      name \<noteq> [] \<and> resolve_component_entry r bag name = None"
    unfolding dangling_def strip_prefix_append using assms by simp
  also have "resolve_component_entry r bag name = None \<longleftrightarrow> (\<nexists>v. component_entry r bag (unescape_token name) v)"
    unfolding resolve_component_entry_Some_iff [symmetric] by simp
  finally show ?thesis .
qed

text \<open>
  the check passes exactly the documents without a dangling reference: in a document it passes, every
  \<open>$ref\<close> into a component section, however deep it stands, names a component that exists.
\<close>

theorem accepted_references_resolve:
  assumes "check_dangling_refs r = None"
    and "has_ref r (''#/components/'' @ bag @ ''/'' @ escape_pointer_segment name)"
    and "bag \<in> set component_bags" and "name \<noteq> []"
  shows "\<exists>v. component_entry r bag name v"
proof -
  have "\<not> dangling r (''#/components/'' @ bag @ ''/'' @ escape_pointer_segment name)"
    using assms(1,2) unfolding check_dangling_None_iff by blast
  moreover have "escape_pointer_segment name \<noteq> []"
    using assms(4) unescape_escape [of name] by (metis replace_all.simps(1) unescape_token_def)
  ultimately show ?thesis
    unfolding dangling_component [OF assms(3)] unescape_escape by blast
qed

theorem accepted_references_resolve_witness:
  "\<exists>v. component_entry
      (YMap [(YStr ''components'', YMap [(YStr ''schemas'', YMap [(YStr ''a/b'',
         YMap [(YStr ''items'', YMap [(YStr ''$ref'', YStr ''#/components/schemas/a~1b'')])])])])])
      ''schemas'' ''a/b'' v"
proof (rule accepted_references_resolve)
  let ?d = "YMap [(YStr ''components'', YMap [(YStr ''schemas'', YMap [(YStr ''a/b'',
         YMap [(YStr ''items'', YMap [(YStr ''$ref'', YStr ''#/components/schemas/a~1b'')])])])])]"
  show "check_dangling_refs ?d = None" by code_simp
  have "''#/components/schemas/a~1b'' = ''#/components/'' @ ''schemas'' @ ''/'' @ escape_pointer_segment ''a/b''"
    by code_simp
  moreover have "''#/components/schemas/a~1b'' \<in> set (walk_for_refs ?d)" by (simp add: yget_def)
  ultimately show "has_ref ?d (''#/components/'' @ ''schemas'' @ ''/'' @ escape_pointer_segment ''a/b'')"
    by (simp only: walk_for_refs_iff)
qed (simp_all add: component_bags_def)

text \<open>
  a reference to a place inside a component is rejected as dangling, although the place exists and the
  loader's own resolver finds it: everything after the section is taken for one name.
\<close>

theorem deep_reference_rejected:
  assumes "bag \<in> set component_bags" and "CHR ''~'' \<notin> set (name @ rest)"
    and "\<And>v. \<not> component_entry r bag (name @ ''/'' @ rest) v"
  shows "dangling r (''#/components/'' @ bag @ ''/'' @ name @ ''/'' @ rest)"
proof -
  have "unescape_token s = s" if "CHR ''~'' \<notin> set s" for s
  proof -
    have "replace_all f t s = s" if "f = CHR ''~'' # f'" for f f' t
      using \<open>CHR ''~'' \<notin> set s\<close> that by (induction f t s rule: replace_all.induct) (auto simp: starts_with_def)
    then show ?thesis by (simp add: unescape_token_def)
  qed
  then have "unescape_token (name @ ''/'' @ rest) = name @ ''/'' @ rest" using assms(2) by simp
  then show ?thesis unfolding dangling_component [OF assms(1)] using assms(3) by simp
qed

definition pet_doc :: yaml where
  "pet_doc = YMap [(YStr ''components'', YMap [(YStr ''schemas'', YMap
     [(YStr ''Pet'', YMap [(YStr ''properties'', YMap [(YStr ''tag'', YMap [(YStr ''type'', YStr ''string'')])])])])])]"

theorem deep_reference_rejected_witness:
  "dangling pet_doc (''#/components/'' @ ''schemas'' @ ''/'' @ ''Pet'' @ ''/'' @ ''properties/tag'')
   \<and> resolve_json_pointer pet_doc ''#/components/schemas/Pet/properties/tag'' = Some (YMap [(YStr ''type'', YStr ''string'')])"
proof
  show "dangling pet_doc (''#/components/'' @ ''schemas'' @ ''/'' @ ''Pet'' @ ''/'' @ ''properties/tag'')"
    by (rule deep_reference_rejected) (simp_all add: component_bags_def component_entry_def pet_doc_def yget_def)
  show "resolve_json_pointer pet_doc ''#/components/schemas/Pet/properties/tag'' = Some (YMap [(YStr ''type'', YStr ''string'')])"
    by code_simp
qed

section \<open>Operation identifiers\<close>

lemma first_duplicate_None_iff:
  "first_duplicate seen ids = None \<longleftrightarrow> distinct (map fst ids) \<and> fst ` set seen \<inter> fst ` set ids = {}"
proof (induction seen ids rule: first_duplicate.induct)
  case (2 seen op_id meth path rest)
  show ?case
  proof (cases "map_of seen op_id")
    case None
    then have "op_id \<notin> fst ` set seen" by (simp add: map_of_eq_None_iff)
    with 2 [OF None] None show ?thesis by auto
  next
    case (Some p)
    then have "op_id \<in> fst ` set seen" by (metis domI dom_map_of_conv_image_fst)
    then show ?thesis using Some by (auto split: prod.split)
  qed
qed simp

lemma check_duplicates_None_iff:
  "check_duplicate_operation_ids spec = None \<longleftrightarrow> distinct (map fst (declared_ids spec))"
  by (simp add: check_duplicate_operation_ids_def first_duplicate_None_iff)

section \<open>Schema types\<close>

text \<open>The schemas a schema is made of, as the specification nests them. A reference is not followed.\<close>

inductive schema_below :: "yaml \<Rightarrow> yaml \<Rightarrow> bool" where
  here: "schema_below s s"
| property: "schema_below s v \<Longrightarrow> \<not> ycontains m ''$ref'' \<Longrightarrow> yget m ''properties'' = Some (YMap props)
    \<Longrightarrow> (k, v) \<in> set props \<Longrightarrow> schema_below s (YMap m)"
| additional: "schema_below s (YMap a) \<Longrightarrow> \<not> ycontains m ''$ref'' \<Longrightarrow> yget m ''additionalProperties'' = Some (YMap a)
    \<Longrightarrow> schema_below s (YMap m)"
| items: "schema_below s (YMap a) \<Longrightarrow> \<not> ycontains m ''$ref'' \<Longrightarrow> yget m ''items'' = Some (YMap a)
    \<Longrightarrow> schema_below s (YMap m)"
| combined: "schema_below s v \<Longrightarrow> \<not> ycontains m ''$ref'' \<Longrightarrow> c \<in> {''allOf'', ''anyOf'', ''oneOf'', ''prefixItems''}
    \<Longrightarrow> yget m c = Some (YSeq xs) \<Longrightarrow> v \<in> set xs \<Longrightarrow> schema_below s (YMap m)"
| negated: "schema_below s v \<Longrightarrow> \<not> ycontains m ''$ref'' \<Longrightarrow> yget m ''not'' = Some v \<Longrightarrow> schema_below s (YMap m)"

lemma enumerate_values: "snd ` set (enumerate k xs) = set xs"
  by (induction xs arbitrary: k) auto

text \<open>The values of an optional piece of a schema.\<close>

lemma property_values:
  "snd ` set (case yget m ''properties'' of
      Some (YMap props) \<Rightarrow> map (\<lambda>e. ([''properties'', key_as_str (fst e)], snd e)) props | _ \<Rightarrow> [])
   = {v. \<exists>props k. yget m ''properties'' = Some (YMap props) \<and> (k, v) \<in> set props}"
proof (cases "\<exists>props. yget m ''properties'' = Some (YMap props)")
  case True
  then obtain props where "yget m ''properties'' = Some (YMap props)" by blast
  then show ?thesis by (force simp: image_image)
next
  case False
  then show ?thesis by (cases "yget m ''properties''"; simp; case_tac a; simp)
qed

lemma mapping_values:
  "snd ` set (case yget m key of Some a \<Rightarrow> if is_ymap a then [([key], a)] else [] | None \<Rightarrow> [])
   = {v. \<exists>a. v = YMap a \<and> yget m key = Some v}"
  by (cases "yget m key"; simp; case_tac a; auto simp: is_ymap_def)

lemma combinator_values:
  "snd ` set (case yget m c of Some (YSeq xs) \<Rightarrow> map (\<lambda>(i, x). ([c, show_nat i], x)) (enumerate 0 xs) | _ \<Rightarrow> [])
   = {v. \<exists>xs. yget m c = Some (YSeq xs) \<and> v \<in> set xs}"
proof (cases "\<exists>xs. yget m c = Some (YSeq xs)")
  case True
  then obtain xs where xs: "yget m c = Some (YSeq xs)" by blast
  have "snd ` set (map (\<lambda>(i, x). ([c, show_nat i], x)) (enumerate 0 xs)) = snd ` set (enumerate 0 xs)"
    by (simp add: image_image case_prod_beta)
  with xs show ?thesis by (simp add: enumerate_values)
next
  case False
  then show ?thesis by (cases "yget m c"; simp; case_tac a; simp)
qed

lemma negated_values:
  "snd ` set (case yget m ''not'' of Some x \<Rightarrow> [([''not''], x)] | None \<Rightarrow> []) = {v. yget m ''not'' = Some v}"
  by (cases "yget m ''not''") auto

lemma sub_entries_values:
  "snd ` set (sub_entries m) =
     {v. \<exists>props k. yget m ''properties'' = Some (YMap props) \<and> (k, v) \<in> set props}
     \<union> {v. \<exists>a. v = YMap a \<and> yget m ''additionalProperties'' = Some v}
     \<union> {v. \<exists>a. v = YMap a \<and> yget m ''items'' = Some v}
     \<union> (\<Union>c \<in> {''allOf'', ''anyOf'', ''oneOf'', ''prefixItems''}. {v. \<exists>xs. yget m c = Some (YSeq xs) \<and> v \<in> set xs})
     \<union> {v. yget m ''not'' = Some v}"
  unfolding sub_entries_def set_append image_Un set_concat list.map list.set image_UN image_insert image_empty
    Union_insert Union_empty UN_insert UN_empty property_values mapping_values combinator_values negated_values
  by (simp only: Un_assoc Un_empty_right)

lemma schema_below_step:
  "schema_below s (YMap m) \<longleftrightarrow>
     s = YMap m \<or> \<not> ycontains m ''$ref'' \<and> (\<exists>v \<in> snd ` set (sub_entries m). schema_below s v)"
  (is "_ \<longleftrightarrow> ?r")
proof
  show "schema_below s (YMap m) \<Longrightarrow> ?r"
    unfolding sub_entries_values by (erule schema_below.cases) blast+
  show "?r \<Longrightarrow> schema_below s (YMap m)"
    unfolding sub_entries_values by (auto intro: schema_below.intros)
qed

lemma schema_below_leaf: "(\<nexists>m. v = YMap m) \<Longrightarrow> schema_below s v \<longleftrightarrow> s = v"
  by (auto intro: here elim: schema_below.cases)

lemma walk_schema_values: "snd ` set (walk_schema path v) = {s. schema_below s v}"
proof (induction path v rule: walk_schema.induct)
  case (1 path v)
  show ?case
  proof (cases "\<exists>m. v = YMap m")
    case False
    then have "walk_schema path v = [(build_pointer_from_path path, v)]"
      unfolding walk_schema.simps [of path v] by (cases v) simp_all
    then show ?thesis using schema_below_leaf [OF False] by auto
  next
    case True
    then obtain m where v: "v = YMap m" by blast
    show ?thesis
    proof (cases "ycontains m ''$ref''")
      case True
      then show ?thesis unfolding v walk_schema.simps [of path "YMap m"] schema_below_step by auto
    next
      case False
      have "snd ` set (walk_schema path (YMap m)) =
          insert (YMap m) (\<Union>e \<in> set (sub_entries m). snd ` set (walk_schema (path @ fst e) (snd e)))"
        unfolding walk_schema.simps [of path "YMap m"] using False
        by (simp add: image_UN)
      also have "\<dots> = insert (YMap m) (\<Union>e \<in> set (sub_entries m). {s. schema_below s (snd e)})"
        using 1 [OF v False] by (intro arg_cong [where f = "insert (YMap m)"] SUP_cong) simp_all
      finally show ?thesis unfolding v schema_below_step using False by auto
    qed
  qed
qed

text \<open>Where the specification puts schemas: in the components, and in the operations.\<close>

definition content_roots :: "yaml \<Rightarrow> yaml set" where
  "content_roots node = {s. \<exists>m content k em. node = YMap m \<and> yget m ''content'' = Some (YMap content)
     \<and> (k, YMap em) \<in> set content \<and> yget em ''schema'' = Some s}"

definition parameter_roots :: "yaml \<Rightarrow> yaml set" where
  "parameter_roots node = {s. \<exists>m. node = YMap m \<and> yget m ''schema'' = Some s} \<union> content_roots node"

definition response_roots :: "yaml \<Rightarrow> yaml set" where
  "response_roots node = content_roots node
     \<union> {s. \<exists>m hs k h. node = YMap m \<and> yget m ''headers'' = Some (YMap hs) \<and> (k, h) \<in> set hs \<and> s \<in> parameter_roots h}"

definition operation_roots :: "yaml \<Rightarrow> yaml set" where
  "operation_roots op =
     {s. \<exists>m ps p. op = YMap m \<and> yget m ''parameters'' = Some (YSeq ps) \<and> p \<in> set ps \<and> s \<in> parameter_roots p}
     \<union> {s. \<exists>m rb. op = YMap m \<and> yget m ''requestBody'' = Some rb \<and> s \<in> content_roots rb}
     \<union> {s. \<exists>m rs k resp. op = YMap m \<and> yget m ''responses'' = Some (YMap rs) \<and> (k, resp) \<in> set rs \<and> s \<in> response_roots resp}"

definition document_roots :: "yaml \<Rightarrow> yaml set" where
  "document_roots r =
     {s. \<exists>m comps schemas k. r = YMap m \<and> yget m ''components'' = Some (YMap comps)
        \<and> yget comps ''schemas'' = Some (YMap schemas) \<and> (k, s) \<in> set schemas}
     \<union> {s. \<exists>m paths k im meth op. r = YMap m \<and> yget m ''paths'' = Some (YMap paths) \<and> (k, YMap im) \<in> set paths
        \<and> meth \<in> {''get'', ''put'', ''post'', ''delete'', ''options'', ''head'', ''patch'', ''trace''}
        \<and> yget im meth = Some op \<and> s \<in> operation_roots op}"

definition below :: "yaml set \<Rightarrow> yaml set" where
  "below R = {s. \<exists>t \<in> R. schema_below s t}"

lemma below_Un: "below (A \<union> B) = below A \<union> below B"
  by (auto simp: below_def)

lemma below_empty [simp]: "below {} = {}"
  by (simp add: below_def)

text \<open>The schemas a walk has seen.\<close>

definition seen :: "visited \<Rightarrow> yaml set" where
  "seen vs = snd ` set vs"

lemma seen_simps [simp]:
  "seen [] = {}" "seen (a @ b) = seen a \<union> seen b" "seen (concat (map f xs)) = (\<Union>x \<in> set xs. seen (f x))"
  by (auto simp: seen_def)

lemma visit_entries_values:
  assumes "\<And>p v. seen (f p v) = below (R v)"
  shows "seen (visit_entries f path m) = below {s. \<exists>k v. (k, v) \<in> set m \<and> s \<in> R v}"
proof -
  have "seen (visit_entries f path m) = (\<Union>e \<in> set m. below (R (snd e)))"
    unfolding visit_entries_def by (simp add: assms)
  then show ?thesis unfolding below_def by force
qed

lemma visit_items_values:
  assumes "\<And>p v. seen (f p v) = below (R v)"
  shows "seen (visit_items f path xs) = below {s. \<exists>v \<in> set xs. s \<in> R v}"
proof -
  have "seen (visit_items f path xs) = (\<Union>i \<in> {0..<length xs}. below (R (xs ! i)))"
    unfolding visit_items_def by (simp add: assms)
  also have "\<dots> = (\<Union>v \<in> (!) xs ` {0..<length xs}. below (R v))" by blast
  also have "(!) xs ` {0..<length xs} = set xs" using nth_image [of "length xs" xs] by simp
  finally show ?thesis unfolding below_def by blast
qed

lemma walk_schema_below: "seen (walk_schema path v) = below {v}"
  by (simp add: seen_def walk_schema_values below_def)

lemma visit_content_values: "seen (visit_content_block path node) = below (content_roots node)"
proof -
  have entry: "seen (case v of YMap em \<Rightarrow>
        (case yget em ''schema'' of Some schema \<Rightarrow> walk_schema (p @ [''schema'']) schema | None \<Rightarrow> []) | _ \<Rightarrow> [])
      = below {s. \<exists>em. v = YMap em \<and> yget em ''schema'' = Some s}" for p v
    by (cases v; simp split: option.split add: walk_schema_below; simp add: below_def)
  show ?thesis
  proof (cases "\<exists>m content. node = YMap m \<and> yget m ''content'' = Some (YMap content)")
    case True
    then obtain m content where "node = YMap m" "yget m ''content'' = Some (YMap content)" by blast
    then show ?thesis
      by (simp add: visit_content_block_def content_roots_def visit_entries_values [OF entry]) (rule arg_cong [of _ _ below]; blast)
  next
    case False
    then have "visit_content_block path node = []"
      by (auto simp: visit_content_block_def split: yaml.split option.split)
    moreover have "content_roots node = {}" using False by (auto simp: content_roots_def)
    ultimately show ?thesis by simp
  qed
qed

lemma visit_parameter_values: "seen (visit_param_or_header_schema path node) = below (parameter_roots node)"
proof (cases node)
  case (YMap m)
  have "seen (case yget m ''schema'' of Some schema \<Rightarrow> walk_schema (path @ [''schema'']) schema | None \<Rightarrow> [])
      = below {s. yget m ''schema'' = Some s}"
    by (simp split: option.split add: walk_schema_below)
  then show ?thesis
    using YMap by (simp add: visit_param_or_header_schema_def parameter_roots_def visit_content_values below_Un)
qed (simp_all add: visit_param_or_header_schema_def parameter_roots_def content_roots_def)

lemma optional_map_values:
  assumes "\<And>m'. seen (f m') = below (R m')"
  shows "seen (case yget m key of Some (YMap m') \<Rightarrow> f m' | _ \<Rightarrow> []) =
    below {s. \<exists>m'. yget m key = Some (YMap m') \<and> s \<in> R m'}"
proof (cases "\<exists>m'. yget m key = Some (YMap m')")
  case True
  then show ?thesis using assms by auto
next
  case False
  then show ?thesis by (cases "yget m key"; simp; case_tac a; simp)
qed

lemma optional_seq_values:
  assumes "\<And>m'. seen (f m') = below (R m')"
  shows "seen (case yget m key of Some (YSeq m') \<Rightarrow> f m' | _ \<Rightarrow> []) =
    below {s. \<exists>m'. yget m key = Some (YSeq m') \<and> s \<in> R m'}"
proof (cases "\<exists>m'. yget m key = Some (YSeq m')")
  case True
  then show ?thesis using assms by auto
next
  case False
  then show ?thesis by (cases "yget m key"; simp; case_tac a; simp)
qed

lemma optional_values:
  assumes "\<And>m'. seen (f m') = below (R m')"
  shows "seen (case yget m key of Some m' \<Rightarrow> f m' | None \<Rightarrow> []) =
    below {s. \<exists>m'. yget m key = Some m' \<and> s \<in> R m'}"
  using assms by (simp split: option.split)

lemma visit_response_values: "seen (visit_response path node) = below (response_roots node)"
proof (cases node)
  case (YMap m)
  then show ?thesis
    by (simp add: visit_response_def response_roots_def visit_content_values below_Un
        optional_map_values [OF visit_entries_values [OF visit_parameter_values]])
qed (simp_all add: visit_response_def response_roots_def content_roots_def)

lemma visit_operation_values: "seen (visit_operation path op) = below (operation_roots op)"
proof (cases op)
  case (YMap m)
  then show ?thesis
    by (simp add: visit_operation_def operation_roots_def visit_content_values below_Un
        optional_map_values [OF visit_entries_values [OF visit_response_values]]
        optional_seq_values [OF visit_items_values [OF visit_parameter_values]]
        optional_values [OF visit_content_values] Un_assoc Bex_def)
qed (simp_all add: visit_operation_def operation_roots_def)

lemma visit_path_item_values:
  "seen (visit_path_item path item) =
   below {s. \<exists>im meth op. item = YMap im
     \<and> meth \<in> {''get'', ''put'', ''post'', ''delete'', ''options'', ''head'', ''patch'', ''trace''}
     \<and> yget im meth = Some op \<and> s \<in> operation_roots op}"
proof (cases item)
  case (YMap im)
  have "seen (concat (map (\<lambda>meth. case yget im meth of Some op \<Rightarrow> visit_operation (path @ [meth]) op | None \<Rightarrow> []) ms))
      = below {s. \<exists>meth op. meth \<in> set ms \<and> yget im meth = Some op \<and> s \<in> operation_roots op}" for ms
    by (simp add: optional_values [OF visit_operation_values]) (auto simp: below_def)
  from this [of "[''get'', ''put'', ''post'', ''delete'', ''options'', ''head'', ''patch'', ''trace'']"]
  show ?thesis using YMap by (simp only: visit_path_item_def yaml.case list.set yaml.inject ex_simps simp_thms)
qed (simp_all add: visit_path_item_def)

lemma visit_schemas_values: "seen (visit_schemas r) = below (document_roots r)"
proof (cases r)
  case (YMap m)
  have comps: "seen (case yget comps ''schemas'' of
      Some (YMap schemas) \<Rightarrow> visit_entries walk_schema [''components'', ''schemas''] schemas | _ \<Rightarrow> [])
    = below {s. \<exists>schemas. yget comps ''schemas'' = Some (YMap schemas) \<and> s \<in> {s. \<exists>k v. (k, v) \<in> set schemas \<and> s \<in> {v}}}"
    for comps by (rule optional_map_values [OF visit_entries_values [OF walk_schema_below]])
  have "seen (visit_schemas r) =
      below {s. \<exists>comps. yget m ''components'' = Some (YMap comps) \<and> s \<in> {s. \<exists>schemas. yget comps ''schemas'' = Some (YMap schemas)
        \<and> s \<in> {s. \<exists>k v. (k, v) \<in> set schemas \<and> s \<in> {v}}}}
      \<union> below {s. \<exists>paths. yget m ''paths'' = Some (YMap paths) \<and> s \<in> {s. \<exists>k v. (k, v) \<in> set paths \<and> s \<in>
          {s. \<exists>im meth op. v = YMap im
            \<and> meth \<in> {''get'', ''put'', ''post'', ''delete'', ''options'', ''head'', ''patch'', ''trace''}
            \<and> yget im meth = Some op \<and> s \<in> operation_roots op}}}"
    unfolding YMap visit_schemas_def yaml.case seen_simps(2) optional_map_values [OF comps]
      optional_map_values [OF visit_entries_values [OF visit_path_item_values]] ..
  also have "\<dots> = below (document_roots r)"
    unfolding below_Un [symmetric] document_roots_def YMap mem_Collect_eq yaml.inject singleton_iff
    by (rule arg_cong [of _ _ below], rule arg_cong2 [of _ _ _ _ "(\<union>)"]; rule Collect_cong; metis)
  finally show ?thesis .
qed (simp_all add: visit_schemas_def document_roots_def)

lemma validate_schema_type_None_iff:
  "validate_schema_type pointer schema = None \<longleftrightarrow>
     (\<forall>m t. schema = YMap m \<longrightarrow> yget m ''type'' = Some t \<longrightarrow> set (type_names t) \<subseteq> set allowed_types)"
  by (cases schema)
     (auto simp: validate_schema_type_def find_None_iff split: Option.bind_split)

lemma check_types_None_iff:
  "check_invalid_schema_types r = None \<longleftrightarrow>
     (\<forall>m t. YMap m \<in> below (document_roots r) \<longrightarrow> yget m ''type'' = Some t \<longrightarrow> set (type_names t) \<subseteq> set allowed_types)"
proof -
  have "check_invalid_schema_types r = None \<longleftrightarrow>
      (\<forall>(p, s) \<in> set (visit_schemas r). validate_schema_type p s = None)"
    by (simp add: check_invalid_schema_types_def find_map_None_iff case_prod_beta)
  also have "\<dots> \<longleftrightarrow> (\<forall>s \<in> seen (visit_schemas r).
      \<forall>m t. s = YMap m \<longrightarrow> yget m ''type'' = Some t \<longrightarrow> set (type_names t) \<subseteq> set allowed_types)"
    unfolding seen_def validate_schema_type_None_iff by (simp add: case_prod_beta)
  finally show ?thesis unfolding visit_schemas_values by blast
qed

section \<open>Loading\<close>

lemma parse_normalised_accepts:
  "parse_normalised le normalised = Inr spec \<longleftrightarrow>
     (\<exists>r. le_openapi le normalised = Inr spec \<and> le_yaml le normalised = Inr r \<and> check_dangling_refs r = None
        \<and> check_duplicate_operation_ids spec = None \<and> check_invalid_schema_types r = None)"
  by (auto simp: parse_normalised_def validate_spec_semantics_def split: sum.splits option.splits)

lemma read_content_size: "read_content le src = Inr content \<Longrightarrow> length content \<le> MAX_SPEC_BYTES"
  by (auto simp: read_content_def split: if_splits option.splits sum.splits)

lemma version_accepted:
  "reject_unsupported_openapi_version le content = None \<longleftrightarrow>
     (case top_level_string le content ''openapi'' of
        None \<Rightarrow> True
      | Some v \<Rightarrow> (case le_regex le version_pattern of Some re \<Rightarrow> re v | None \<Rightarrow> False))"
  by (auto simp: reject_unsupported_openapi_version_def split: option.splits)

lemma swagger_accepted: "reject_swagger_two le content = None \<longleftrightarrow> top_level_string le content ''swagger'' \<noteq> Some ''2.0''"
  by (simp add: reject_swagger_two_def)

lemma load_spec_iff:
  "load_spec le n src = Done (Inr spec) \<longleftrightarrow>
    (\<exists>content normalised r. read_content le src = Inr content \<and> length content \<le> MAX_SPEC_BYTES
      \<and> (case top_level_string le content ''openapi'' of
           None \<Rightarrow> True
         | Some v \<Rightarrow> (case le_regex le version_pattern of Some re \<Rightarrow> re v | None \<Rightarrow> False))
      \<and> top_level_string le content ''swagger'' \<noteq> Some ''2.0''
      \<and> normalize_oas31_nullable le n content = Done (Inr normalised)
      \<and> le_yaml le normalised = Inr r \<and> le_openapi le normalised = Inr spec
      \<and> (\<forall>target. has_ref r target \<longrightarrow> \<not> dangling r target)
      \<and> distinct (map fst (declared_ids spec))
      \<and> (\<forall>m t. YMap m \<in> below (document_roots r) \<longrightarrow> yget m ''type'' = Some t
           \<longrightarrow> set (type_names t) \<subseteq> set allowed_types))"
  (is "?l \<longleftrightarrow> ?r")
proof
  assume ?l
  then obtain content where c: "read_content le src = Inr content"
    and v: "reject_unsupported_openapi_version le content = None" and w: "reject_swagger_two le content = None"
    and n: "run_map (\<lambda>r. case r of Inl e \<Rightarrow> Inl e | Inr normalised \<Rightarrow> parse_normalised le normalised)
      (normalize_oas31_nullable le n content) = Done (Inr spec)"
    by (auto simp: load_spec_def split: sum.splits option.splits)
  obtain x where x: "normalize_oas31_nullable le n content = Done x"
    "Inr spec = (case x of Inl e \<Rightarrow> Inl e | Inr normalised \<Rightarrow> parse_normalised le normalised)"
    using n unfolding run_map_Done_iff by blast
  then obtain normalised where nn: "normalize_oas31_nullable le n content = Done (Inr normalised)"
    and p: "parse_normalised le normalised = Inr spec"
    by (cases x) simp_all
  from p obtain r where "le_openapi le normalised = Inr spec" "le_yaml le normalised = Inr r"
    "check_dangling_refs r = None" "check_duplicate_operation_ids spec = None" "check_invalid_schema_types r = None"
    unfolding parse_normalised_accepts by blast
  with c nn v w read_content_size [OF c] show ?r
    unfolding check_dangling_None_iff check_duplicates_None_iff check_types_None_iff version_accepted swagger_accepted
    by blast
next
  assume ?r
  then obtain content normalised r where c: "read_content le src = Inr content"
    and v: "reject_unsupported_openapi_version le content = None" and w: "reject_swagger_two le content = None"
    and nn: "normalize_oas31_nullable le n content = Done (Inr normalised)"
    and p: "le_openapi le normalised = Inr spec" "le_yaml le normalised = Inr r" "check_dangling_refs r = None"
      "check_duplicate_operation_ids spec = None" "check_invalid_schema_types r = None"
    unfolding check_dangling_None_iff [symmetric] check_duplicates_None_iff [symmetric]
      check_types_None_iff [symmetric] version_accepted [symmetric] swagger_accepted [symmetric]
    by blast
  have "parse_normalised le normalised = Inr spec" unfolding parse_normalised_accepts using p by blast
  then show ?l using c v w nn by (simp add: load_spec_def)
qed


definition demo_tree :: yaml where
  "demo_tree = YMap [(YStr ''openapi'', YStr ''3.0.3''),
     (YStr ''components'', YMap [(YStr ''schemas'', YMap [(YStr ''Pet'', YMap [(YStr ''type'', YStr ''object'')])])])]"

definition demo_le :: loader_env where
  "demo_le = \<lparr>le_yaml = (\<lambda>_. Inr demo_tree), le_yaml_to_json = (\<lambda>_. Inr ''{}''),
     le_yaml_value_to_json = (\<lambda>_. Inr JNull), le_json = (\<lambda>_. Inr JNull), le_openapi = (\<lambda>_. Inr demo_spec),
     le_openapi_value = (\<lambda>_. Inr demo_spec), le_regex = (\<lambda>_. Some (\<lambda>v. v = ''3.0.3'')),
     le_replace_all = (\<lambda>_ _ s. s), le_file_len = (\<lambda>_. None), le_read_file = (\<lambda>_. Inl ''not found'')\<rparr>"


section \<open>Integer bounds in the text\<close>

lemma show_nat_head_digit: "\<exists>c r. show_nat n = c # r \<and> c \<noteq> CHR ''-''"
proof -
  obtain c r where c: "show_nat n = c # r" by (cases "show_nat n") simp_all
  then have "c \<noteq> CHR ''-''" using show_nat_digits [of c n] by (auto simp: byte_def)
  with c show ?thesis by blast
qed

lemma parse_i128_show_wide:
  assumes "i < - (2 ^ 127) \<or> 2 ^ 127 - 1 < i"
  shows "parse_i128 (show_int i) = None"
proof (cases "i < 0")
  case True
  then have "\<not> nat (- i) \<le> 2 ^ 127" using assms by (simp add: nat_le_iff)
  with True show ?thesis by (simp add: parse_i128_def show_int_def digits_val_show_nat)
next
  case False
  then have "\<not> nat i \<le> 2 ^ 127 - 1" using assms by (simp add: nat_le_iff)
  then have "parse_unsigned (2 ^ 127 - 1) (show_nat (nat i)) = None"
    by (simp add: parse_unsigned_def digits_val_show_nat)
  moreover obtain c r where "show_nat (nat i) = c # r" "c \<noteq> CHR ''-''" using show_nat_head_digit by blast
  ultimately show ?thesis using False by (simp add: parse_i128_def show_int_def)
qed

text \<open>
  an integer bound in the text, of whatever length, comes out as the nearest integer of 64 bits.
\<close>

theorem clamp_saturates:
  "clamp_literal (show_int i) = show_int (max i64_min (min i64_max i))"
proof (cases "- (2 ^ 127) \<le> i \<and> i \<le> 2 ^ 127 - 1")
  case True
  then have "parse_i128 (show_int i) = Some i" using parse_i128_show_int by blast
  then show ?thesis by (auto simp: clamp_literal_def max_def min_def i64_min_def i64_max_def)
next
  case False
  then have "i < - (2 ^ 127) \<or> 2 ^ 127 - 1 < i" by linarith
  then have "parse_i128 (show_int i) = None" by (rule parse_i128_show_wide)
  moreover have "starts_with (show_int i) ''-'' \<longleftrightarrow> i < 0"
    using show_nat_head_digit [of "nat i"] by (auto simp: show_int_def starts_with_def)
  ultimately show ?thesis using False by (auto simp: clamp_literal_def i64_min_def i64_max_def max_def min_def)
qed

end
