(* ===== verification/RemoteFacts.thy ===== *)
theory RemoteFacts
  imports RemoteRefs LoaderFacts
begin

text \<open>Properties of the remote references: the guard, the capped read, what is sent and what is inlined.\<close>

section \<open>Address blocks\<close>

text \<open>The first and the last address of each block the guard refuses.\<close>

definition v4_blocks :: "(nat \<times> nat) list" where
  "v4_blocks =
     [(0, 0), (0x0A000000, 0x0AFFFFFF), (0x7F000000, 0x7FFFFFFF), (0xA9FE0000, 0xA9FEFFFF),
      (0xAC100000, 0xAC1FFFFF), (0xC0A80000, 0xC0A8FFFF), (0xE0000000, 0xEFFFFFFF), (0xFFFFFFFF, 0xFFFFFFFF)]"

definition v6_blocks :: "(nat \<times> nat) list" where
  "v6_blocks =
     [(0, 1), (0xFC000000000000000000000000000000, 0xFDFFFFFFFFFFFFFFFFFFFFFFFFFFFFFF),
      (0xFE800000000000000000000000000000, 0xFEBFFFFFFFFFFFFFFFFFFFFFFFFFFFFF),
      (0xFF000000000000000000000000000000, 0xFFFFFFFFFFFFFFFFFFFFFFFFFFFFFFFF)]"

definition in_blocks :: "(nat \<times> nat) list \<Rightarrow> nat \<Rightarrow> bool" where
  "in_blocks blocks n = list_ex (\<lambda>(lo, hi). lo \<le> n \<and> n \<le> hi) blocks"

definition internal_address :: "ip_addr \<Rightarrow> bool" where
  "internal_address ip \<longleftrightarrow>
     (case ip of
        V4 a \<Rightarrow> in_blocks v4_blocks (unat a)
      | V6 a \<Rightarrow> in_blocks v6_blocks (unat a)
          \<or> unat a div 2 ^ 32 = 0xFFFF \<and> in_blocks v4_blocks (unat a mod 2 ^ 32))"

lemma div_interval: "0 < d \<Longrightarrow> n div d = c \<longleftrightarrow> c * d \<le> n \<and> n < (c + 1) * (d :: nat)"
  by (metis Suc_eq_plus1 div_less_iff_less_mult le_antisym less_Suc_eq_le less_eq_div_iff_mult_less_eq order_refl)

lemma unat_drop_bit: "unat (drop_bit k a) = unat (a :: 'a::len word) div 2 ^ k"
proof -
  have "take_bit LENGTH('a) (unat a) = unat a" for a :: "'a::len word"
    using unsigned_less [of a, where ?'a = nat] by (simp add: take_bit_nat_eq_self_iff)
  then show ?thesis by (simp add: unsigned_drop_bit_eq drop_bit_eq_div [of _ "_ :: nat"])
qed

lemma octets:
  assumes "unat a = n"
  shows "octet 0 a = n div 65536 div 256" and "octet 1 a = n div 65536 mod 256"
proof -
  have "n < 4294967296" using assms unsigned_less [of a, where ?'a = nat] by simp
  then have "n div 16777216 < 256" by (simp add: div_less_iff_less_mult)
  moreover have "n div 65536 div 256 = n div 16777216" by (simp add: div_mult2_eq [symmetric])
  ultimately show "octet 0 a = n div 65536 div 256" "octet 1 a = n div 65536 mod 256"
    using assms by (simp_all add: octet_def unat_drop_bit)
qed

lemma octet_range:
  fixes q :: nat
  shows "q div 256 = 127 \<longleftrightarrow> 32512 \<le> q \<and> q \<le> 32767" and "q div 256 = 10 \<longleftrightarrow> 2560 \<le> q \<and> q \<le> 2815"
    and "q div 256 = 172 \<and> 16 \<le> q mod 256 \<and> q mod 256 \<le> 31 \<longleftrightarrow> 44048 \<le> q \<and> q \<le> 44063"
    and "q div 256 = 192 \<and> q mod 256 = 168 \<longleftrightarrow> 49320 \<le> q \<and> q \<le> 49320"
    and "q div 256 = 169 \<and> q mod 256 = 254 \<longleftrightarrow> 43518 \<le> q \<and> q \<le> 43518"
    and "224 \<le> q div 256 \<and> q div 256 \<le> 239 \<longleftrightarrow> 57344 \<le> q \<and> q \<le> 61439"
proof -
  have range: "q div 256 = c \<and> lo \<le> q mod 256 \<and> q mod 256 \<le> hi \<longleftrightarrow> 256 * c + lo \<le> q \<and> q \<le> 256 * c + hi"
    if "hi < 256" for c lo hi
  proof -
    define d m where "d = q div 256" and "m = q mod 256"
    have q: "q = 256 * d + m" and "m < 256" by (simp_all add: d_def m_def)
    then have "d = c" if "256 * c + lo \<le> 256 * d + m" "256 * d + m \<le> 256 * c + hi"
      using that \<open>hi < 256\<close> by linarith
    moreover have "q div 256 = d" "q mod 256 = m" by (simp_all add: d_def m_def)
    ultimately show ?thesis using q by auto
  qed
  show "q div 256 = 127 \<longleftrightarrow> 32512 \<le> q \<and> q \<le> 32767" "q div 256 = 10 \<longleftrightarrow> 2560 \<le> q \<and> q \<le> 2815"
    using range [of 255 127 0] range [of 255 10 0] mod_less_divisor [of 256 q] by auto
  show "q div 256 = 172 \<and> 16 \<le> q mod 256 \<and> q mod 256 \<le> 31 \<longleftrightarrow> 44048 \<le> q \<and> q \<le> 44063"
    using range [of 31 172 16] by simp
  show "q div 256 = 192 \<and> q mod 256 = 168 \<longleftrightarrow> 49320 \<le> q \<and> q \<le> 49320"
    "q div 256 = 169 \<and> q mod 256 = 254 \<longleftrightarrow> 43518 \<le> q \<and> q \<le> 43518"
    using range [of 168 192 168] range [of 254 169 254] by auto
  show "224 \<le> q div 256 \<and> q div 256 \<le> 239 \<longleftrightarrow> 57344 \<le> q \<and> q \<le> 61439"
    using less_eq_div_iff_mult_less_eq [of 256 224 q] div_less_iff_less_mult [of 256 q 240] by auto
qed

lemma unsafe_v4_blocks: "is_unsafe_ipv4 a \<longleftrightarrow> in_blocks v4_blocks (unat a)"
proof -
  define n where "n = unat a"
  define q where "q = n div 65536"
  have n: "n < 4294967296" using unsigned_less [of a, where ?'a = nat] by (simp add: n_def)
  have q: "(lo * 65536 \<le> n) = (lo \<le> q)" "(n \<le> hi * 65536 + 65535) = (q \<le> hi)" for lo hi
    using less_eq_div_iff_mult_less_eq [of 65536 lo n] div_less_iff_less_mult [of 65536 n "hi + 1"]
    unfolding q_def by (auto simp: less_Suc_eq_le)
  have o: "octet 0 a = q div 256" "octet 1 a = q mod 256" using octets [OF n_def [symmetric]] by (simp_all add: q_def)
  have z: "a = 0 \<longleftrightarrow> n = 0" by (simp add: n_def unsigned_eq_0_iff)
  have b: "a = 0xFFFFFFFF \<longleftrightarrow> n = 4294967295"
  proof -
    have "unat (0xFFFFFFFF :: 32 word) = 4294967295" by simp
    then show ?thesis unfolding n_def by (metis unsigned_word_eqI)
  qed
  have p: "q div 256 = 127 \<longleftrightarrow> 32512 \<le> q \<and> q \<le> 32767" "q div 256 = 10 \<longleftrightarrow> 2560 \<le> q \<and> q \<le> 2815"
    "q div 256 = 172 \<and> 16 \<le> q mod 256 \<and> q mod 256 \<le> 31 \<longleftrightarrow> 44048 \<le> q \<and> q \<le> 44063"
    "q div 256 = 192 \<and> q mod 256 = 168 \<longleftrightarrow> 49320 \<le> q \<and> q \<le> 49320"
    "q div 256 = 169 \<and> q mod 256 = 254 \<longleftrightarrow> 43518 \<le> q \<and> q \<le> 43518"
    "224 \<le> q div 256 \<and> q div 256 \<le> 239 \<longleftrightarrow> 57344 \<le> q \<and> q \<le> 61439"
    using octet_range [of q] by blast+
  have "is_unsafe_ipv4 a \<longleftrightarrow> q div 256 = 127 \<or> (q div 256 = 10 \<or> q div 256 = 172 \<and> 16 \<le> q mod 256 \<and> q mod 256 \<le> 31
      \<or> q div 256 = 192 \<and> q mod 256 = 168) \<or> q div 256 = 169 \<and> q mod 256 = 254 \<or> n = 4294967295
      \<or> 224 \<le> q div 256 \<and> q div 256 \<le> 239 \<or> n = 0"
    by (simp add: is_unsafe_ipv4_def v4_is_loopback_def v4_is_private_def v4_is_link_local_def v4_is_broadcast_def
        v4_is_multicast_def v4_is_unspecified_def o o [unfolded One_nat_def] z b)
  also have "\<dots> \<longleftrightarrow> (32512 \<le> q \<and> q \<le> 32767) \<or> (2560 \<le> q \<and> q \<le> 2815) \<or> (44048 \<le> q \<and> q \<le> 44063)
      \<or> (49320 \<le> q \<and> q \<le> 49320) \<or> (43518 \<le> q \<and> q \<le> 43518) \<or> n = 4294967295 \<or> (57344 \<le> q \<and> q \<le> 61439) \<or> n = 0"
    unfolding p by blast
  also have "\<dots> \<longleftrightarrow> in_blocks v4_blocks n"
  proof -
    have "4294967295 \<le> n \<longleftrightarrow> n = 4294967295" using n by linarith
    then show ?thesis unfolding q [symmetric] in_blocks_def v4_blocks_def by simp blast
  qed
  finally show ?thesis by (simp add: n_def)
qed

lemma unsafe_ip_internal: "is_unsafe_ip ip \<longleftrightarrow> internal_address ip"
proof (cases ip)
  case (V4 a)
  have "is_unsafe_ip ip \<longleftrightarrow> is_unsafe_ipv4 a"
    by (auto simp: V4 is_unsafe_ip_def is_unsafe_ipv4_def)
  then show ?thesis by (simp add: V4 internal_address_def unsafe_v4_blocks)
next
  case (V6 a)
  define n where "n = unat a"
  have n: "n < 2 ^ 128" using unsigned_less [of a, where ?'a = nat] by (simp add: n_def)
  have s: "segment0 a = n div 2 ^ 112"
    by (simp add: segment0_def n_def unat_drop_bit)
  have z: "a = 0 \<longleftrightarrow> n = 0" by (simp add: n_def unsigned_eq_0_iff)
  have one: "a = 1 \<longleftrightarrow> n = 1" unfolding n_def by (metis unsigned_1 unsigned_word_eqI)
  have multi: "segment0 a div 256 = 255 \<longleftrightarrow> 255 * 2 ^ 120 \<le> n \<and> n < 256 * 2 ^ 120"
    unfolding s by (simp add: div_mult2_eq [symmetric] div_interval)
  have local: "segment0 a div 64 * 64 = 0xfe80 \<longleftrightarrow> 0x3fa * 2 ^ 118 \<le> n \<and> n < 0x3fb * 2 ^ 118"
    unfolding s by (simp add: div_mult2_eq [symmetric] div_interval)
  have unique: "segment0 a div 256 = 252 \<or> segment0 a div 256 = 253 \<longleftrightarrow> 252 * 2 ^ 120 \<le> n \<and> n < 254 * 2 ^ 120"
    unfolding s by (simp add: div_mult2_eq [symmetric] div_interval) linarith
  have mapped: "(case to_ipv4_mapped a of Some m \<Rightarrow> is_unsafe_ipv4 m | None \<Rightarrow> False) \<longleftrightarrow>
      n div 2 ^ 32 = 0xFFFF \<and> in_blocks v4_blocks (n mod 2 ^ 32)"
  proof -
    have "drop_bit 32 a = 0xFFFF \<longleftrightarrow> unat (drop_bit 32 a) = 0xFFFF"
    proof -
      have "unat (0xFFFF :: 128 word) = 0xFFFF" by simp
      then show ?thesis by (metis unsigned_word_eqI)
    qed
    then show ?thesis
      by (simp add: to_ipv4_mapped_def unsafe_v4_blocks n_def unat_drop_bit
          unsigned_ucast_eq take_bit_eq_mod [of _ "_ :: nat"])
  qed
  have "in_blocks v6_blocks n \<longleftrightarrow> n = 0 \<or> n = 1 \<or> (252 * 2 ^ 120 \<le> n \<and> n < 254 * 2 ^ 120)
      \<or> (0x3fa * 2 ^ 118 \<le> n \<and> n < 0x3fb * 2 ^ 118) \<or> (255 * 2 ^ 120 \<le> n \<and> n < 256 * 2 ^ 120)"
    unfolding in_blocks_def v6_blocks_def by simp linarith
  then show ?thesis
    unfolding V6 is_unsafe_ip_def internal_address_def ip_addr.case z one multi mapped n_def [symmetric]
      is_ipv6_link_local_def local is_ipv6_unique_local_def Let_def unique
    by blast
qed

text \<open>
  C25: the guard refuses exactly the addresses of the loopback, private, link-local, multicast, broadcast and
  unspecified blocks of both families, and the mapped addresses of those of version 4.
\<close>

theorem unsafe_ip_blocks: "is_unsafe_ip ip \<longleftrightarrow> internal_address ip"
  by (rule unsafe_ip_internal)

section \<open>The capped read\<close>

text \<open>The bytes up to the end of the stream or its first error, and what ends it.\<close>

fun received :: "read_result list \<Rightarrow> string" where
  "received [] = []"
| "received (R_Bytes chunk # rs) = (if chunk = [] then [] else chunk @ received rs)"
| "received (R_Interrupted # rs) = received rs"
| "received (R_Error e # rs) = []"

fun stream_error :: "read_result list \<Rightarrow> string option" where
  "stream_error [] = None"
| "stream_error (R_Bytes chunk # rs) = (if chunk = [] then None else stream_error rs)"
| "stream_error (R_Interrupted # rs) = stream_error rs"
| "stream_error (R_Error e # rs) = Some e"

lemma read_capped_from:
  "length buffer \<le> cap \<Longrightarrow> read_capped rs cap buffer =
     (if cap < length (buffer @ received rs) then Inl ExceedsCap
      else case stream_error rs of Some e \<Rightarrow> Inl (ReadIo e) | None \<Rightarrow> Inr (buffer @ received rs))"
  by (induction rs cap buffer rule: read_capped.induct) (simp_all split: read_result.split option.split)

text \<open>
  the capped read does not depend on how the stream is cut into chunks or interrupted: it fails as
  too large exactly when more than the permitted bytes arrive before the stream ends or breaks, and gives all
  of them when it ends.
\<close>

theorem read_capped_chunking:
  "read_capped rs cap [] =
     (if cap < length (received rs) then Inl ExceedsCap
      else case stream_error rs of Some e \<Rightarrow> Inl (ReadIo e) | None \<Rightarrow> Inr (received rs))"
  using read_capped_from [of "[]" cap rs] by (simp split: option.split)

section \<open>What is sent\<close>

lemma validate_accepts:
  "validate_remote_url nw raw = None \<longleftrightarrow>
     (\<exists>u host addrs. nw_url nw raw = Some u \<and> pu_scheme u \<in> {''http'', ''https''} \<and> pu_host u = Some host
        \<and> nw_resolve nw host (unwrap_or (pu_port u) (if pu_scheme u = ''https'' then 443 else 80)) = Some addrs
        \<and> addrs \<noteq> [] \<and> list_all (\<lambda>a. \<not> is_unsafe_ip a) addrs)"
  by (auto simp: validate_remote_url_def Let_def list_ex_iff list_all_iff split: option.splits)

text \<open>
  The state of the fetches: every request went to a remote URL that passed the guard; what is cached was
  sent, came in a body of at most the permitted size, and is at most the permitted number of documents.
\<close>

definition fetch_ok :: "loader_env \<Rightarrow> network \<Rightarrow> fetch_state \<Rightarrow> bool" where
  "fetch_ok le nw st \<longleftrightarrow>
     list_all (\<lambda>url. is_remote_ref url \<and> validate_remote_url nw url = None) (fs_sent st)
     \<and> distinct (map fst (fs_cache st)) \<and> length (fs_cache st) \<le> REMOTE_REF_MAX_FETCHES
     \<and> list_all (\<lambda>(url, v). url \<in> set (fs_sent st)
          \<and> (\<exists>body. length body \<le> REMOTE_REF_MAX_BODY_BYTES \<and> parse_remote_ref_body le body = Some v)) (fs_cache st)"

lemma response_body_small:
  "response_body le outcome = Some v \<Longrightarrow>
     \<exists>body. length body \<le> REMOTE_REF_MAX_BODY_BYTES \<and> parse_remote_ref_body le body = Some v"
  by (cases outcome)
     (auto simp: not_less response_body_def read_capped_from from_utf8_def Option.bind_eq_Some_conv
        split: if_splits option.splits)

lemma fetch_cases:
  obtains (hit) v where "map_of (fs_cache st) url = Some v"
      "fetch_remote_ref le nw url st = (Some v, st\<lparr>fs_calls := fs_calls st + 1\<rparr>)"
    | (refused) "map_of (fs_cache st) url = None"
      "fetch_remote_ref le nw url st = (None, st\<lparr>fs_calls := fs_calls st + 1\<rparr>)"
    | (failed) get where "map_of (fs_cache st) url = None" "nw_get nw = Some get" "validate_remote_url nw url = None"
      "response_body le (get (fs_calls st + 1) url) = None"
      "fetch_remote_ref le nw url st = (None, st\<lparr>fs_calls := fs_calls st + 1, fs_sent := fs_sent st @ [url]\<rparr>)"
    | (fetched) get v where "map_of (fs_cache st) url = None" "nw_get nw = Some get" "validate_remote_url nw url = None"
      "length (fs_cache st) < REMOTE_REF_MAX_FETCHES"
      "response_body le (get (fs_calls st + 1) url) = Some v"
      "fetch_remote_ref le nw url st =
        (Some v, st\<lparr>fs_calls := fs_calls st + 1, fs_sent := fs_sent st @ [url], fs_cache := (url, v) # fs_cache st\<rparr>)"
proof (cases "map_of (fs_cache st) url")
  case (Some v)
  then show thesis using hit by (simp add: fetch_remote_ref_def Let_def)
next
  case None
  show thesis
  proof (cases "nw_late nw (fs_calls st + 1) \<or> REMOTE_REF_MAX_FETCHES \<le> length (fs_cache st)
      \<or> validate_remote_url nw url \<noteq> None \<or> nw_get nw = None")
    case True
    then show thesis using None refused by (auto simp: fetch_remote_ref_def Let_def)
  next
    case False
    then obtain get where "nw_get nw = Some get" by auto
    then show thesis
      using None False failed [of get] fetched [of get]
      by (cases "response_body le (get (fs_calls st + 1) url)") (simp_all add: fetch_remote_ref_def Let_def)
  qed
qed

lemma fetch_keeps_ok:
  assumes "fetch_ok le nw st" and "is_remote_ref url"
  shows "fetch_ok le nw (snd (fetch_remote_ref le nw url st))"
proof (cases rule: fetch_cases [of st url le nw])
  case (failed get)
  then show ?thesis using assms by (auto simp: fetch_ok_def list_all_iff)
next
  case (fetched get v)
  have "url \<notin> fst ` set (fs_cache st)" using fetched(1) by (simp add: map_of_eq_None_iff)
  with fetched assms response_body_small [OF fetched(5)] show ?thesis by (auto simp: fetch_ok_def list_all_iff)
qed (use assms in \<open>simp_all add: fetch_ok_def\<close>)

text \<open>What every step of a threaded list keeps, the whole keeps.\<close>

lemma thread_keeps:
  assumes "\<And>x u. x \<in> set xs \<Longrightarrow> P u \<Longrightarrow> P (snd (f x u))" and "P s"
  shows "P (snd (thread f xs s))"
  using assms
proof (induction xs arbitrary: s)
  case (Cons x xs)
  have "P (snd (thread f xs (snd (f x s))))" by (rule Cons.IH) (use Cons.prems in auto)
  then show ?case by (simp add: case_prod_beta Let_def)
qed simp

lemma thread_fst:
  assumes "\<And>x u. x \<in> set xs \<Longrightarrow> P u \<Longrightarrow> P (snd (f x u)) \<and> fst (f x u) = g x" and "P s"
  shows "fst (thread f xs s) = map g xs"
  using assms
proof (induction xs arbitrary: s)
  case (Cons x xs)
  have "fst (thread f xs (snd (f x s))) = map g xs" by (rule Cons.IH) (use Cons.prems in auto)
  then show ?case using Cons.prems by (simp add: case_prod_beta Let_def)
qed simp

lemma remote_target_remote: "remote_target m = Some url \<Longrightarrow> is_remote_ref url"
  by (auto simp: remote_target_def split: option.splits json.splits if_splits)

declare inline_remote_refs.simps [simp del]

lemma inline_obj:
  "snd (inline_remote_refs le nw (JObj m) st) =
     (case remote_target m of
        Some url \<Rightarrow>
          (let r = fetch_remote_ref le nw url st in
           if fst r \<noteq> None then snd r
           else snd (thread (\<lambda>e s. ((fst e, fst (inline_remote_refs le nw (snd e) s)), snd (inline_remote_refs le nw (snd e) s))) m (snd r)))
      | None \<Rightarrow>
          snd (thread (\<lambda>e s. ((fst e, fst (inline_remote_refs le nw (snd e) s)), snd (inline_remote_refs le nw (snd e) s))) m st))"
  by (simp add: inline_remote_refs.simps Let_def case_prod_beta split: option.split)

lemma inline_keeps:
  assumes "\<And>url u. is_remote_ref url \<Longrightarrow> P u \<Longrightarrow> P (snd (fetch_remote_ref le nw url u))"
  shows "P st \<Longrightarrow> P (snd (inline_remote_refs le nw tree st))"
proof (induction tree arbitrary: st)
  case (JObj m)
  have walk: "P (snd (thread (\<lambda>e s. ((fst e, fst (inline_remote_refs le nw (snd e) s)), snd (inline_remote_refs le nw (snd e) s))) m u))"
    if "P u" for u
    by (rule thread_keeps [where P = P]) (use JObj.IH that in auto)
  show ?case
    using JObj.prems walk assms remote_target_remote
    by (auto simp: inline_obj Let_def split: option.split)
next
  case (JArr xs)
  have "P (snd (thread (\<lambda>x s. inline_remote_refs le nw x s) xs st))"
    by (rule thread_keeps [where P = P]) (use JArr in auto)
  then show ?case by (simp add: inline_remote_refs.simps case_prod_beta)
qed (simp_all add: inline_remote_refs.simps)

definition fetch_start :: fetch_state where
  "fetch_start = \<lparr>fs_cache = [], fs_calls = 0, fs_sent = []\<rparr>"

text \<open>
  C7: whatever a document refers to, a request is only sent to an http(s) URL whose host resolves to addresses
  all outside the internal blocks; at most 64 bodies are kept, each from a distinct URL that was sent, each
  parsed from at most one mebibyte.
\<close>

theorem remote_requests_guarded:
  "let st = snd (inline_remote_refs le nw tree fetch_start) in
     (\<forall>url \<in> set (fs_sent st). is_remote_ref url \<and>
        (\<exists>u host addrs. nw_url nw url = Some u \<and> pu_scheme u \<in> {''http'', ''https''} \<and> pu_host u = Some host
          \<and> nw_resolve nw host (unwrap_or (pu_port u) (if pu_scheme u = ''https'' then 443 else 80)) = Some addrs
          \<and> addrs \<noteq> [] \<and> list_all (\<lambda>a. \<not> internal_address a) addrs))
     \<and> length (fs_cache st) \<le> 64 \<and> distinct (map fst (fs_cache st))
     \<and> (\<forall>(url, v) \<in> set (fs_cache st). url \<in> set (fs_sent st)
          \<and> (\<exists>body. length body \<le> 1048576 \<and> parse_remote_ref_body le body = Some v))"
proof -
  have "fetch_ok le nw fetch_start" by (simp add: fetch_ok_def fetch_start_def)
  then have "fetch_ok le nw (snd (inline_remote_refs le nw tree fetch_start))"
    by (rule inline_keeps [rotated]) (rule fetch_keeps_ok)
  then show ?thesis
    unfolding fetch_ok_def validate_accepts
    by (simp add: Let_def list_all_iff unsafe_ip_internal REMOTE_REF_MAX_FETCHES_def REMOTE_REF_MAX_BODY_BYTES_def)
qed

section \<open>What is inlined\<close>

lemma inline_obj_tree:
  "fst (inline_remote_refs le nw (JObj m) st) =
     (let r = (case remote_target m of Some url \<Rightarrow> fetch_remote_ref le nw url st | None \<Rightarrow> (None, st))
      in case fst r of
           Some v \<Rightarrow> v
         | None \<Rightarrow> JObj (fst (thread (\<lambda>e s. ((fst e, fst (inline_remote_refs le nw (snd e) s)), snd (inline_remote_refs le nw (snd e) s))) m (snd r))))"
  by (simp add: inline_remote_refs.simps Let_def case_prod_beta split: option.split)

text \<open>
  when every request that would be sent fails, the document stays as it is, its remote references
  included.
\<close>

theorem unreachable_references_stay:
  assumes "\<And>url t get. nw_get nw = Some get \<Longrightarrow> validate_remote_url nw url = None \<Longrightarrow> response_body le (get t url) = None"
  shows "fst (inline_remote_refs le nw tree fetch_start) = tree"
proof -
  have none: "fs_cache u = [] \<Longrightarrow> fst (fetch_remote_ref le nw url u) = None \<and> fs_cache (snd (fetch_remote_ref le nw url u)) = []"
    for url u
    by (cases rule: fetch_cases [of u url le nw]) (simp_all add: assms)
  have keep: "fs_cache u = [] \<Longrightarrow> fs_cache (snd (inline_remote_refs le nw v u)) = []" for u v
    by (rule inline_keeps [where P = "\<lambda>u. fs_cache u = []"]) (use none in auto)
  have "fs_cache st = [] \<Longrightarrow> fst (inline_remote_refs le nw tree st) = tree" for st
  proof (induction tree arbitrary: st)
    case (JObj m)
    have walk: "fst (thread (\<lambda>e s. ((fst e, fst (inline_remote_refs le nw (snd e) s)), snd (inline_remote_refs le nw (snd e) s))) m u) = m"
      if "fs_cache u = []" for u
    proof -
      have "fst (thread (\<lambda>e s. ((fst e, fst (inline_remote_refs le nw (snd e) s)), snd (inline_remote_refs le nw (snd e) s))) m u)
        = map (\<lambda>e. e) m"
        by (rule thread_fst [where P = "\<lambda>u. fs_cache u = []"]) (use JObj.IH keep that in \<open>auto simp: prod_eq_iff\<close>)
      then show ?thesis by simp
    qed
    show ?case
      using JObj.prems none walk by (auto simp: inline_obj_tree Let_def split: option.split)
  next
    case (JArr xs)
    have "fst (thread (\<lambda>x s. inline_remote_refs le nw x s) xs st) = map (\<lambda>x. x) xs"
      by (rule thread_fst [where P = "\<lambda>u. fs_cache u = []"]) (use JArr keep in auto)
    then show ?case by (simp add: inline_remote_refs.simps case_prod_beta)
  qed (simp_all add: inline_remote_refs.simps)
  then show ?thesis by (simp add: fetch_start_def)
qed

definition ref_node :: "string \<Rightarrow> json" where
  "ref_node url = JObj [(''$ref'', JStr url)]"

text \<open>
  a URL that fails is not remembered: every reference to it is a request of its own, beyond the limit of
  64, which only counts the URLs that answered.
\<close>

theorem failing_url_refetched:
  assumes "is_remote_ref url" and "validate_remote_url nw url = None" and "nw_get nw = Some get"
    and "\<And>t. response_body le (get t url) = None" and "\<And>t. \<not> nw_late nw t"
  shows "fs_sent (snd (inline_remote_refs le nw (JArr (replicate k (ref_node url))) fetch_start)) = replicate k url"
proof -
  let ?after = "\<lambda>st. st\<lparr>fs_calls := fs_calls st + 1, fs_sent := fs_sent st @ [url]\<rparr>"
  have fetch: "fetch_remote_ref le nw url st = (None, ?after st)" if "fs_cache st = []" for st
    using that assms by (simp add: fetch_remote_ref_def Let_def REMOTE_REF_MAX_FETCHES_def)
  have step: "inline_remote_refs le nw (ref_node url) st = (ref_node url, ?after st)" if "fs_cache st = []" for st
    using assms(1) fetch [OF that]
    by (simp add: inline_remote_refs.simps ref_node_def remote_target_def)
  have "fs_sent (snd (thread (\<lambda>x s. inline_remote_refs le nw x s) (replicate k (ref_node url)) st)) = fs_sent st @ replicate k url"
    if "fs_cache st = []" for st
    using that
  proof (induction k arbitrary: st)
    case (Suc k)
    then show ?case using Suc.IH [of "?after st"] step [of st] by (simp add: case_prod_beta Let_def)
  qed simp
  then show ?thesis by (simp add: inline_remote_refs.simps case_prod_beta fetch_start_def)
qed

definition demo_nw :: network where
  "demo_nw = \<lparr>nw_url = (\<lambda>_. Some \<lparr>pu_scheme = ''https'', pu_host = Some ''example.org'', pu_port = None\<rparr>),
     nw_resolve = (\<lambda>_ _. Some [V4 0x5DB8D822]), nw_get = Some (\<lambda>_ _. Http_Response 404 None []),
     nw_late = (\<lambda>_. False)\<rparr>"

lemma demo_nw_accepts: "validate_remote_url demo_nw url = None"
  unfolding validate_accepts
  by (simp add: demo_nw_def unsafe_ip_internal internal_address_def in_blocks_def v4_blocks_def)

lemma demo_sends:
  "fs_sent (snd (inline_remote_refs demo_le demo_nw (ref_node ''https://example.org/a'') fetch_start)) = [''https://example.org/a'']"
proof -
  have "is_remote_ref ''https://example.org/a''" by (simp add: is_remote_ref_def starts_with_def)
  moreover have "nw_get demo_nw = Some (\<lambda>_ _. Http_Response 404 None [])" by (simp add: demo_nw_def)
  moreover have "\<not> nw_late demo_nw t" for t by (simp add: demo_nw_def)
  ultimately show ?thesis
    using demo_nw_accepts
    by (simp add: inline_remote_refs.simps ref_node_def remote_target_def fetch_remote_ref_def Let_def
        fetch_start_def REMOTE_REF_MAX_FETCHES_def response_body_def)
qed

theorem remote_requests_guarded_witness:
  "length (fs_cache (snd (inline_remote_refs demo_le demo_nw (ref_node ''https://example.org/a'') fetch_start))) \<le> 64
   \<and> (\<exists>u host addrs. nw_url demo_nw ''https://example.org/a'' = Some u \<and> pu_host u = Some host
        \<and> nw_resolve demo_nw host (unwrap_or (pu_port u) (if pu_scheme u = ''https'' then 443 else 80)) = Some addrs
        \<and> list_all (\<lambda>a. \<not> internal_address a) addrs)"
proof -
  let ?url = "''https://example.org/a''"
  let ?st = "snd (inline_remote_refs demo_le demo_nw (ref_node ?url) fetch_start)"
  note guarded = remote_requests_guarded [of demo_le demo_nw "ref_node ?url", unfolded Let_def]
  have sent: "?url \<in> set (fs_sent ?st)" by (simp only: demo_sends list.set insert_iff simp_thms)
  have bound: "length (fs_cache ?st) \<le> 64" by (rule guarded [THEN conjunct2, THEN conjunct1])
  from bspec [OF guarded [THEN conjunct1] sent] obtain u host addrs where
    "nw_url demo_nw ?url = Some u" "pu_host u = Some host"
    "nw_resolve demo_nw host (unwrap_or (pu_port u) (if pu_scheme u = ''https'' then 443 else 80)) = Some addrs"
    "list_all (\<lambda>a. \<not> internal_address a) addrs"
    by (elim exE conjE)
  with bound show ?thesis by (intro conjI exI)
qed

theorem failing_url_refetched_witness:
  "fs_sent (snd (inline_remote_refs demo_le demo_nw (JArr (replicate 100 (ref_node ''https://example.org/a''))) fetch_start))
     = replicate 100 ''https://example.org/a''"
proof (rule failing_url_refetched [OF _ demo_nw_accepts])
  show "nw_get demo_nw = Some (\<lambda>_ _. Http_Response 404 None [])" by (simp add: demo_nw_def)
qed (simp_all add: is_remote_ref_def starts_with_def response_body_def demo_nw_def)

theorem unreachable_references_stay_witness:
  "fst (inline_remote_refs demo_le demo_nw (ref_node ''https://example.org/a'') fetch_start) = ref_node ''https://example.org/a''"
  by (rule unreachable_references_stay) (auto simp: demo_nw_def response_body_def)

section \<open>The two loaders\<close>

text \<open>
  the loader with remote references makes none of the checks of the plain loader: without remote
  references that can be fetched, its result is what the document parser says of the tree, also for a
  document whose operations share an identifier, which the plain loader never accepts.
\<close>

theorem remote_loader_unchecked:
  assumes "read_content le src = Inr content" and "starts_with (trim_start content) ''{''" and "le_json le content = Inr tree"
    and "fst (inline_remote_refs le nw tree fetch_start) = tree"
    and "le_openapi_value le (rewrite_nullable_type_arrays tree) = Inr spec"
    and "\<not> distinct (map fst (declared_ids spec))"
  shows "load_spec_with_remote_refs le nw src = Inr spec \<and> load_spec le n src \<noteq> Done (Inr spec)"
  using assms unfolding load_spec_iff by (simp add: load_spec_with_remote_refs_def fetch_start_def)

definition twice_spec :: openapi where
  "twice_spec = demo_spec\<lparr>spec_paths := [(''/pets'', Item (item_empty\<lparr>pi_get := Some (demo_op\<lparr>op_operation_id := Some ''a''\<rparr>),
     pi_put := Some (demo_op\<lparr>op_operation_id := Some ''a''\<rparr>)\<rparr>))]\<rparr>"

theorem remote_loader_unchecked_witness:
  "load_spec_with_remote_refs (demo_le\<lparr>le_openapi_value := (\<lambda>_. Inr twice_spec)\<rparr>) demo_nw ''{}'' = Inr twice_spec
   \<and> load_spec (demo_le\<lparr>le_openapi_value := (\<lambda>_. Inr twice_spec)\<rparr>) 9 ''{}'' \<noteq> Done (Inr twice_spec)"
proof (rule remote_loader_unchecked [where tree = JNull])
  show "read_content (demo_le\<lparr>le_openapi_value := (\<lambda>_. Inr twice_spec)\<rparr>) ''{}'' = Inr ''{}''"
    "starts_with (trim_start ''{}'') ''{''"
    by code_simp+
  show "\<not> distinct (map fst (declared_ids twice_spec))" by code_simp
qed (simp_all add: demo_le_def inline_remote_refs.simps)

end
