(* ===== verification/Rng.thy ===== *)
theory Rng
  imports Static Formats
begin

text \<open>
  \<open>random.rs\<close>: the seeded source of random values with its error slot, its path and its counters, and the
  generators built on it. A generator takes the state of the source and returns a value with the new
  state; the stream itself (the \<open>rand\<close> and \<open>rand_chacha\<close> crates, and the samplers of the \<open>fake\<close> and
  \<open>rand_regex\<close> crates that draw from it) is a parameter: what a draw returns is a function of the draws
  made before it.
\<close>

section \<open>Errors of the faker\<close>

datatype faker_error =
    InvalidType string string
  | SchemaError string string
  | MissingProperties string string
  | MissingItems string string
  | AdditionalPropertiesBlocked string
  | AmbiguousGenerator
  | UnknownRegistryKey string string
  | UnknownFakerGenerator string string
  | UnresolvedRef string
  | CannotGenerateForFalseSchema
  | AllBranchesFailed string nat "faker_error option"

definition display_faker_error :: "faker_error \<Rightarrow> string" where
  "display_faker_error e =
     (case e of
        InvalidType v p \<Rightarrow> ''unknown primitive '' @ v @ '' in '' @ p
      | SchemaError p m \<Rightarrow> ''schema error at '' @ p @ '': '' @ m
      | MissingProperties t p \<Rightarrow> ''missing properties for '' @ t @ '' in '' @ p
      | MissingItems t p \<Rightarrow> ''missing items for '' @ t @ '' in '' @ p
      | AdditionalPropertiesBlocked n \<Rightarrow>
          ''properties '' @ [CHR 0x27] @ n @ [CHR 0x27] @ '' were not found while additionalProperties is false''
      | AmbiguousGenerator \<Rightarrow> ''ambiguous generator''
      | UnknownRegistryKey n p \<Rightarrow> ''Error: unknown registry key '' @ n @ '' in '' @ p
      | UnknownFakerGenerator n p \<Rightarrow> ''cannot resolve faker-generator for '' @ n @ '' in '' @ p
      | UnresolvedRef p \<Rightarrow> ''unresolved $ref: '' @ p
      | CannotGenerateForFalseSchema \<Rightarrow> ''cannot generate a value for a `false` schema''
      | AllBranchesFailed k n _ \<Rightarrow> ''all '' @ show_nat n @ '' branches of '' @ k @ '' failed to generate'')"

section \<open>The stream\<close>

datatype draw =
    D_Int int int
  | D_Float f64 f64
  | D_Chance f64
  | D_Index nat
  | D_Byte
  | D_Sample string
  | D_Samples string
  | D_Flag string
  | D_Regex string

text \<open>
  The earlier draws come newest first. \<open>gen_range\<close> on floats and \<open>gen_bool\<close> panic on arguments they do not
  accept; \<open>src_sample\<close>, \<open>src_samples\<close> and \<open>src_flag\<close> take the name of a sampler of the \<open>fake\<close> crate (of a text,
  of several, of a truth value), \<open>src_regex\<close> a pattern that \<open>rand_regex\<close> compiles.
\<close>

record source =
  src_int :: "draw list \<Rightarrow> int \<Rightarrow> int \<Rightarrow> int"
  src_float :: "draw list \<Rightarrow> f64 \<Rightarrow> f64 \<Rightarrow> f64 run"
  src_chance :: "draw list \<Rightarrow> f64 \<Rightarrow> bool run"
  src_index :: "draw list \<Rightarrow> nat \<Rightarrow> nat"
  src_byte :: "draw list \<Rightarrow> 8 word"
  src_sample :: "draw list \<Rightarrow> string \<Rightarrow> string"
  src_samples :: "draw list \<Rightarrow> string \<Rightarrow> string list"
  src_flag :: "draw list \<Rightarrow> string \<Rightarrow> bool"
  src_regex :: "draw list \<Rightarrow> string \<Rightarrow> string"

text \<open>What \<open>rand\<close> documents of its ranges, where the code relies on it.\<close>

definition source_ok :: "source \<Rightarrow> bool" where
  "source_ok src \<longleftrightarrow>
     (\<forall>h lo hi. lo \<le> hi \<longrightarrow> lo \<le> src_int src h lo hi \<and> src_int src h lo hi \<le> hi)
     \<and> (\<forall>h n. 0 < n \<longrightarrow> src_index src h n < n)
     \<and> (\<forall>h lo hi v. src_float src h lo hi = Done v \<longrightarrow> f_le lo v \<and> f_lt v hi)
     \<and> (\<forall>h lo hi. src_float src h lo hi \<noteq> Fuel) \<and> (\<forall>h p. src_chance src h p \<noteq> Fuel)"

text \<open>
  The state of a \<open>Random\<close>. The walker's two thread-local cells (the depth of references being followed
  and the mark that a \<open>false\<close> schema was met) are kept with it, as is a clock that counts the lookups
  in the process-global registries.
\<close>

record rng =
  rg_source :: source
  rg_history :: "draw list"
  rg_error :: "faker_error option"
  rg_fixed :: bool
  rg_counter :: u64
  rg_path :: "string list"
  rg_auto :: "int str_map"
  rg_ref_depth :: nat
  rg_false_seen :: bool
  rg_clock :: nat

definition rng_new :: "source \<Rightarrow> rng" where
  "rng_new src =
     \<lparr>rg_source = src, rg_history = [], rg_error = None, rg_fixed = False, rg_counter = 0, rg_path = [],
      rg_auto = [], rg_ref_depth = 0, rg_false_seen = False, rg_clock = 0\<rparr>"

section \<open>Generators\<close>

type_synonym 'a gen = "rng \<Rightarrow> ('a \<times> rng) run"

definition ret :: "'a \<Rightarrow> 'a gen" where
  "ret x = (\<lambda>g. Done (x, g))"

definition gbind :: "'a gen \<Rightarrow> ('a \<Rightarrow> 'b gen) \<Rightarrow> 'b gen" where
  "gbind m f = (\<lambda>g. run_bind (m g) (\<lambda>(x, g'). f x g'))"

definition gmap :: "('a \<Rightarrow> 'b) \<Rightarrow> 'a gen \<Rightarrow> 'b gen" where
  "gmap f m = gbind m (\<lambda>x. ret (f x))"

definition gthen :: "'a gen \<Rightarrow> 'b gen \<Rightarrow> 'b gen" where
  "gthen m k = gbind m (\<lambda>_. k)"

definition gets :: "(rng \<Rightarrow> 'a) \<Rightarrow> 'a gen" where
  "gets f = (\<lambda>g. Done (f g, g))"

definition modify :: "(rng \<Rightarrow> rng) \<Rightarrow> unit gen" where
  "modify f = (\<lambda>g. Done ((), f g))"

definition gpanic :: "'a gen" where
  "gpanic = (\<lambda>g. Panic)"

definition gfuel :: "'a gen" where
  "gfuel = (\<lambda>g. Fuel)"

definition gwhen :: "bool \<Rightarrow> unit gen \<Rightarrow> unit gen" where
  "gwhen b m = (if b then m else ret ())"

text \<open>\<open>for x in xs\<close> with an accumulator, and the same call repeated.\<close>

fun gfold :: "('a \<Rightarrow> 'b \<Rightarrow> 'b gen) \<Rightarrow> 'a list \<Rightarrow> 'b \<Rightarrow> 'b gen" where
  "gfold f [] acc = ret acc"
| "gfold f (x # xs) acc = gbind (f x acc) (gfold f xs)"

primrec gtimes :: "nat \<Rightarrow> 'a gen \<Rightarrow> 'a list gen" where
  "gtimes 0 m = ret []"
| "gtimes (Suc n) m = gbind m (\<lambda>x. gmap (\<lambda>xs. x # xs) (gtimes n m))"

text \<open>\<open>for _ in 0..n\<close> with an early return.\<close>

primrec gfirst :: "nat \<Rightarrow> 'a option gen \<Rightarrow> 'a option gen" where
  "gfirst 0 m = ret None"
| "gfirst (Suc n) m = gbind m (\<lambda>r. case r of Some x \<Rightarrow> ret (Some x) | None \<Rightarrow> gfirst n m)"

lemma gfold_cong [fundef_cong]:
  "xs = ys \<Longrightarrow> acc = acc' \<Longrightarrow> (\<And>x a. x \<in> set ys \<Longrightarrow> f x a = f' x a) \<Longrightarrow> gfold f xs acc = gfold f' ys acc'"
proof (induction xs arbitrary: ys acc acc')
  case (Cons x xs)
  then have "gfold f xs a = gfold f' xs a" for a by auto
  with Cons.prems show ?case by (auto simp: gbind_def)
qed simp

section \<open>The operations of \<open>Random\<close>\<close>

definition draw_with :: "draw \<Rightarrow> (source \<Rightarrow> draw list \<Rightarrow> 'a run) \<Rightarrow> 'a gen" where
  "draw_with d f =
     (\<lambda>g. run_map (\<lambda>x. (x, g\<lparr>rg_history := d # rg_history g\<rparr>)) (f (rg_source g) (rg_history g)))"

definition push_path :: "string \<Rightarrow> unit gen" where
  "push_path segment = modify (\<lambda>g. g\<lparr>rg_path := rg_path g @ [segment]\<rparr>)"

definition pop_path :: "unit gen" where
  "pop_path = modify (\<lambda>g. g\<lparr>rg_path := butlast (rg_path g)\<rparr>)"

definition path_text :: "string list \<Rightarrow> string" where
  "path_text path = (if path = [] then ''/'' else concat (map (\<lambda>seg. CHR ''/'' # seg) path))"

definition current_path :: "string gen" where
  "current_path = gets (\<lambda>g. path_text (rg_path g))"

definition set_fixed_probabilities :: "bool \<Rightarrow> unit gen" where
  "set_fixed_probabilities on = modify (\<lambda>g. g\<lparr>rg_fixed := on\<rparr>)"

definition set_error :: "faker_error \<Rightarrow> unit gen" where
  "set_error err = modify (\<lambda>g. if rg_error g = None then g\<lparr>rg_error := Some err\<rparr> else g)"

definition has_error :: "bool gen" where
  "has_error = gets (\<lambda>g. rg_error g \<noteq> None)"

definition take_error :: "faker_error option gen" where
  "take_error = (\<lambda>g. Done (rg_error g, g\<lparr>rg_error := None\<rparr>))"

text \<open>An error that names the current path.\<close>

definition error_here :: "(string \<Rightarrow> faker_error) \<Rightarrow> unit gen" where
  "error_here err = gbind current_path (\<lambda>path. set_error (err path))"

definition rng_int :: "int \<Rightarrow> int \<Rightarrow> int gen" where
  "rng_int mn mx =
     (if mx \<le> mn then ret mn else draw_with (D_Int mn mx) (\<lambda>src h. Done (src_int src h mn mx)))"

definition rng_float :: "f64 \<Rightarrow> f64 \<Rightarrow> f64 gen" where
  "rng_float mn mx =
     (if f_le mx mn then ret mn else draw_with (D_Float mn mx) (\<lambda>src h. src_float src h mn mx))"

definition rng_bool :: "bool gen" where
  "rng_bool = draw_with (D_Chance (Fin (1 / 2))) (\<lambda>src h. src_chance src h (Fin (1 / 2)))"

definition pick_index :: "nat \<Rightarrow> nat gen" where
  "pick_index len =
     (if len = 0 then ret 0 else draw_with (D_Index len) (\<lambda>src h. Done (src_index src h len)))"

definition f_clamp :: "f64 \<Rightarrow> f64 \<Rightarrow> f64 \<Rightarrow> f64" where
  "f_clamp mn mx v = (if f_lt v mn then mn else if f_lt mx v then mx else v)"

fun f_floor :: "f64 \<Rightarrow> f64" where
  "f_floor (Fin a) = Fin (of_int \<lfloor>a\<rfloor>)"
| "f_floor v = v"

definition should_include :: "f64 \<Rightarrow> bool gen" where
  "should_include probability =
     (\<lambda>g. if rg_fixed g then
            (let p = f_clamp (Fin 0) (Fin 1) probability;
                 low = f_mul (f_of_int (uint (rg_counter g))) p;
                 g' = g\<lparr>rg_counter := rg_counter g + 1\<rparr>;
                 high = f_mul (f_of_int (uint (rg_counter g'))) p
             in Done (f_lt (f_floor low) (f_floor high), g'))
          else
            (let p = f_clamp (Fin 0) (Fin 1) probability
             in draw_with (D_Chance p) (\<lambda>src h. src_chance src h p) g))"

definition rng_byte :: "8 word gen" where
  "rng_byte = draw_with D_Byte (\<lambda>src h. Done (src_byte src h))"

text \<open>Indexing an empty slice panics.\<close>

definition pick_char :: "'a list \<Rightarrow> 'a gen" where
  "pick_char chars =
     gbind (pick_index (length chars)) (\<lambda>i. if i < length chars then ret (chars ! i) else gpanic)"

definition sample :: "string \<Rightarrow> string gen" where
  "sample name = draw_with (D_Sample name) (\<lambda>src h. Done (src_sample src h name))"

definition samples :: "string \<Rightarrow> string list gen" where
  "samples name = draw_with (D_Samples name) (\<lambda>src h. Done (src_samples src h name))"

definition sample_flag :: "string \<Rightarrow> bool gen" where
  "sample_flag name = draw_with (D_Flag name) (\<lambda>src h. Done (src_flag src h name))"

definition sample_regex :: "string \<Rightarrow> string gen" where
  "sample_regex pattern = draw_with (D_Regex pattern) (\<lambda>src h. Done (src_regex src h pattern))"

definition next_auto_increment :: "string \<Rightarrow> int \<Rightarrow> int gen" where
  "next_auto_increment key initial =
     (\<lambda>g. case map_of (rg_auto g) key of
            Some v \<Rightarrow>
              (let v' = min (v + 1) i64_max
               in Done (v', g\<lparr>rg_auto := (key, v') # rg_auto g\<rparr>))
          | None \<Rightarrow> Done (initial, g\<lparr>rg_auto := (key, initial) # rg_auto g\<rparr>))"

section \<open>Characters\<close>

text \<open>
  A character of a string is the bytes of its encoding: \<open>s.chars()\<close> cuts before every byte that starts
  a character.
\<close>

function chars :: "string \<Rightarrow> string list" where
  "chars [] = []"
| "chars (c # s) = (c # takeWhile cont s) # chars (dropWhile cont s)"
  by pat_completeness auto
termination
  by (relation "measure length") (auto simp: le_imp_less_Suc length_dropWhile_le)

definition code_point :: "string \<Rightarrow> nat" where
  "code_point ch =
     (case ch of
        [] \<Rightarrow> 0
      | c # rest \<Rightarrow>
          (let n = byte c;
               lead = (if n < 128 then n else if n < 224 then n - 192 else if n < 240 then n - 224 else n - 240)
           in foldl (\<lambda>acc b. acc * 64 + byte b mod 64) lead rest))"

definition encode_utf8 :: "nat \<Rightarrow> string" where
  "encode_utf8 n =
     (if n < 0x80 then [char_of n]
      else if n < 0x800 then [char_of (0xC0 + n div 64), char_of (0x80 + n mod 64)]
      else if n < 0x10000
      then [char_of (0xE0 + n div 4096), char_of (0x80 + n div 64 mod 64), char_of (0x80 + n mod 64)]
      else [char_of (0xF0 + n div 262144), char_of (0x80 + n div 4096 mod 64), char_of (0x80 + n div 64 mod 64),
            char_of (0x80 + n mod 64)])"

text \<open>The seed of a text: \<open>i32\<close> arithmetic that wraps, then the bits as \<open>u64\<close>.\<close>

definition random_string_seed :: "string \<Rightarrow> u64" where
  "random_string_seed s =
     ucast (fold (\<lambda>ch h. push_bit 5 h - h + word_of_nat (code_point ch)) (chars s) (0 :: 32 word))"

end
