(* ===== verification/FakeNumber.thy ===== *)
theory FakeNumber
  imports Rng
begin

text \<open>
  \<open>generators/number.rs\<close>: random integers and numbers within the bounds of a schema, multiples, and the
  numeric formats of Pydantic. Arithmetic on \<open>i64\<close> wraps (the release profile turns overflow checks off).
\<close>

section \<open>Keywords of a schema\<close>

definition f64_at :: "json \<Rightarrow> string \<Rightarrow> f64 option" where
  "f64_at s k = Option.bind (json_get s k) as_f64"

definition u64_at :: "json \<Rightarrow> string \<Rightarrow> nat option" where
  "u64_at s k = Option.bind (json_get s k) as_u64"

definition str_at :: "json \<Rightarrow> string \<Rightarrow> string option" where
  "str_at s k = Option.bind (json_get s k) as_str"

definition bool_at :: "json \<Rightarrow> string \<Rightarrow> bool option" where
  "bool_at s k = Option.bind (json_get s k) as_bool"

definition arr_at :: "json \<Rightarrow> string \<Rightarrow> json list option" where
  "arr_at s k = Option.bind (json_get s k) as_array"

definition obj_at :: "json \<Rightarrow> string \<Rightarrow> obj option" where
  "obj_at s k = Option.bind (json_get s k) as_object"

definition has :: "json \<Rightarrow> string \<Rightarrow> bool" where
  "has s k \<longleftrightarrow> json_get s k \<noteq> None"

section \<open>Floats\<close>

definition rat_trunc :: "rat \<Rightarrow> int" where
  "rat_trunc a = (if 0 \<le> a then \<lfloor>a\<rfloor> else - \<lfloor>- a\<rfloor>)"

fun f_ceil :: "f64 \<Rightarrow> f64" where
  "f_ceil (Fin a) = Fin (of_int \<lceil>a\<rceil>)"
| "f_ceil v = v"

text \<open>\<open>round\<close>: half away from zero.\<close>

fun f_round :: "f64 \<Rightarrow> f64" where
  "f_round (Fin a) = Fin (of_int (if 0 \<le> a then \<lfloor>a + 1 / 2\<rfloor> else - \<lfloor>1 / 2 - a\<rfloor>))"
| "f_round v = v"

definition f_fract :: "f64 \<Rightarrow> f64" where
  "f_fract v = f_rem_one v"

definition f_is_finite :: "f64 \<Rightarrow> bool" where
  "f_is_finite v = (case v of Fin _ \<Rightarrow> True | _ \<Rightarrow> False)"

definition f_min :: "f64 \<Rightarrow> f64 \<Rightarrow> f64" where
  "f_min a b = (if a = NaN then b else if b = NaN then a else if f_lt b a then b else a)"

text \<open>\<open>v as i64\<close>: truncates and saturates; NaN is 0.\<close>

definition f_to_i64 :: "f64 \<Rightarrow> int" where
  "f_to_i64 v =
     (case v of
        Fin a \<Rightarrow> max i64_min (min i64_max (rat_trunc a))
      | PInf \<Rightarrow> i64_max | NInf \<Rightarrow> i64_min | NaN \<Rightarrow> 0)"

definition f_two63 :: f64 where
  "f_two63 = Fin (2 ^ 63)"

definition clamp_to_i64 :: "f64 \<Rightarrow> int" where
  "clamp_to_i64 v =
     (if v = NaN then 0 else f_to_i64 (f_round (f_clamp (f_neg f_two63) f_two63 v)))"

text \<open>The neighbours of a float by its bits: one unit in the last place.\<close>

definition ulp_of :: "rat \<Rightarrow> rat" where
  "ulp_of a = pow2 (max (ilog2 a) (-1022) - 52)"

definition mag_up :: "rat \<Rightarrow> f64" where
  "mag_up a = (let v = (if a = 0 then pow2 (-1074) else a + ulp_of a) in if 2 ^ 1024 \<le> v then PInf else Fin v)"

definition mag_down :: "rat \<Rightarrow> rat" where
  "mag_down a =
     (if -1022 < ilog2 a \<and> a = pow2 (ilog2 a) then a - ulp_of a / 2 else a - ulp_of a)"

definition f_largest :: rat where
  "f_largest = 2 ^ 1024 - 2 ^ 971"

fun next_up :: "f64 \<Rightarrow> f64" where
  "next_up NaN = NaN"
| "next_up PInf = PInf"
| "next_up NInf = Fin (- f_largest)"
| "next_up (Fin a) = (if 0 \<le> a then mag_up a else Fin (- mag_down (- a)))"

fun next_down :: "f64 \<Rightarrow> f64" where
  "next_down NaN = NaN"
| "next_down NInf = NInf"
| "next_down PInf = Fin f_largest"
| "next_down (Fin a) = (if a \<le> 0 then f_neg (mag_up (- a)) else Fin (mag_down a))"

text \<open>
  \<open>format!("{:?}", v)\<close>: like \<open>Display\<close>, with \<open>.0\<close> after an integer, and with an exponent below \<open>1e-4\<close> and from
  \<open>1e16\<close> on.
\<close>

definition debug_pos :: "rat \<Rightarrow> string" where
  "debug_pos a =
     (if 1 / 10 ^ 4 \<le> a \<and> a < 10 ^ 16 then
        (let s = show_pos_f64 a in if CHR ''.'' \<in> set s then s else s @ ''.0'')
      else
        (case find_map (shortest_at a (ilog10 a)) [1..<18] of
           Some (m, t) \<Rightarrow>
             (let digits = show_nat m; e = t + int (length digits) - 1;
                  ds = rev (dropWhile (\<lambda>c. c = CHR ''0'') (rev digits))
              in take 1 ds @ (if length ds = 1 then [] else CHR ''.'' # drop 1 ds) @ ''e'' @ show_int e)
         | None \<Rightarrow> []))"

definition debug_f64 :: "f64 \<Rightarrow> string" where
  "debug_f64 v =
     (case v of
        NaN \<Rightarrow> ''NaN'' | PInf \<Rightarrow> ''inf'' | NInf \<Rightarrow> ''-inf''
      | Fin q \<Rightarrow>
          if q = 0 then ''0.0'' else if 0 < q then debug_pos q else CHR ''-'' # debug_pos (- q))"

definition index_of :: "char \<Rightarrow> string \<Rightarrow> nat option" where
  "index_of c s = (if c \<in> set s then Some (length (takeWhile (\<lambda>x. x \<noteq> c) s)) else None)"

definition parse_i32 :: "string \<Rightarrow> int option" where
  "parse_i32 s = Option.bind (parse_i128 s) (\<lambda>n. if - (2 ^ 31) \<le> n \<and> n < 2 ^ 31 then Some n else None)"

definition decimal_places :: "f64 \<Rightarrow> nat" where
  "decimal_places v =
     (if v = Fin 0 \<or> \<not> f_is_finite v then 0
      else
        let s = debug_f64 v; lower = to_ascii_lowercase s
        in case index_of (CHR ''e'') lower of
             Some e_pos \<Rightarrow>
               (let mantissa = take e_pos s;
                    ex = unwrap_or (parse_i32 (drop (e_pos + 1) s)) 0;
                    mantissa_dp = (case index_of (CHR ''.'') mantissa of
                                     Some p \<Rightarrow> int (length mantissa) - int p - 1 | None \<Rightarrow> 0)
                in nat (mantissa_dp - ex))
           | None \<Rightarrow> (case index_of (CHR ''.'') s of Some p \<Rightarrow> length s - p - 1 | None \<Rightarrow> 0))"

section \<open>Integers of a fixed width\<close>

definition wrap_i64 :: "int \<Rightarrow> int" where
  "wrap_i64 n = (n + 2 ^ 63) mod 2 ^ 64 - 2 ^ 63"

text \<open>\<open>/\<close> and \<open>%\<close> truncate; the divisors of this file are positive.\<close>

definition div_trunc :: "int \<Rightarrow> int \<Rightarrow> int" where
  "div_trunc a b = sgn a * sgn b * (\<bar>a\<bar> div \<bar>b\<bar>)"

definition rem_trunc :: "int \<Rightarrow> int \<Rightarrow> int" where
  "rem_trunc a b = sgn a * (\<bar>a\<bar> mod \<bar>b\<bar>)"

definition ceil_multiple_i64 :: "int \<Rightarrow> int \<Rightarrow> int" where
  "ceil_multiple_i64 n m =
     (if m = 0 then n
      else
        let r = rem_trunc n m
        in if r = 0 then n else if 0 \<le> n then wrap_i64 (n + (m - r)) else n - r)"

definition floor_multiple_i64 :: "int \<Rightarrow> int \<Rightarrow> int" where
  "floor_multiple_i64 n m =
     (if m = 0 then n
      else
        let r = rem_trunc n m
        in if r = 0 then n else if 0 \<le> n then n - r else wrap_i64 (n - (m + r)))"

definition json_int :: "int \<Rightarrow> json" where
  "json_int n = JNum (JInt n)"

definition json_number :: "f64 \<Rightarrow> json" where
  "json_number f =
     (if f_eq (f_fract f) (Fin 0) \<and> f_is_finite f \<and> f_lt (f_abs f) f_two63 then json_int (f_to_i64 f)
      else case num_from_f64 f of Some n \<Rightarrow> JNum n | None \<Rightarrow> json_int 0)"

section \<open>Bounds\<close>

definition exclusive_bound :: "json option \<Rightarrow> f64 \<Rightarrow> f64 \<times> bool" where
  "exclusive_bound v bound =
     (case v of
        None \<Rightarrow> (bound, False)
      | Some x \<Rightarrow>
          (case as_bool x of
             Some b \<Rightarrow> (bound, b)
           | None \<Rightarrow> (case as_f64 x of Some n \<Rightarrow> (n, True) | None \<Rightarrow> (bound, False))))"

definition extract_bounds :: "json \<Rightarrow> f64 \<times> f64 \<times> bool \<times> bool" where
  "extract_bounds s =
     (let (mn, exmin) = exclusive_bound (json_get s ''exclusiveMinimum'') (unwrap_or (f64_at s ''minimum'') (Fin (-1000)));
          (mx, exmax) = exclusive_bound (json_get s ''exclusiveMaximum'') (unwrap_or (f64_at s ''maximum'') (Fin 1000))
      in (mn, mx, exmin, exmax))"

section \<open>Multiples\<close>

definition MULTIPLE_OF_RETRY_BUDGET :: nat where
  "MULTIPLE_OF_RETRY_BUDGET = 100"

definition strict_multiple :: "f64 \<Rightarrow> f64 \<Rightarrow> bool" where
  "strict_multiple v multiple_of =
     (let remainder = f_rem_one (f_div v multiple_of)
      in f_lt (f_abs remainder) f_epsilon \<or> f_lt (f_abs (f_sub (Fin 1) (f_abs remainder))) f_epsilon)"

definition zero_or_min :: "f64 \<Rightarrow> f64 \<Rightarrow> f64" where
  "zero_or_min mn mx = (if f_le mn (Fin 0) \<and> f_le (Fin 0) mx then Fin 0 else mn)"

definition generate_multiple_of :: "f64 \<Rightarrow> f64 \<Rightarrow> f64 \<Rightarrow> f64 gen" where
  "generate_multiple_of safe_min safe_max multiple_of =
     (if \<not> f_is_finite multiple_of \<or> f_lt (Fin (10 ^ 15)) (f_abs multiple_of) then ret (zero_or_min safe_min safe_max)
      else
        let scale = 10 ^ min (decimal_places multiple_of) 18;
            scale_f = f_of_int scale;
            mo_int = clamp_to_i64 (f_mul multiple_of scale_f);
            min_int = clamp_to_i64 (f_mul safe_min scale_f);
            max_int = clamp_to_i64 (f_mul safe_max scale_f);
            roundtrip_ok = f_lt (f_abs (f_sub (f_div (f_of_int mo_int) scale_f) multiple_of))
                             (f_add (f_mul (f_abs multiple_of) (round64 (1 / 10 ^ 10))) f_epsilon)
        in if \<not> roundtrip_ok then ret (zero_or_min safe_min safe_max)
           else
             let first = ceil_multiple_i64 min_int mo_int; last = floor_multiple_i64 max_int mo_int
             in if mo_int = 0 \<or> last < first then ret safe_min
                else
                  let count = div_trunc (wrap_i64 (last - first)) mo_int
                  in gbind
                      (gfirst MULTIPLE_OF_RETRY_BUDGET
                        (gbind (rng_int 0 count) (\<lambda>chosen.
                           let result = f_div (f_of_int (wrap_i64 (first + wrap_i64 (chosen * mo_int)))) scale_f
                           in ret (if strict_multiple result multiple_of then Some result else None))))
                      (\<lambda>r. ret (case r of
                                  Some result \<Rightarrow> result
                                | None \<Rightarrow>
                                    if first \<le> 0 \<and> 0 \<le> last then Fin 0
                                    else f_div (f_of_int first) scale_f)))"

text \<open>The scan of the range for a multiple; \<open>None\<close> when it ends without one.\<close>

function scan_multiple :: "int \<Rightarrow> int \<Rightarrow> f64 \<Rightarrow> int option" where
  "scan_multiple n mx multiple_of =
     (if mx < n then None
      else if strict_multiple (f_of_int n) multiple_of then Some n
      else if n = i64_max then None
      else scan_multiple (n + 1) mx multiple_of)"
  by pat_completeness auto
termination
  by (relation "measure (\<lambda>(n, mx, m). nat (mx - n + 1))") auto

declare scan_multiple.simps [simp del]

definition generate_integer_with_multiple_of :: "int \<Rightarrow> int \<Rightarrow> f64 \<Rightarrow> json gen" where
  "generate_integer_with_multiple_of mn mx multiple_of =
     (if f_eq (f_fract multiple_of) (Fin 0) then
        (let mo_int = f_to_i64 multiple_of
         in if mo_int \<le> 0 then gmap json_int (rng_int mn mx)
            else
              let first = ceil_multiple_i64 mn mo_int; last = floor_multiple_i64 mx mo_int
              in if last < first then ret (json_int first)
                 else
                   let count = div_trunc (wrap_i64 (last - first)) mo_int
                   in gmap (\<lambda>chosen. json_int (wrap_i64 (first + wrap_i64 (chosen * mo_int)))) (rng_int 0 count))
      else
        gbind
          (gfirst MULTIPLE_OF_RETRY_BUDGET
            (gmap (\<lambda>candidate.
                if f_eq (f_fract candidate) (Fin 0) \<and> f_le (f_of_int mn) candidate \<and> f_le candidate (f_of_int mx)
                   \<and> strict_multiple candidate multiple_of
                then Some (f_to_i64 candidate) else None)
              (generate_multiple_of (f_of_int mn) (f_of_int mx) multiple_of)))
          (\<lambda>r. ret (json_int (case r of
                 Some n \<Rightarrow> n
               | None \<Rightarrow> unwrap_or (scan_multiple mn mx multiple_of) mn))))"

section \<open>Numeric formats\<close>

definition emit_int :: "bool \<Rightarrow> int \<Rightarrow> json" where
  "emit_int as_float n = (if as_float then json_number (f_of_int n) else json_int n)"

definition clamp_i32 :: "int \<Rightarrow> int" where
  "clamp_i32 n = min (max n (- (2 ^ 31))) (2 ^ 31 - 1)"

definition generate_for_numeric_format :: "string \<Rightarrow> json \<Rightarrow> bool \<Rightarrow> json option gen" where
  "generate_for_numeric_format format s as_float =
     (let has_min = f64_at s ''minimum'' \<noteq> None;
          has_max = f64_at s ''maximum'' \<noteq> None;
          (min_f, max_f, _, _) = extract_bounds s;
          emit = (\<lambda>lo hi. gmap (\<lambda>n. Some (emit_int as_float n)) (rng_int lo hi))
      in if format = ''positive-int'' then
           (let lo = (if has_min then max (clamp_to_i64 min_f) 1 else 1);
                hi = (if has_max then clamp_to_i64 max_f else 1000000)
            in emit lo (max hi lo))
         else if format = ''negative-int'' then
           (let hi = (if has_max then min (clamp_to_i64 max_f) (-1) else -1);
                lo = (if has_min then clamp_to_i64 min_f else -1000000)
            in emit (min lo hi) hi)
         else if format = ''nonnegative-int'' then
           (let lo = (if has_min then max (clamp_to_i64 min_f) 0 else 0);
                hi = (if has_max then clamp_to_i64 max_f else 1000000)
            in emit lo (max hi lo))
         else if format = ''nonpositive-int'' then
           (let hi = (if has_max then min (clamp_to_i64 max_f) 0 else 0);
                lo = (if has_min then clamp_to_i64 min_f else -1000000)
            in emit (min lo hi) hi)
         else if format = ''int32'' \<or> format = ''strict-int'' then
           (let mn = (if has_min then clamp_i32 (clamp_to_i64 min_f) else - (2 ^ 31));
                mx = (if has_max then clamp_i32 (clamp_to_i64 max_f) else 2 ^ 31 - 1)
            in emit (min mn mx) (max mx mn))
         else if format = ''int64'' then
           (let mn = (if has_min then clamp_to_i64 min_f else -1000000000);
                mx = (if has_max then clamp_to_i64 max_f else 1000000000)
            in emit (min mn mx) (max mx mn))
         else if format \<in> set [''strict-float'', ''float'', ''double''] then
           (let mn = (if has_min then min_f else Fin (-1000)); mx = (if has_max then max_f else Fin 1000)
            in gmap (\<lambda>v. Some (if as_float then json_number v else json_int (f_to_i64 v))) (rng_float mn mx))
         else if format = ''strict-bool'' then
           gthen rng_bool (gmap (\<lambda>b. Some (emit_int as_float (if b then 1 else 0))) rng_bool)
         else ret None)"

section \<open>Numbers and integers\<close>

definition or_numeric_format :: "json \<Rightarrow> bool \<Rightarrow> json gen \<Rightarrow> json gen" where
  "or_numeric_format s as_float otherwise =
     (case str_at s ''format'' of
        Some fmt \<Rightarrow>
          gbind (generate_for_numeric_format fmt s as_float) (\<lambda>r. case r of Some v \<Rightarrow> ret v | None \<Rightarrow> otherwise)
      | None \<Rightarrow> otherwise)"

definition generate_number :: "json \<Rightarrow> json gen" where
  "generate_number s =
     or_numeric_format s True
       (let (mn, mx, exclusive_min, exclusive_max) = extract_bounds s;
            effective_min = (if exclusive_min then next_up mn else mn);
            effective_max = (if exclusive_max then next_down mx else mx);
            safe_min = f_min effective_min effective_max;
            safe_max = f_max effective_max safe_min;
            multiple_of = unwrap_or (f64_at s ''multipleOf'') (Fin 0)
        in if f_lt (Fin 0) multiple_of then gmap json_number (generate_multiple_of safe_min safe_max multiple_of)
           else if f_lt (f_abs (f_sub safe_max safe_min)) f_epsilon then ret (json_number safe_min)
           else gmap json_number (rng_float safe_min safe_max))"

definition integer_bounds :: "json \<Rightarrow> int \<times> int" where
  "integer_bounds s =
     (let (min_f, max_f, exclusive_min, exclusive_max) = extract_bounds s;
          mn = clamp_to_i64 (f_ceil min_f); mx = clamp_to_i64 (f_floor max_f);
          mn' = (if exclusive_min then min (mn + 1) i64_max else mn);
          mx' = (if exclusive_max then max (mx - 1) i64_min else mx)
      in (mn', if mx' < mn' then mn' else mx'))"

definition generate_integer :: "json \<Rightarrow> json gen" where
  "generate_integer s =
     or_numeric_format s False
       (let (mn, mx) = integer_bounds s
        in case f64_at s ''multipleOf'' of
             Some mo \<Rightarrow>
               if f_lt (Fin 0) mo then generate_integer_with_multiple_of mn mx mo
               else gmap json_int (rng_int mn mx)
           | None \<Rightarrow> gmap json_int (rng_int mn mx))"

end
