(* ===== verification/FakeFormats.thy ===== *)
theory FakeFormats
  imports FakeNumber
begin

unbundle bit_operations_syntax

text \<open>
  \<open>formats\<close> of the faker: the generators of string formats and their dispatcher. The samplers of the \<open>fake\<close>
  crate are draws of the stream; the parsing and the calendar of \<open>chrono\<close>, the tables of \<open>char::to_uppercase\<close>
  and the two registries that users fill are parameters.
\<close>

section \<open>What the faker is given\<close>

type_synonym civil = "int \<times> nat \<times> nat \<times> nat \<times> nat \<times> nat"
type_synonym extension = "json \<Rightarrow> json \<Rightarrow> string option \<Rightarrow> string \<Rightarrow> json"

text \<open>
  \<open>fe_seeded\<close> is the stream of a seed (of fresh entropy for \<open>None\<close>); \<open>fe_regex\<close> compiles a pattern and
  \<open>fe_rand_regex\<close> tells whether \<open>rand_regex\<close> does; \<open>fe_extensions\<close> and \<open>fe_formats\<close> are the global registries at
  a moment of the clock, since other threads may change them; \<open>fe_rfc3339\<close> and \<open>fe_ymd\<close> parse to nanoseconds since
  the epoch, \<open>fe_civil\<close> and \<open>fe_date_of\<close> are the calendar fields of a millisecond and of a day since the epoch,
  \<open>fe_now\<close> those of the present; \<open>fe_to_string\<close> is \<open>serde_json::to_string\<close>.
\<close>

record faker_env =
  fe_seeded :: "u64 option \<Rightarrow> source"
  fe_regex :: compiler
  fe_rand_regex :: "string \<Rightarrow> bool"
  fe_extensions :: "nat \<Rightarrow> extension str_map option"
  fe_formats :: "nat \<Rightarrow> (json gen) str_map option"
  fe_rfc3339 :: "string \<Rightarrow> int option"
  fe_ymd :: "string \<Rightarrow> int option"
  fe_civil :: "int \<Rightarrow> civil option"
  fe_date_of :: "int \<Rightarrow> int \<times> nat \<times> nat"
  fe_now :: civil
  fe_uppercase :: "string \<Rightarrow> string"
  fe_to_string :: "json \<Rightarrow> string"

section \<open>Texts\<close>

text \<open>\<open>{:0w}\<close> of an integer, and \<open>{:.k}\<close> of a float: rounded half to even.\<close>

definition zpad :: "nat \<Rightarrow> int \<Rightarrow> string" where
  "zpad w n =
     (let s = show_nat (nat \<bar>n\<bar>); sign = (if n < 0 then ''-'' else [])
      in sign @ replicate (w - length sign - length s) (CHR ''0'') @ s)"

definition show_fixed :: "nat \<Rightarrow> f64 \<Rightarrow> string" where
  "show_fixed k f =
     (case f of
        NaN \<Rightarrow> ''NaN'' | PInf \<Rightarrow> ''inf'' | NInf \<Rightarrow> ''-inf''
      | Fin q \<Rightarrow>
          (let m = nat (round_half_even (\<bar>q\<bar> * 10 ^ k))
           in (if q < 0 then ''-'' else []) @ show_nat (m div 10 ^ k)
              @ (if k = 0 then [] else CHR ''.'' # zpad k (int (m mod 10 ^ k)))))"

definition show_bool :: "bool \<Rightarrow> string" where
  "show_bool b = (if b then ''true'' else ''false'')"

text \<open>\<open>split_whitespace().next()\<close>.\<close>

definition first_word :: "string \<Rightarrow> string option" where
  "first_word s =
     (let w = concat (takeWhile (\<lambda>ch. ch \<notin> set ws_seqs) (chars (trim_start s)))
      in if w = [] then None else Some w)"

definition lower_letters :: string where "lower_letters = ''abcdefghijklmnopqrstuvwxyz''"
definition upper_letters :: string where "upper_letters = ''ABCDEFGHIJKLMNOPQRSTUVWXYZ''"
definition digit_chars :: string where "digit_chars = ''0123456789''"

text \<open>\<open>(0..n).map(|_| *rng.pick_char(&cs)).collect()\<close>.\<close>

definition pick_chars :: "string \<Rightarrow> nat \<Rightarrow> string gen" where
  "pick_chars cs n = gtimes n (pick_char cs)"

definition pick_of :: "'a list \<Rightarrow> 'a gen" where
  "pick_of xs = gbind (pick_index (length xs)) (\<lambda>i. if i < length xs then ret (xs ! i) else gpanic)"

section \<open>Samplers used as they are\<close>

text \<open>\<open>name.rs\<close>\<close>

definition generate_full_name :: "string gen" where
  "generate_full_name = sample ''Name''"

definition generate_first_name :: "string gen" where
  "generate_first_name = sample ''FirstName''"

definition generate_last_name :: "string gen" where
  "generate_last_name = sample ''LastName''"

definition generate_name_with_title :: "string gen" where
  "generate_name_with_title = sample ''NameWithTitle''"

definition generate_title :: "string gen" where
  "generate_title = sample ''Title''"

definition generate_suffix :: "string gen" where
  "generate_suffix = sample ''Suffix''"

text \<open>\<open>company.rs\<close>\<close>

definition generate_company_name :: "string gen" where
  "generate_company_name = sample ''CompanyName''"

definition generate_company_suffix :: "string gen" where
  "generate_company_suffix = sample ''CompanySuffix''"

definition generate_industry :: "string gen" where
  "generate_industry = sample ''Industry''"

definition generate_profession :: "string gen" where
  "generate_profession = sample ''Profession''"

definition generate_buzzword :: "string gen" where
  "generate_buzzword = sample ''Buzzword''"

definition generate_catch_phrase :: "string gen" where
  "generate_catch_phrase = sample ''CatchPhrase''"

definition generate_bs_adjective :: "string gen" where
  "generate_bs_adjective = sample ''BsAdj''"

definition generate_bs_noun :: "string gen" where
  "generate_bs_noun = sample ''BsNoun''"

definition generate_bs_verb :: "string gen" where
  "generate_bs_verb = sample ''BsVerb''"

text \<open>\<open>address.rs\<close>\<close>

definition generate_street_name :: "string gen" where
  "generate_street_name = sample ''StreetName''"

definition generate_building_number :: "string gen" where
  "generate_building_number = sample ''BuildingNumber''"

definition generate_secondary_address :: "string gen" where
  "generate_secondary_address = sample ''SecondaryAddress''"

definition generate_city_name :: "string gen" where
  "generate_city_name = sample ''CityName''"

definition generate_state_name :: "string gen" where
  "generate_state_name = sample ''StateName''"

definition generate_state_abbr :: "string gen" where
  "generate_state_abbr = sample ''StateAbbr''"

definition generate_zip_code :: "string gen" where
  "generate_zip_code = sample ''ZipCode''"

definition generate_post_code :: "string gen" where
  "generate_post_code = sample ''PostCode''"

definition generate_country_name :: "string gen" where
  "generate_country_name = sample ''CountryName''"

definition generate_country_code :: "string gen" where
  "generate_country_code = sample ''CountryCode''"

definition generate_latitude :: "string gen" where
  "generate_latitude = sample ''Latitude''"

definition generate_longitude :: "string gen" where
  "generate_longitude = sample ''Longitude''"

definition generate_time_zone :: "string gen" where
  "generate_time_zone = sample ''TimeZone''"

text \<open>\<open>phone.rs\<close>\<close>

definition generate_phone_number :: "string gen" where
  "generate_phone_number = sample ''PhoneNumber''"

text \<open>\<open>internet_extras.rs\<close>\<close>

definition generate_username :: "string gen" where
  "generate_username = sample ''Username''"

definition generate_mac_address :: "string gen" where
  "generate_mac_address = sample ''MACAddress''"

definition generate_user_agent :: "string gen" where
  "generate_user_agent = sample ''UserAgent''"

definition generate_domain_suffix :: "string gen" where
  "generate_domain_suffix = sample ''DomainSuffix''"

definition generate_free_email :: "string gen" where
  "generate_free_email = sample ''FreeEmail''"

definition generate_free_email_provider :: "string gen" where
  "generate_free_email_provider = sample ''FreeEmailProvider''"

text \<open>\<open>lorem.rs\<close>\<close>

definition generate_word :: "string gen" where
  "generate_word = sample ''Word''"

definition generate_sentence :: "string gen" where
  "generate_sentence = sample ''Sentence(3..8)''"

definition generate_paragraph :: "string gen" where
  "generate_paragraph = sample ''Paragraph(2..5)''"

text \<open>\<open>finance.rs\<close>\<close>

definition generate_bic :: "string gen" where
  "generate_bic = sample ''Bic''"

definition generate_isin :: "string gen" where
  "generate_isin = sample ''Isin''"

definition generate_credit_card_number :: "string gen" where
  "generate_credit_card_number = sample ''CreditCardNumber''"

definition generate_currency_code :: "string gen" where
  "generate_currency_code = sample ''CurrencyCode''"

definition generate_currency_name :: "string gen" where
  "generate_currency_name = sample ''CurrencyName''"

definition generate_currency_symbol :: "string gen" where
  "generate_currency_symbol = sample ''CurrencySymbol''"

text \<open>\<open>filesystem.rs\<close>\<close>

definition generate_file_name :: "string gen" where
  "generate_file_name = sample ''FileName''"

definition generate_file_extension :: "string gen" where
  "generate_file_extension = sample ''FileExtension''"

definition generate_file_path :: "string gen" where
  "generate_file_path = sample ''FilePath''"

definition generate_mime_type :: "string gen" where
  "generate_mime_type = sample ''MimeType''"

definition generate_semver :: "string gen" where
  "generate_semver = sample ''Semver''"

definition generate_semver_stable :: "string gen" where
  "generate_semver_stable = sample ''SemverStable''"

definition generate_semver_unstable :: "string gen" where
  "generate_semver_unstable = sample ''SemverUnstable''"

text \<open>\<open>color.rs\<close>\<close>

definition generate_rgb_color :: "string gen" where
  "generate_rgb_color = sample ''RgbColor''"

definition generate_rgba_color :: "string gen" where
  "generate_rgba_color = sample ''RgbaColor''"

definition generate_hsl_color :: "string gen" where
  "generate_hsl_color = sample ''HslColor''"

definition generate_hsla_color :: "string gen" where
  "generate_hsla_color = sample ''HslaColor''"

definition generate_color :: "string gen" where
  "generate_color = sample ''RgbColor''"

text \<open>\<open>barcode.rs\<close>\<close>

definition generate_isbn :: "string gen" where
  "generate_isbn = sample ''Isbn''"

definition generate_isbn10 :: "string gen" where
  "generate_isbn10 = sample ''Isbn10''"

definition generate_isbn13 :: "string gen" where
  "generate_isbn13 = sample ''Isbn13''"

text \<open>\<open>email.rs\<close>\<close>

definition generate_email :: "string gen" where
  "generate_email = sample ''SafeEmail''"

text \<open>\<open>ip.rs\<close>\<close>

definition generate_ipv4 :: "string gen" where
  "generate_ipv4 = sample ''IPv4''"

definition generate_ipv6 :: "string gen" where
  "generate_ipv6 = sample ''IPv6''"

section \<open>Composed formats\<close>

definition generate_boolean :: "bool gen" where
  "generate_boolean = sample_flag ''Boolean(50)''"

definition generate_words :: "string gen" where
  "generate_words = gmap (join '' '') (samples ''Words(3..7)'')"

definition generate_sentences :: "string gen" where
  "generate_sentences = gmap (join '' '') (samples ''Sentences(3..7)'')"

definition generate_paragraphs :: "string gen" where
  "generate_paragraphs = gmap (join [CHR 0x0A, CHR 0x0A]) (samples ''Paragraphs(2..4)'')"

definition generate_rfc_status_code :: "string gen" where
  "generate_rfc_status_code = gmap (\<lambda>raw. unwrap_or (first_word raw) ''200'') (sample ''RfcStatusCode'')"

definition generate_valid_status_code :: "string gen" where
  "generate_valid_status_code = gmap (\<lambda>raw. unwrap_or (first_word raw) ''200'') (sample ''ValidStatusCode'')"

definition generate_hostname :: "string gen" where
  "generate_hostname =
     gbind (sample ''Word'') (\<lambda>w. gmap (\<lambda>suffix. w @ ''.'' @ suffix) (sample ''DomainSuffix''))"

definition generate_json_pointer :: "string gen" where
  "generate_json_pointer = gmap (\<lambda>w. CHR ''/'' # w) (sample ''Word'')"

definition generate_relative_json_pointer :: "string gen" where
  "generate_relative_json_pointer =
     gbind (rng_int 0 5) (\<lambda>n. gmap (\<lambda>ptr. show_int n @ ptr) generate_json_pointer)"

definition generate_uri :: "string gen" where
  "generate_uri =
     gbind (sample ''Word'') (\<lambda>host. gbind (sample ''DomainSuffix'') (\<lambda>suffix.
       gmap (\<lambda>path. ''https://'' @ host @ ''.'' @ suffix @ ''/'' @ path) (sample ''Word'')))"

definition generate_uri_template :: "string gen" where
  "generate_uri_template =
     gbind (sample ''Word'') (\<lambda>v.
       gmap (\<lambda>trailing. ''https://example.com/{'' @ v @ ''}/'' @ trailing) (sample ''Word''))"

subsection \<open>\<open>idn.rs\<close>\<close>

definition UNICODE_LABELS :: "string list" where
  "UNICODE_LABELS =
     [[CHR 0xE4, CHR 0xBE, CHR 0x8B, CHR 0xE3, CHR 0x81, CHR 0x88],
      [CHR 0xD0, CHR 0xBF, CHR 0xD1, CHR 0x80, CHR 0xD0, CHR 0xB8, CHR 0xD0, CHR 0xBC, CHR 0xD0, CHR 0xB5,
       CHR 0xD1, CHR 0x80],
      [CHR 0xD0, CHR 0xBC, CHR 0xD0, CHR 0xB8, CHR 0xD1, CHR 0x80],
      [CHR 0xE3, CHR 0x83, CHR 0x86, CHR 0xE3, CHR 0x82, CHR 0xB9, CHR 0xE3, CHR 0x83, CHR 0x88]]"

definition pick_unicode_label :: "string gen" where
  "pick_unicode_label = pick_of UNICODE_LABELS"

definition generate_iri :: "string gen" where
  "generate_iri =
     gbind pick_unicode_label (\<lambda>label. gbind (sample ''DomainSuffix'') (\<lambda>suffix.
       gmap (\<lambda>path. ''https://'' @ label @ ''.'' @ suffix @ ''/'' @ path) (sample ''Word'')))"

definition generate_idn_email :: "string gen" where
  "generate_idn_email =
     gbind (sample ''Word'') (\<lambda>user. gbind pick_unicode_label (\<lambda>label.
       gmap (\<lambda>suffix. user @ ''@'' @ label @ ''.'' @ suffix) (sample ''DomainSuffix'')))"

definition generate_idn_hostname :: "string gen" where
  "generate_idn_hostname =
     gbind pick_unicode_label (\<lambda>label. gmap (\<lambda>suffix. label @ ''.'' @ suffix) (sample ''DomainSuffix''))"

subsection \<open>\<open>path_aliases.rs\<close>\<close>

definition generate_directory_path :: "string gen" where
  "generate_directory_path =
     gbind (rng_int 2 3) (\<lambda>n. gmap (\<lambda>parts. CHR ''/'' # join ''/'' parts) (gtimes (nat n) (sample ''Word'')))"

definition generate_new_path :: "string gen" where
  "generate_new_path =
     gbind generate_directory_path (\<lambda>dir. gmap (\<lambda>name. dir @ ''/'' @ name @ ''.new'') (sample ''Word''))"

subsection \<open>\<open>uuid.rs\<close>\<close>

definition hex_digit :: "8 word \<Rightarrow> char" where
  "hex_digit n = ''0123456789abcdef'' ! unat n"

definition hex_byte :: "8 word \<Rightarrow> string" where
  "hex_byte b = [hex_digit (drop_bit 4 b), hex_digit (b AND 0x0f)]"

definition uuid_text :: "8 word list \<Rightarrow> string" where
  "uuid_text bytes =
     (let b1 = bytes[6 := (bytes ! 6 AND 0x0f) OR 0x40];
          b2 = b1[8 := (b1 ! 8 AND 0x3f) OR 0x80];
          cs = concat (map hex_byte b2)
      in take 8 cs @ ''-'' @ take 4 (drop 8 cs) @ ''-'' @ take 4 (drop 12 cs) @ ''-'' @ take 4 (drop 16 cs)
         @ ''-'' @ drop 20 cs)"

definition generate_uuid :: "string gen" where
  "generate_uuid = gmap uuid_text (gtimes 16 rng_byte)"

subsection \<open>\<open>date_time.rs\<close>, \<open>duration.rs\<close>\<close>

definition MS_PER_YEAR :: int where
  "MS_PER_YEAR = 365 * 24 * 60 * 60 * 1000"

definition parse_flexible :: "faker_env \<Rightarrow> string \<Rightarrow> int option" where
  "parse_flexible env s = or_else (fe_rfc3339 env s) (fe_ymd env s)"

definition civil_text :: "civil \<Rightarrow> string" where
  "civil_text c =
     (case c of (y, mo, d, h, mi, se) \<Rightarrow>
        zpad 4 y @ ''-'' @ zpad 2 (int mo) @ ''-'' @ zpad 2 (int d) @ ''T'' @ zpad 2 (int h) @ '':''
        @ zpad 2 (int mi) @ '':'' @ zpad 2 (int se) @ ''Z'')"

definition format_datetime :: "faker_env \<Rightarrow> int \<Rightarrow> string" where
  "format_datetime env ms = civil_text (unwrap_or (fe_civil env ms) (fe_now env))"

definition timestamp_millis :: "int \<Rightarrow> int" where
  "timestamp_millis ns = ns div 1000000"

definition generate_datetime_with_bounds ::
  "faker_env \<Rightarrow> string option \<Rightarrow> string option \<Rightarrow> string gen" where
  "generate_datetime_with_bounds env mn mx =
     (let pick = (\<lambda>lo hi. gmap (format_datetime env) (rng_int lo hi));
          constant = ret ''2024-01-15T12:00:00Z''
      in case (Option.bind mn (parse_flexible env), Option.bind mx (parse_flexible env)) of
           (Some lo, Some hi) \<Rightarrow>
             if lo \<le> hi then pick (timestamp_millis lo) (timestamp_millis hi) else constant
         | (Some lo, None) \<Rightarrow>
             pick (timestamp_millis lo) (min (timestamp_millis lo + MS_PER_YEAR) i64_max)
         | (None, Some hi) \<Rightarrow>
             pick (max (timestamp_millis hi - MS_PER_YEAR) i64_min) (timestamp_millis hi)
         | (None, None) \<Rightarrow> constant)"

definition generate_datetime :: "faker_env \<Rightarrow> string gen" where
  "generate_datetime env = generate_datetime_with_bounds env None None"

definition generate_date_time_format :: "faker_env \<Rightarrow> generate_options option \<Rightarrow> string gen" where
  "generate_date_time_format env opts =
     (let mn = Option.bind opts go_min_date_time; mx = Option.bind opts go_max_date_time
      in if mn \<noteq> None \<or> mx \<noteq> None then generate_datetime_with_bounds env mn mx else generate_datetime env)"

definition ymd_text :: "int \<Rightarrow> int \<Rightarrow> int \<Rightarrow> string" where
  "ymd_text y m d = zpad 4 y @ ''-'' @ zpad 2 m @ ''-'' @ zpad 2 d"

definition hms_text :: "int \<Rightarrow> int \<Rightarrow> int \<Rightarrow> string" where
  "hms_text h m s = zpad 2 h @ '':'' @ zpad 2 m @ '':'' @ zpad 2 s"

definition generate_date :: "string gen" where
  "generate_date =
     gbind (rng_int 2000 2030) (\<lambda>y. gbind (rng_int 1 12) (\<lambda>m. gmap (ymd_text y m) (rng_int 1 28)))"

definition generate_time :: "string gen" where
  "generate_time =
     gbind (rng_int 0 23) (\<lambda>h. gbind (rng_int 0 59) (\<lambda>m. gmap (hms_text h m) (rng_int 0 59)))"

definition generate_duration :: "string gen" where
  "generate_duration =
     gbind (rng_int 0 5) (\<lambda>years. gbind (rng_int 0 11) (\<lambda>months. gmap (\<lambda>days.
       if 0 < years then ''P'' @ show_int years @ ''Y'' @ show_int months @ ''M'' @ show_int days @ ''D''
       else if 0 < months then ''P'' @ show_int months @ ''M'' @ show_int days @ ''D''
       else ''P'' @ show_int (max days 1) @ ''D'') (rng_int 0 30)))"

subsection \<open>\<open>pydantic_numeric.rs\<close>, \<open>pydantic_extras.rs\<close>\<close>

definition generate_negative_int :: "string gen" where
  "generate_negative_int = gmap (\<lambda>n. CHR ''-'' # show_int n) (rng_int 1 9999)"

definition generate_positive_int :: "string gen" where
  "generate_positive_int = gmap show_int (rng_int 1 9999)"

definition generate_nonnegative_int :: "string gen" where
  "generate_nonnegative_int = gmap show_int (rng_int 0 9999)"

definition generate_nonpositive_int :: "string gen" where
  "generate_nonpositive_int = gmap (\<lambda>n. if n = 0 then ''0'' else CHR ''-'' # show_int n) (rng_int 0 9999)"

definition generate_strict_int :: "string gen" where
  "generate_strict_int = gmap show_int (rng_int 0 9999999)"

definition generate_strict_bool :: "string gen" where
  "generate_strict_bool = gmap show_bool rng_bool"

definition generate_strict_float :: "string gen" where
  "generate_strict_float = gmap (show_fixed 2) (rng_float (Fin (-1000)) (Fin 1000))"

text \<open>Day 19737 is the anchor \<open>2024-01-15\<close>.\<close>

definition generate_condate :: "faker_env \<Rightarrow> string gen" where
  "generate_condate env =
     gmap (\<lambda>offset. case fe_date_of env (19737 + offset) of (y, m, d) \<Rightarrow> ymd_text y (int m) (int d))
       (rng_int (-3650) 3650)"

definition generate_condecimal :: "string gen" where
  "generate_condecimal =
     gbind (rng_int 0 99999) (\<lambda>whole. gbind (rng_int 2 4) (\<lambda>frac_digits.
       gmap (\<lambda>frac. show_int whole @ ''.'' @ zpad (nat frac_digits) frac)
         (rng_int 0 (10 ^ nat frac_digits - 1))))"

definition civil_draws :: "(int \<Rightarrow> int \<Rightarrow> int \<Rightarrow> int \<Rightarrow> int \<Rightarrow> int \<Rightarrow> string) \<Rightarrow> string gen" where
  "civil_draws text =
     gbind (rng_int 2000 2030) (\<lambda>y. gbind (rng_int 1 12) (\<lambda>mo. gbind (rng_int 1 28) (\<lambda>d.
     gbind (rng_int 0 23) (\<lambda>h. gbind (rng_int 0 59) (\<lambda>mi. gmap (text y mo d h mi) (rng_int 0 59))))))"

definition generate_aware_datetime :: "string gen" where
  "generate_aware_datetime =
     civil_draws (\<lambda>y mo d h mi se. ymd_text y mo d @ ''T'' @ hms_text h mi se @ ''+00:00'')"

definition generate_naive_datetime :: "string gen" where
  "generate_naive_datetime = civil_draws (\<lambda>y mo d h mi se. ymd_text y mo d @ ''T'' @ hms_text h mi se)"

definition capitalise :: "faker_env \<Rightarrow> string \<Rightarrow> string" where
  "capitalise env w = (case chars w of c # cs \<Rightarrow> fe_uppercase env c @ concat cs | [] \<Rightarrow> [])"

definition generate_name_email :: "faker_env \<Rightarrow> string gen" where
  "generate_name_email env =
     gbind generate_word (\<lambda>first. gbind generate_word (\<lambda>last. gmap (\<lambda>address.
       capitalise env first @ '' '' @ capitalise env last @ '' <'' @ address @ ''>'') generate_email))"

definition generate_json_string :: "string gen" where
  "generate_json_string =
     ret (''{'' @ [CHR 0x22] @ ''k'' @ [CHR 0x22] @ '':'' @ [CHR 0x22] @ ''v'' @ [CHR 0x22] @ ''}'')"

subsection \<open>\<open>mod.rs\<close>\<close>

definition generate_password :: "string gen" where
  "generate_password = pick_chars (lower_letters @ upper_letters @ digit_chars @ ''!@#$'') 12"

definition generate_byte :: "string gen" where
  "generate_byte =
     gbind (rng_int 6 24) (\<lambda>n.
       let input_len = nat n; base_chars = input_len div 3 * 4;
           (extra_chars, padding) =
             (if input_len mod 3 = 0 then (0, []) else if input_len mod 3 = 1 then (2, ''=='') else (3, ''=''))
       in gmap (\<lambda>s. s @ padding)
            (pick_chars (upper_letters @ lower_letters @ digit_chars @ ''+/'') (base_chars + extra_chars)))"

definition generate_base64_url :: "string gen" where
  "generate_base64_url =
     gbind (rng_int 8 16) (\<lambda>n.
       gtimes (nat n)
         (gmap (\<lambda>b. (upper_letters @ lower_letters @ digit_chars @ ''-_'') ! (unat b mod 64)) rng_byte))"

definition generate_binary :: "string gen" where
  "generate_binary = gbind (rng_int 4 16) (\<lambda>n. pick_chars ''0123456789abcdef'' (nat n * 2))"

definition generate_regex_string :: "string gen" where
  "generate_regex_string = pick_of [''[a-z]+'', ''[0-9]+'', bs ''w+'', ''.+'', ''[a-zA-Z0-9]+'']"

definition generate_regex_from_schema :: "json option \<Rightarrow> string gen" where
  "generate_regex_from_schema s =
     (case Option.bind s (\<lambda>v. str_at v ''pattern'') of Some p \<Rightarrow> ret p | None \<Rightarrow> generate_regex_string)"

definition generate_decimal :: "string gen" where
  "generate_decimal =
     gbind (rng_int 0 9999) (\<lambda>whole. gmap (\<lambda>frac. show_int whole @ ''.'' @ zpad 2 frac) (rng_int 0 99))"

definition generate_float_string :: "string gen" where
  "generate_float_string = gmap (show_fixed 4) (rng_float (Fin (-1000)) (Fin 1000))"

definition generate_int32_string :: "string gen" where
  "generate_int32_string = gmap show_int (rng_int (- (2 ^ 31)) (2 ^ 31 - 1))"

definition generate_int64_string :: "string gen" where
  "generate_int64_string = gmap show_int (rng_int (-1000000000) 1000000000)"

definition generate_slug :: "string gen" where
  "generate_slug =
     gbind (rng_int 2 4) (\<lambda>word_count.
       gmap (join ''-'')
         (gtimes (nat word_count) (gbind (rng_int 3 8) (\<lambda>n. pick_chars (lower_letters @ digit_chars) (nat n)))))"

definition generate_phone :: "string gen" where
  "generate_phone =
     gbind (pick_chars digit_chars 3) (\<lambda>area.
       gmap (\<lambda>num. ''+1-'' @ area @ ''-'' @ num) (pick_chars digit_chars 7))"

definition generate_hex_color :: "string gen" where
  "generate_hex_color = gmap (\<lambda>s. CHR ''#'' # s) (pick_chars ''0123456789ABCDEF'' 6)"

definition generate_short_word :: "string gen" where
  "generate_short_word = gbind (rng_int 4 10) (\<lambda>n. pick_chars lower_letters (nat n))"

section \<open>The dispatcher\<close>

definition known_formats :: "string list" where
  "known_formats =
    [''email'', ''idn-email'', ''uuid'', ''uuid1'', ''uuid3'', ''uuid4'', ''uuid5'', ''guid'', ''date-time'',
    ''datetime'', ''iso-date-time'', ''date'', ''iso-date'', ''full-date'', ''time'', ''partial-time'',
    ''uri'', ''url'', ''iri'', ''uri-reference'', ''iri-reference'', ''hostname'', ''idn-hostname'', ''ipv4'',
    ''ipv6'', ''json-pointer'', ''relative-json-pointer'', ''duration'', ''password'', ''byte'', ''base64url'',
    ''binary'', ''regex'', ''decimal'', ''float'', ''double'', ''int32'', ''int64'', ''slug'', ''phone'',
    ''color'', ''colour'', ''hex-color'', ''name'', ''full-name'', ''first-name'', ''given-name'',
    ''last-name'', ''family-name'', ''surname'', ''name-with-title'', ''title'', ''suffix'', ''company'',
    ''company-name'', ''company-suffix'', ''industry'', ''profession'', ''job-title'', ''job'',
    ''catch-phrase'', ''catchphrase'', ''buzzword'', ''bs-adjective'', ''bs-noun'', ''bs-verb'',
    ''street-name'', ''street'', ''building-number'', ''secondary-address'', ''city'', ''city-name'',
    ''state'', ''state-name'', ''state-abbr'', ''state-code'', ''zip'', ''zip-code'', ''postcode'',
    ''post-code'', ''country'', ''country-name'', ''country-code'', ''latitude'', ''lat'', ''longitude'',
    ''lng'', ''long'', ''lon'', ''timezone'', ''time-zone'', ''phone-number'', ''phonenumber'', ''username'',
    ''user-name'', ''mac'', ''mac-address'', ''macaddress'', ''user-agent'', ''useragent'', ''userAgent'',
    ''domain'', ''domain-name'', ''hostname-suffix'', ''free-email'', ''free-email-provider'', ''lorem-word'',
    ''word'', ''lorem-words'', ''words'', ''lorem-sentence'', ''sentence'', ''lorem-sentences'', ''sentences'',
    ''lorem-paragraph'', ''paragraph'', ''lorem-paragraphs'', ''paragraphs'', ''bic'', ''swift'', ''isin'',
    ''credit-card'', ''creditcard'', ''credit-card-number'', ''currency'', ''currency-code'',
    ''currency-name'', ''currency-symbol'', ''file-name'', ''filename'', ''file-extension'', ''extension'',
    ''file-path'', ''filepath'', ''path'', ''mime'', ''mime-type'', ''mimetype'', ''semver'',
    ''semantic-version'', ''version'', ''semver-stable'', ''semver-unstable'', ''boolean'', ''bool'', ''rgb'',
    ''rgb-color'', ''rgba'', ''rgba-color'', ''hsl'', ''hsl-color'', ''hsla'', ''hsla-color'', ''http-status'',
    ''status-code'', ''rfc-status-code'', ''valid-status-code'', ''isbn'', ''isbn10'', ''isbn-10'', ''isbn13'',
    ''isbn-13'', ''secret-str'', ''secret-bytes'', ''directory-path'', ''new-path'', ''negative-int'',
    ''positive-int'', ''nonnegative-int'', ''nonpositive-int'', ''strict-int'', ''strict-bool'',
    ''strict-float'', ''strict-str'', ''uri-template'', ''condate'', ''condecimal'', ''aware-datetime'',
    ''naive-datetime'', ''aware-date'', ''naive-date'', ''name-email'', ''json-string'']"

definition is_known_format :: "string \<Rightarrow> bool" where
  "is_known_format format \<longleftrightarrow> format \<in> set known_formats"

text \<open>\<open>invoke_format\<close>: the registered generator of a name, found in the global registry and run.\<close>

definition invoke_format :: "faker_env \<Rightarrow> string \<Rightarrow> json option gen" where
  "invoke_format env name =
     (\<lambda>g. (case Option.bind (fe_formats env (rg_clock g)) (\<lambda>reg. map_of reg name) of
             Some f \<Rightarrow> gmap Some f
           | None \<Rightarrow> ret None) (g\<lparr>rg_clock := rg_clock g + 1\<rparr>))"

text \<open>The arms of the dispatcher, in order.\<close>

definition builtin_formats ::
  "faker_env \<Rightarrow> json option \<Rightarrow> generate_options option \<Rightarrow> (string list \<times> string gen) list" where
  "builtin_formats env s opts =
    [([''email''], generate_email),
     ([''idn-email''], generate_idn_email),
     ([''uuid'', ''uuid1'', ''uuid3'', ''uuid4'', ''uuid5'', ''guid''], generate_uuid),
     ([''date-time'', ''datetime'', ''iso-date-time''], generate_date_time_format env opts),
     ([''date'', ''iso-date'', ''full-date''], generate_date),
     ([''time'', ''partial-time''], generate_time),
     ([''uri'', ''url'', ''uri-reference'', ''iri-reference''], generate_uri),
     ([''iri''], generate_iri),
     ([''hostname''], generate_hostname),
     ([''idn-hostname''], generate_idn_hostname),
     ([''ipv4''], generate_ipv4),
     ([''ipv6''], generate_ipv6),
     ([''json-pointer''], generate_json_pointer),
     ([''relative-json-pointer''], generate_relative_json_pointer),
     ([''duration''], generate_duration),
     ([''password''], generate_password),
     ([''byte''], generate_byte),
     ([''base64url''], generate_base64_url),
     ([''binary''], generate_binary),
     ([''regex''], generate_regex_from_schema s),
     ([''decimal''], generate_decimal),
     ([''float'', ''double''], generate_float_string),
     ([''int32''], generate_int32_string),
     ([''int64''], generate_int64_string),
     ([''slug''], generate_slug),
     ([''phone''], generate_phone),
     ([''hex-color''], generate_hex_color),
     ([''name'', ''full-name''], generate_full_name),
     ([''first-name'', ''given-name''], generate_first_name),
     ([''last-name'', ''family-name'', ''surname''], generate_last_name),
     ([''name-with-title''], generate_name_with_title),
     ([''title''], generate_title),
     ([''suffix''], generate_suffix),
     ([''company'', ''company-name''], generate_company_name),
     ([''company-suffix''], generate_company_suffix),
     ([''industry''], generate_industry),
     ([''profession'', ''job-title'', ''job''], generate_profession),
     ([''catch-phrase'', ''catchphrase''], generate_catch_phrase),
     ([''buzzword''], generate_buzzword),
     ([''bs-adjective''], generate_bs_adjective),
     ([''bs-noun''], generate_bs_noun),
     ([''bs-verb''], generate_bs_verb),
     ([''street-name'', ''street''], generate_street_name),
     ([''building-number''], generate_building_number),
     ([''secondary-address''], generate_secondary_address),
     ([''city'', ''city-name''], generate_city_name),
     ([''state'', ''state-name''], generate_state_name),
     ([''state-abbr'', ''state-code''], generate_state_abbr),
     ([''zip'', ''zip-code''], generate_zip_code),
     ([''postcode'', ''post-code''], generate_post_code),
     ([''country'', ''country-name''], generate_country_name),
     ([''country-code''], generate_country_code),
     ([''latitude'', ''lat''], generate_latitude),
     ([''longitude'', ''lng'', ''long'', ''lon''], generate_longitude),
     ([''timezone'', ''time-zone''], generate_time_zone),
     ([''phone-number'', ''phonenumber''], generate_phone_number),
     ([''username'', ''user-name''], generate_username),
     ([''mac'', ''mac-address'', ''macaddress''], generate_mac_address),
     ([''user-agent'', ''useragent'', ''userAgent''], generate_user_agent),
     ([''domain'', ''domain-name'', ''hostname-suffix''], generate_domain_suffix),
     ([''free-email''], generate_free_email),
     ([''free-email-provider''], generate_free_email_provider),
     ([''lorem-word'', ''word''], generate_word),
     ([''lorem-words'', ''words''], generate_words),
     ([''lorem-sentence'', ''sentence''], generate_sentence),
     ([''lorem-sentences'', ''sentences''], generate_sentences),
     ([''lorem-paragraph'', ''paragraph''], generate_paragraph),
     ([''lorem-paragraphs'', ''paragraphs''], generate_paragraphs),
     ([''bic'', ''swift''], generate_bic),
     ([''isin''], generate_isin),
     ([''credit-card'', ''creditcard'', ''credit-card-number''], generate_credit_card_number),
     ([''currency'', ''currency-code''], generate_currency_code),
     ([''currency-name''], generate_currency_name),
     ([''currency-symbol''], generate_currency_symbol),
     ([''file-name'', ''filename''], generate_file_name),
     ([''file-extension'', ''extension''], generate_file_extension),
     ([''file-path'', ''filepath'', ''path''], generate_file_path),
     ([''mime'', ''mime-type'', ''mimetype''], generate_mime_type),
     ([''semver'', ''semantic-version'', ''version''], generate_semver),
     ([''semver-stable''], generate_semver_stable),
     ([''semver-unstable''], generate_semver_unstable),
     ([''boolean'', ''bool''], gmap show_bool generate_boolean),
     ([''rgb'', ''rgb-color''], generate_rgb_color),
     ([''rgba'', ''rgba-color''], generate_rgba_color),
     ([''hsl'', ''hsl-color''], generate_hsl_color),
     ([''hsla'', ''hsla-color''], generate_hsla_color),
     ([''color'', ''colour''], generate_color),
     ([''http-status'', ''status-code'', ''rfc-status-code''], generate_rfc_status_code),
     ([''valid-status-code''], generate_valid_status_code),
     ([''isbn''], generate_isbn),
     ([''isbn10'', ''isbn-10''], generate_isbn10),
     ([''isbn13'', ''isbn-13''], generate_isbn13),
     ([''secret-str''], generate_password),
     ([''secret-bytes''], generate_byte),
     ([''directory-path''], generate_directory_path),
     ([''new-path''], generate_new_path),
     ([''negative-int''], generate_negative_int),
     ([''positive-int''], generate_positive_int),
     ([''nonnegative-int''], generate_nonnegative_int),
     ([''nonpositive-int''], generate_nonpositive_int),
     ([''strict-int''], generate_strict_int),
     ([''strict-bool''], generate_strict_bool),
     ([''strict-float''], generate_strict_float),
     ([''strict-str''], generate_short_word),
     ([''uri-template''], generate_uri_template),
     ([''condate'', ''aware-date'', ''naive-date''], generate_condate env),
     ([''condecimal''], generate_condecimal),
     ([''aware-datetime''], generate_aware_datetime),
     ([''naive-datetime''], generate_naive_datetime),
     ([''name-email''], generate_name_email env),
     ([''json-string''], generate_json_string)]"

definition builtin_format :: "faker_env \<Rightarrow> json option \<Rightarrow> generate_options option \<Rightarrow> string \<Rightarrow> string gen" where
  "builtin_format env s opts format =
     (case find (\<lambda>arm. format \<in> set (fst arm)) (builtin_formats env s opts) of
        Some arm \<Rightarrow> snd arm | None \<Rightarrow> generate_short_word)"

definition generate_for_format_with_options ::
  "faker_env \<Rightarrow> string \<Rightarrow> json option \<Rightarrow> generate_options option \<Rightarrow> string gen" where
  "generate_for_format_with_options env format s opts =
     gbind (invoke_format env format) (\<lambda>r.
       case r of Some (JStr v) \<Rightarrow> ret v | _ \<Rightarrow> builtin_format env s opts format)"

end
