(* ===== verification/FakeString.thy ===== *)
theory FakeString
  imports FakeFormats Validation
begin

text \<open>
  \<open>generators/string.rs\<close>: random strings by format, by pattern and by length. Patterns are sampled by
  \<open>rand_regex\<close> when it compiles them, else by the generator of this file, which reads them character by
  character; a character is the bytes of its encoding (\<open>chars\<close>).
\<close>

definition MAX_GENERATED_STRING_LENGTH :: nat where "MAX_GENERATED_STRING_LENGTH = 2 ^ 20"
definition MAX_GENERATED_ITEMS :: nat where "MAX_GENERATED_ITEMS = 2 ^ 16"
definition MAX_GENERATED_PROPERTIES :: nat where "MAX_GENERATED_PROPERTIES = 2 ^ 16"
definition MAX_REGEX_REPEAT :: nat where "MAX_REGEX_REPEAT = 1024"

section \<open>Compiled patterns\<close>

text \<open>
  The caches are those of the validator: a lookup answers what the compiler answers. Samplers of
  \<open>rand_regex\<close> are kept in a cache of their own; compiled means that the pattern can be sampled.
\<close>

definition cached_rand_regex :: "(string \<Rightarrow> bool) \<Rightarrow> string \<Rightarrow> bool str_map \<Rightarrow> bool \<times> bool str_map" where
  "cached_rand_regex compiles anchored cache =
     (if MAX_PATTERN_BYTES < length anchored then (False, cache)
      else (case map_of cache anchored of
              Some entry \<Rightarrow> (entry, cache)
            | None \<Rightarrow>
                (let cache' = (if REGEX_CACHE_CAPACITY \<le> length cache then [] else cache)
                 in (compiles anchored, (anchored, compiles anchored) # cache'))))"

definition rand_regex_of :: "(string \<Rightarrow> bool) \<Rightarrow> string \<Rightarrow> bool" where
  "rand_regex_of compiles anchored \<longleftrightarrow> length anchored \<le> MAX_PATTERN_BYTES \<and> compiles anchored"

definition rand_cache_inv :: "(string \<Rightarrow> bool) \<Rightarrow> bool str_map \<Rightarrow> bool" where
  "rand_cache_inv compiles cache \<longleftrightarrow> (\<forall>(p, e) \<in> set cache. e = rand_regex_of compiles p)"

interpretation rand_cache: memo_lookup "cached_rand_regex compiles" "rand_cache_inv compiles" "rand_regex_of compiles"
  for compiles :: "string \<Rightarrow> bool"
proof
  fix s :: "bool str_map" and k
  assume inv: "rand_cache_inv compiles s"
  then have hit: "map_of s k = Some e \<Longrightarrow> e = rand_regex_of compiles k" for e
    using map_of_SomeD [of s k e] by (auto simp: rand_cache_inv_def)
  show "fst (cached_rand_regex compiles k s) = rand_regex_of compiles k"
  proof (cases "map_of s k")
    case (Some e)
    then show ?thesis using hit [of e] by (simp add: cached_rand_regex_def rand_regex_of_def)
  qed (simp add: cached_rand_regex_def rand_regex_of_def Let_def)
  show "rand_cache_inv compiles (snd (cached_rand_regex compiles k s))"
    using inv by (auto simp: cached_rand_regex_def rand_cache_inv_def rand_regex_of_def Let_def split: option.split)
qed

definition anchor_pattern :: "string \<Rightarrow> string" where
  "anchor_pattern pattern =
     (if starts_with pattern ''^'' then [] else ''^'') @ pattern @ (if ends_with pattern ''$'' then [] else ''$'')"

definition matches_pattern_strict :: "compiler \<Rightarrow> string \<Rightarrow> string \<Rightarrow> bool" where
  "matches_pattern_strict rx pattern v =
     (let front = (if starts_with pattern ''^'' then pattern else ''^'' @ pattern);
          anchored = (if ends_with front ''$'' then front else front @ ''$'')
      in case regex_of rx anchored of Some re \<Rightarrow> re v | None \<Rightarrow> False)"

definition validate_pattern :: "compiler \<Rightarrow> string \<Rightarrow> string \<Rightarrow> bool" where
  "validate_pattern rx s pattern = (case regex_of rx pattern of Some re \<Rightarrow> re s | None \<Rightarrow> True)"

section \<open>Quantifiers\<close>

definition until_close :: "string list \<Rightarrow> (string list \<times> string list) option" where
  "until_close cs =
     (if ''}'' \<in> set cs then Some (takeWhile (\<lambda>c. c \<noteq> ''}'') cs, tl (dropWhile (\<lambda>c. c \<noteq> ''}'') cs)) else None)"

text \<open>The bounds between the braces: \<open>None\<close> for an empty one; nothing when the text is no quantifier.\<close>

definition quantifier_bounds :: "string \<Rightarrow> nat option list option" where
  "quantifier_bounds inner =
     (let parts = map trim (split_on (CHR '','') (trim inner));
          parsed = map (\<lambda>t. if t = [] then None else parse_usize t) parts
      in if list_all (\<lambda>t. t = [] \<or> parse_usize t \<noteq> None) parts \<and> list_ex (\<lambda>v. v \<noteq> None) parsed
         then Some parsed else None)"

definition rewrite_quantifier :: "string \<Rightarrow> nat option list \<Rightarrow> string \<times> bool" where
  "rewrite_quantifier inner bounds =
     (let mx = MAX_REGEX_REPEAT in
      case bounds of
        [Some n] \<Rightarrow> (''{'' @ show_nat (min n mx) @ ''}'', mx < n)
      | [Some lo, None] \<Rightarrow> (''{'' @ show_nat (min lo mx) @ '',}'', mx < lo)
      | [Some lo, Some hi] \<Rightarrow>
          (let lo_c = min lo mx; hi_c = max (min hi mx) lo_c
           in (''{'' @ show_nat lo_c @ '','' @ show_nat hi_c @ ''}'', mx < lo \<or> mx < hi))
      | _ \<Rightarrow> (''{'' @ inner @ ''}'', False))"

function clamp_quantifiers :: "string list \<Rightarrow> string \<times> bool" where
  "clamp_quantifiers [] = ([], False)"
| "clamp_quantifiers (ch # rest) =
     (let plain = (let (out, clamped) = clamp_quantifiers rest in (ch @ out, clamped))
      in if ch = [CHR 0x5C] \<and> rest \<noteq> [] then
           (let (out, clamped) = clamp_quantifiers (tl rest) in (ch @ hd rest @ out, clamped))
         else if ch = ''{'' then
           (case until_close rest of
              None \<Rightarrow> plain
            | Some (inner, after) \<Rightarrow>
                (case quantifier_bounds (concat inner) of
                   None \<Rightarrow> plain
                 | Some bounds \<Rightarrow>
                     (let (text, high) = rewrite_quantifier (concat inner) bounds;
                          (out, clamped) = clamp_quantifiers after
                      in (text @ out, high \<or> clamped))))
         else plain)"
  by pat_completeness auto
termination
proof (relation "measure length")
  fix ch rest x inner after
  assume "until_close rest = Some x" "(inner, after) = x"
  then have "after = tl (dropWhile (\<lambda>c. c \<noteq> ''}'') rest)" by (auto simp: until_close_def split: if_splits)
  then have "length after \<le> length rest" using length_dropWhile_le [of "\<lambda>c. c \<noteq> ''}''" rest] by simp
  then show "(after, ch # rest) \<in> measure length" by simp
qed auto

definition clamp_pattern_quantifiers :: "string \<Rightarrow> string \<times> bool" where
  "clamp_pattern_quantifiers pattern = clamp_quantifiers (chars pattern)"

definition repeat_text :: "string \<Rightarrow> nat \<Rightarrow> string" where
  "repeat_text unit n = concat (replicate n unit)"

definition capped_error :: "string \<Rightarrow> unit gen" where
  "capped_error quantifier =
     error_here (\<lambda>path. SchemaError path
       (''regex quantifier {'' @ quantifier @ ''} capped to '' @ show_nat MAX_REGEX_REPEAT @ '' for safety''))"

text \<open>The text for a unit and the quantifier in front of \<open>cs\<close>, with the number of characters consumed.\<close>

definition handle_quantifier :: "string list \<Rightarrow> string \<Rightarrow> (string \<times> nat) gen" where
  "handle_quantifier cs unit =
     (let repeated = (\<lambda>lo hi consumed. gmap (\<lambda>n. (repeat_text unit (nat n), consumed)) (rng_int lo hi)) in
      case cs of
        [] \<Rightarrow> ret (unit, 0)
      | c # rest \<Rightarrow>
          if c = ''*'' then repeated 0 5 1
          else if c = ''+'' then repeated 1 5 1
          else if c = ''?'' then repeated 0 1 1
          else if c = ''{'' then
            (case until_close rest of
               None \<Rightarrow> ret (unit, 0)
             | Some (inner_chars, after) \<Rightarrow>
                 (let inner = concat inner_chars; consumed = length inner_chars + 2 in
                  case split_once (CHR '','') inner of
                    Some (min_str, max_str) \<Rightarrow>
                      (let raw_min = unwrap_or (parse_usize (trim min_str)) 1;
                           open_max = min (raw_min + 5) usize_max;
                           raw_max = (if trim max_str = [] then open_max
                                      else unwrap_or (parse_usize (trim max_str)) open_max);
                           mn = min raw_min MAX_REGEX_REPEAT;
                           mx = max (min raw_max MAX_REGEX_REPEAT) mn
                       in gthen (gwhen (MAX_REGEX_REPEAT < raw_min \<or> MAX_REGEX_REPEAT < raw_max)
                                  (capped_error (show_nat raw_min @ '','' @ show_nat raw_max)))
                            (repeated (int mn) (int mx) consumed))
                  | None \<Rightarrow>
                      (let raw_exact = unwrap_or (parse_usize (trim inner)) 1
                       in gthen (gwhen (MAX_REGEX_REPEAT < raw_exact) (capped_error (show_nat raw_exact)))
                            (ret (repeat_text unit (min raw_exact MAX_REGEX_REPEAT), consumed)))))
          else ret (unit, 0))"

section \<open>Classes and groups\<close>

definition piece :: "char \<Rightarrow> string" where "piece c = [c]"

definition ascii_chars :: "string \<Rightarrow> string list" where
  "ascii_chars s = map piece s"

definition alphanumerics :: "string list" where
  "alphanumerics = ascii_chars (lower_letters @ upper_letters @ digit_chars)"

text \<open>\<open>start..=end\<close> over characters leaves out the surrogates.\<close>

definition char_range :: "string \<Rightarrow> string \<Rightarrow> string list" where
  "char_range a b =
     map encode_utf8 (filter (\<lambda>n. \<not> (0xD800 \<le> n \<and> n < 0xE000)) [code_point a ..< Suc (code_point b)])"

fun expand_class_items :: "string list \<Rightarrow> string list" where
  "expand_class_items (a # m # b # rest) =
     (if m = ''-'' then char_range a b @ expand_class_items rest
      else if a = [CHR 0x5C] then
        (if m = ''d'' then ascii_chars digit_chars
         else if m = ''w'' then alphanumerics @ [''_'']
         else if m = ''s'' then ['' ''] else [m]) @ expand_class_items (b # rest)
      else a # expand_class_items (m # b # rest))"
| "expand_class_items [a, m] =
     (if a = [CHR 0x5C] then
        (if m = ''d'' then ascii_chars digit_chars
         else if m = ''w'' then alphanumerics @ [''_'']
         else if m = ''s'' then ['' ''] else [m])
      else [a, m])"
| "expand_class_items [a] = [a]"
| "expand_class_items [] = []"

definition expand_char_class :: "string list \<Rightarrow> string list" where
  "expand_char_class class_chars =
     (let negated = (case class_chars of c # _ \<Rightarrow> c = ''^'' | [] \<Rightarrow> False);
          cs = expand_class_items (if negated then tl class_chars else class_chars)
      in if negated then filter (\<lambda>c. c \<notin> set cs) alphanumerics
         else if cs = [] then ascii_chars lower_letters else cs)"

definition pick_from_set :: "string list \<Rightarrow> string gen" where
  "pick_from_set cs = (if cs = [] then ret ''a'' else pick_char cs)"

text \<open>
  The index of the bracket that closes the one in front (the index of the last character when none
  does), and the slice between them: \<open>chars[i + 1..end]\<close> panics when the end lies before the start.
\<close>

fun group_end_from :: "nat \<Rightarrow> int \<Rightarrow> string list \<Rightarrow> nat option" where
  "group_end_from i depth [] = None"
| "group_end_from i depth (c # cs) =
     (if c = ''('' then group_end_from (Suc i) (depth + 1) cs
      else if c = '')'' then (if depth = 1 then Some i else group_end_from (Suc i) (depth - 1) cs)
      else group_end_from (Suc i) depth cs)"

definition find_group_end :: "string list \<Rightarrow> nat" where
  "find_group_end cs = unwrap_or (group_end_from 0 0 cs) (length cs - 1)"

definition find_class_end :: "string list \<Rightarrow> nat" where
  "find_class_end cs =
     (case cs of
        c # rest \<Rightarrow> if '']'' \<in> set rest then Suc (length (takeWhile (\<lambda>x. x \<noteq> '']'') rest)) else length cs - 1
      | [] \<Rightarrow> 0)"

definition between :: "string list \<Rightarrow> nat \<Rightarrow> string list run" where
  "between cs e = (if 1 \<le> e \<and> e \<le> length cs then Done (take (e - 1) (tl cs)) else Panic)"

fun split_alternatives :: "int \<Rightarrow> string list \<Rightarrow> string list \<Rightarrow> string list list" where
  "split_alternatives depth acc [] = [rev acc]"
| "split_alternatives depth acc (c # cs) =
     (if c = ''('' then split_alternatives (depth + 1) (c # acc) cs
      else if c = '')'' then split_alternatives (depth - 1) (c # acc) cs
      else if c = ''|'' \<and> depth = 0 then rev acc # split_alternatives depth [] cs
      else split_alternatives depth (c # acc) cs)"

definition split_alternation :: "string list \<Rightarrow> string list list" where
  "split_alternation cs = split_alternatives 0 [] cs"

lemma alternatives_length:
  "alt \<in> set (split_alternatives depth acc cs) \<Longrightarrow> length alt \<le> length acc + length cs"
  by (induction depth acc cs arbitrary: alt rule: split_alternatives.induct)
     (force split: if_splits)+

definition escape_unit :: "string \<Rightarrow> string gen" where
  "escape_unit escaped =
     (if escaped = ''d'' then pick_char (ascii_chars digit_chars)
      else if escaped = ''D'' then pick_char (ascii_chars lower_letters)
      else if escaped = ''w'' then pick_char (alphanumerics @ [''_''])
      else if escaped = ''W'' then
        pick_char (ascii_chars (''!@#$%^&*()-=+[]{}|;'' @ [CHR 0x27] @ '':'' @ [CHR 0x22] @ '',./<>?''))
      else if escaped = ''s'' then ret '' ''
      else if escaped = ''S'' then pick_char (ascii_chars lower_letters)
      else if escaped = ''n'' then ret [CHR 0x0A]
      else if escaped = ''t'' then ret [CHR 0x09]
      else ret escaped)"

lemma between_length: "between cs e = Done content \<Longrightarrow> length content < length cs"
  by (cases cs) (auto simp: between_def split: if_splits)

text \<open>
  A unit of the pattern (a group, a class, an escape, a dot, a character), its quantifier, then the rest
  of the pattern.
\<close>

function generate_from_pattern_inner :: "string list \<Rightarrow> string gen" where
  "generate_from_pattern_inner [] = ret []"
| "generate_from_pattern_inner (ch # rest) =
     (if ch = ''^'' \<or> ch = ''$'' then generate_from_pattern_inner rest
      else if ch = ''|'' then ret []
      else
        let (unit, after) =
          (if ch = ''('' then
             (case between (ch # rest) (find_group_end (ch # rest)) of
                Done content \<Rightarrow>
                  gbind (pick_index (length (split_alternation content))) (\<lambda>i.
                    if i < length (split_alternation content)
                    then generate_from_pattern_inner (split_alternation content ! i) else gpanic)
              | _ \<Rightarrow> gpanic,
              drop (find_group_end (ch # rest)) rest)
           else if ch = ''['' then
             (case between (ch # rest) (find_class_end (ch # rest)) of
                Done content \<Rightarrow> pick_from_set (expand_char_class content)
              | _ \<Rightarrow> gpanic,
              drop (find_class_end (ch # rest)) rest)
           else if ch = [CHR 0x5C] \<and> rest \<noteq> [] then (escape_unit (hd rest), tl rest)
           else if ch = ''.'' then (pick_char alphanumerics, rest)
           else (ret ch, rest))
        in gbind unit (\<lambda>u. gbind (handle_quantifier after u) (\<lambda>q.
             gmap (\<lambda>out. fst q @ out) (generate_from_pattern_inner (drop (snd q) after)))))"
  by pat_completeness auto
termination
proof (relation "measure length")
  fix ch rest content i
  assume "between (ch # rest) (find_group_end (ch # rest)) = Done content"
    and "i < length (split_alternation content)"
  then have "length (split_alternation content ! i) \<le> length content" "length content < length (ch # rest)"
    using alternatives_length [of "split_alternation content ! i" 0 "[]" content]
      between_length [of "ch # rest" _ content]
    by (auto simp: split_alternation_def)
  then show "(split_alternation content ! i, ch # rest) \<in> measure length" by simp
qed (auto split: if_splits)

declare generate_from_pattern_inner.simps [simp del]

section \<open>Strings from a pattern\<close>

definition strip_anchors :: "string \<Rightarrow> string" where
  "strip_anchors pattern =
     rev (dropWhile (\<lambda>c. c = CHR ''$'') (rev (dropWhile (\<lambda>c. c = CHR ''^'') pattern)))"

definition random_alphanumeric :: "nat \<Rightarrow> string gen" where
  "random_alphanumeric n = pick_chars (lower_letters @ upper_letters @ digit_chars) n"

definition try_rand_regex :: "faker_env \<Rightarrow> string \<Rightarrow> nat \<Rightarrow> nat \<Rightarrow> string option gen" where
  "try_rand_regex env pattern mn mx =
     (let anchored = anchor_pattern pattern in
      if \<not> rand_regex_of (fe_rand_regex env) anchored then ret None
      else gfirst 10
        (gmap (\<lambda>sample.
            let n = chars_count sample
            in if mn \<le> n \<and> n \<le> mx \<and> matches_pattern_strict (fe_regex env) pattern sample then Some sample else None)
          (sample_regex anchored)))"

definition generate_from_pattern :: "faker_env \<Rightarrow> string \<Rightarrow> nat \<Rightarrow> nat \<Rightarrow> string gen" where
  "generate_from_pattern env pattern min_length max_length =
     (let effective_max = (if max_length = 0 then usize_max else max_length);
          (safe_pattern, clamped_high) = clamp_pattern_quantifiers pattern;
          stripped = chars (strip_anchors safe_pattern)
      in gthen
          (gwhen clamped_high (error_here (\<lambda>path. SchemaError path
             (''regex quantifier in '' @ quoted pattern @ '' capped to '' @ show_nat MAX_REGEX_REPEAT @ '' for safety''))))
          (gbind (try_rand_regex env safe_pattern min_length effective_max) (\<lambda>r.
             case r of
               Some s \<Rightarrow> ret s
             | None \<Rightarrow>
                 gbind (gfirst 10 (gmap (\<lambda>result.
                     let n = chars_count result
                     in if min_length \<le> n \<and> n \<le> effective_max
                           \<and> matches_pattern_strict (fe_regex env) safe_pattern result
                        then Some result else None) (generate_from_pattern_inner stripped)))
                   (\<lambda>r. case r of
                      Some s \<Rightarrow> ret s
                    | None \<Rightarrow>
                        gbind (generate_from_pattern_inner stripped) (\<lambda>result.
                          let cs = chars result; n = length cs
                          in if effective_max < n \<and> 0 < effective_max \<and> effective_max < usize_max
                             then ret (concat (take effective_max cs))
                             else if n < min_length
                             then gmap (\<lambda>extra. result @ extra) (random_alphanumeric (min_length - n))
                             else ret result)))))"

function pad_matching :: "compiler \<Rightarrow> string \<Rightarrow> nat \<Rightarrow> nat \<Rightarrow> nat \<Rightarrow> string \<Rightarrow> string option gen" where
  "pad_matching rx pattern mn mx budget candidate =
     (if chars_count candidate < mn \<and> 0 < budget then
        gbind (pick_char (lower_letters @ upper_letters @ digit_chars)) (\<lambda>c.
          let next = candidate @ [c]
          in if mx < chars_count next then ret None
             else if matches_pattern_strict rx pattern next
             then pad_matching rx pattern mn mx (budget - 1) next
             else ret None)
      else ret (if mn \<le> chars_count candidate \<and> chars_count candidate \<le> mx
                   \<and> matches_pattern_strict rx pattern candidate
                then Some candidate else None))"
  by pat_completeness auto
termination
  by (relation "measure (\<lambda>(rx, pattern, mn, mx, budget, candidate). budget)") auto

declare pad_matching.simps [simp del]

definition pad_pattern_output :: "compiler \<Rightarrow> string \<Rightarrow> string \<Rightarrow> nat \<Rightarrow> nat \<Rightarrow> string option gen" where
  "pad_pattern_output rx base pattern mn mx =
     (if mx < mn then ret None else pad_matching rx pattern mn mx (mn + 64) base)"

section \<open>Strings\<close>

definition pad_or_trim :: "string \<Rightarrow> nat \<Rightarrow> nat \<Rightarrow> string gen" where
  "pad_or_trim s mn mx =
     (let cs = chars s; n = length cs
      in if mn \<le> n \<and> n \<le> mx then ret s
         else if mx < n then ret (concat (take mx cs))
         else gmap (\<lambda>extra. s @ extra) (random_alphanumeric (mn - n)))"

definition schema_example_string :: "json \<Rightarrow> string option" where
  "schema_example_string s =
     or_else (str_at s ''example'') (find_map as_str (unwrap_or (arr_at s ''examples'') []))"

definition count_char :: "char \<Rightarrow> string \<Rightarrow> nat" where
  "count_char c s = length (filter (\<lambda>x. x = c) s)"

definition format_output_looks_like :: "string \<Rightarrow> string \<Rightarrow> bool" where
  "format_output_looks_like format v =
     (if format \<in> set [''email'', ''idn-email'', ''free-email''] then CHR ''@'' \<in> set v
      else if format \<in> set [''uri'', ''url'', ''iri'', ''uri-reference'', ''iri-reference'']
      then CHR '':'' \<in> set v \<or> starts_with v ''/''
      else if format \<in> set [''uuid'', ''uuid1'', ''uuid3'', ''uuid4'', ''uuid5'', ''guid'']
      then 4 \<le> count_char (CHR ''-'') v \<and> 32 \<le> length v
      else if format = ''ipv4'' then length (split_on (CHR ''.'') v) = 4
      else if format = ''ipv6'' then CHR '':'' \<in> set v
      else if format \<in> set [''hostname'', ''idn-hostname'', ''domain'', ''domain-name''] then CHR ''.'' \<in> set v
      else if format \<in> set [''date'', ''iso-date'', ''full-date''] then 2 \<le> count_char (CHR ''-'') v
      else if format \<in> set [''time'', ''partial-time''] then CHR '':'' \<in> set v
      else if format \<in> set [''date-time'', ''datetime'', ''iso-date-time'']
      then CHR ''T'' \<in> set v \<or> CHR '' '' \<in> set v
      else if format = ''json-pointer'' then starts_with v ''/'' \<or> v = []
      else if format = ''hex-color'' then starts_with v ''#''
      else True)"

definition length_cap_error :: "string \<Rightarrow> nat \<Rightarrow> unit gen" where
  "length_cap_error keyword raw =
     gwhen (MAX_GENERATED_STRING_LENGTH < raw) (error_here (\<lambda>path. SchemaError path
       (''string keyword '' @ keyword @ ''='' @ show_nat raw @ '' capped to ''
        @ show_nat MAX_GENERATED_STRING_LENGTH @ '' for safety'')))"

text \<open>A value of a known format, of the wanted length when the schema gives one.\<close>

definition sized_format :: "faker_env \<Rightarrow> json \<Rightarrow> generate_options \<Rightarrow> string \<Rightarrow> nat \<Rightarrow> nat option \<Rightarrow> nat \<Rightarrow> string gen" where
  "sized_format env s opts format mn max_opt safe_max =
     gbind (generate_for_format_with_options env format (Some s) (Some opts)) (\<lambda>v.
       if max_opt = None \<and> mn = 0 then ret v else pad_or_trim v mn safe_max)"

definition unknown_format :: "generate_options \<Rightarrow> string \<Rightarrow> unit gen" where
  "unknown_format opts format =
     gwhen (go_fail_on_invalid_format opts) (error_here (UnknownRegistryKey format))"

definition format_and_pattern ::
  "faker_env \<Rightarrow> json \<Rightarrow> generate_options \<Rightarrow> string \<Rightarrow> string \<Rightarrow> nat \<Rightarrow> nat option \<Rightarrow> nat \<Rightarrow> string gen" where
  "format_and_pattern env s opts format pattern mn max_opt safe_max =
     (if format = ''regex'' then generate_for_format_with_options env format (Some s) (Some opts)
      else
        gbind (sized_format env s opts format mn max_opt safe_max) (\<lambda>format_value.
        gbind (generate_from_pattern env pattern mn safe_max) (\<lambda>pattern_value.
          if matches_pattern_strict (fe_regex env) pattern format_value then ret format_value
          else if format_output_looks_like format pattern_value then ret pattern_value
          else gthen
                (error_here (\<lambda>path. SchemaError path
                   (''format '' @ quoted format @ '' output doesn'' @ [CHR 0x27] @ ''t match pattern '' @ quoted pattern)))
                (ret pattern_value))))"

definition string_of_pattern :: "faker_env \<Rightarrow> json \<Rightarrow> string \<Rightarrow> nat \<Rightarrow> nat \<Rightarrow> string gen" where
  "string_of_pattern env s pattern mn safe_max =
     gbind (generate_from_pattern env pattern mn safe_max) (\<lambda>v.
       let n = chars_count v; in_range = (mn \<le> n \<and> n \<le> safe_max);
           ok = matches_pattern_strict (fe_regex env) pattern v;
           give_up = (if \<not> in_range \<or> \<not> ok then
                        (case schema_example_string s of
                           Some example \<Rightarrow> ret example
                         | None \<Rightarrow>
                             gthen (error_here (\<lambda>path. SchemaError path ''Given sample does not match schema'')) (ret v))
                      else ret v)
       in if \<not> in_range \<and> ok \<and> n < mn then
            gbind (pad_pattern_output (fe_regex env) v pattern mn safe_max) (\<lambda>r.
              case r of Some padded \<Rightarrow> ret padded | None \<Rightarrow> give_up)
          else give_up)"

definition plain_string :: "nat \<Rightarrow> nat \<Rightarrow> string gen" where
  "plain_string mn safe_max =
     gbind (if mn = safe_max then ret (int mn) else rng_int (int mn) (int safe_max)) (\<lambda>n.
       if safe_max = 0 \<and> mn = 0 then ret [] else random_alphanumeric (max (nat n) 1))"

definition generate_string :: "faker_env \<Rightarrow> json \<Rightarrow> generate_options \<Rightarrow> json gen" where
  "generate_string env s opts =
     (let raw_min = unwrap_or (u64_at s ''minLength'') 0; raw_max = u64_at s ''maxLength'';
          mn = min raw_min MAX_GENERATED_STRING_LENGTH;
          max_opt = map_option (\<lambda>v. min v MAX_GENERATED_STRING_LENGTH) raw_max;
          safe_max = max (unwrap_or max_opt 20) mn;
          by_pattern = (case str_at s ''pattern'' of
                          Some pattern \<Rightarrow> string_of_pattern env s pattern mn safe_max
                        | None \<Rightarrow> plain_string mn safe_max);
          by_format = (case str_at s ''format'' of
                         Some format \<Rightarrow>
                           if is_known_format format then sized_format env s opts format mn max_opt safe_max
                           else gthen (unknown_format opts format) by_pattern
                       | None \<Rightarrow> by_pattern)
      in gmap JStr
          (gthen (length_cap_error ''minLength'' raw_min)
          (gthen (case raw_max of Some v \<Rightarrow> length_cap_error ''maxLength'' v | None \<Rightarrow> ret ())
          (case (str_at s ''format'', str_at s ''pattern'') of
             (Some format, Some pattern) \<Rightarrow>
               if is_known_format format then format_and_pattern env s opts format pattern mn max_opt safe_max
               else gthen (unknown_format opts format) by_format
           | _ \<Rightarrow> by_format))))"

end
