(* ===== verification/FakeChecks.thy ===== *)
theory FakeChecks
  imports FakeString StaticFacts
begin

text \<open>
  \<open>schema_walker.rs\<close>, the part that decides without generating: the type a schema asks for, the values that
  satisfy its simple constraints, the narrowing of enumerations, contradictions between schemas, aliases,
  the options of a node, the value at the depth limit, and the keys a schema evaluates.
\<close>

section \<open>The marker of a cut branch\<close>

definition CHASM_SKIP_KEY :: string where "CHASM_SKIP_KEY = ''__chasm_skip''"

definition is_skip_sentinel :: "json \<Rightarrow> bool" where
  "is_skip_sentinel v =
     (case v of JObj m \<Rightarrow> length m = 1 \<and> contains_key m CHASM_SKIP_KEY | _ \<Rightarrow> False)"

definition skip_sentinel :: json where
  "skip_sentinel = JObj [(CHASM_SKIP_KEY, JBool True)]"

section \<open>Types\<close>

definition json_types :: "string list" where
  "json_types = [''string'', ''number'', ''integer'', ''boolean'', ''null'', ''array'', ''object'']"

definition type_str_to_static :: "string \<Rightarrow> string" where
  "type_str_to_static t = (if t \<in> set json_types then t else ''unknown'')"

definition has_any :: "json \<Rightarrow> string list \<Rightarrow> bool" where
  "has_any s ks \<longleftrightarrow> list_ex (has s) ks"

definition infer_type :: "json \<Rightarrow> string" where
  "infer_type s =
     (case json_get s ''type'' of
        Some (JStr t) \<Rightarrow> type_str_to_static t
      | Some (JArr _) \<Rightarrow> ''multi''
      | _ \<Rightarrow>
          if has_any s [''properties'', ''required'', ''additionalProperties'', ''patternProperties'',
                        ''minProperties'', ''maxProperties''] then ''object''
          else if has_any s [''items'', ''prefixItems'', ''minItems'', ''maxItems''] then ''array''
          else if has_any s [''minLength'', ''maxLength'', ''pattern'', ''format''] then ''string''
          else if has_any s [''minimum'', ''maximum'', ''exclusiveMinimum'', ''exclusiveMaximum'', ''multipleOf'']
          then ''number''
          else ''unknown'')"

definition actual_type :: "json \<Rightarrow> string" where
  "actual_type v =
     (case v of
        JNull \<Rightarrow> ''null'' | JBool _ \<Rightarrow> ''boolean'' | JStr _ \<Rightarrow> ''string'' | JArr _ \<Rightarrow> ''array''
      | JObj _ \<Rightarrow> ''object'' | JNum (JInt _) \<Rightarrow> ''integer'' | JNum (JFloat _) \<Rightarrow> ''number'')"

definition value_has_type :: "json \<Rightarrow> json \<Rightarrow> bool" where
  "value_has_type v type_val =
     (let actual = actual_type v; ok = (\<lambda>s. s = actual \<or> s = ''number'' \<and> actual = ''integer'')
      in case type_val of
           JStr s \<Rightarrow> ok s
         | JArr arr \<Rightarrow> list_ex (\<lambda>t. case as_str t of Some s \<Rightarrow> ok s | None \<Rightarrow> False) arr
         | _ \<Rightarrow> False)"

definition not_schema_is_checkable :: "json \<Rightarrow> bool" where
  "not_schema_is_checkable not_schema \<longleftrightarrow> has_any not_schema [''const'', ''enum'', ''type'']"

definition value_matches_not_schema :: "json \<Rightarrow> json \<Rightarrow> bool" where
  "value_matches_not_schema v not_schema \<longleftrightarrow>
     (case json_get not_schema ''const'' of Some c \<Rightarrow> v = c | None \<Rightarrow> True)
     \<and> (case arr_at not_schema ''enum'' of Some vs \<Rightarrow> v \<in> set vs | None \<Rightarrow> True)
     \<and> (case json_get not_schema ''type'' of Some t \<Rightarrow> value_has_type v t | None \<Rightarrow> True)"

section \<open>Simple constraints\<close>

definition satisfies_type :: "json \<Rightarrow> string \<Rightarrow> bool" where
  "satisfies_type v t =
     (if t = ''string'' then as_str v \<noteq> None
      else if t = ''number'' then is_number v
      else if t = ''integer'' then
        (case v of JNum (JInt _) \<Rightarrow> True | JNum (JFloat f) \<Rightarrow> f_eq (f_fract f) (Fin 0) | _ \<Rightarrow> False)
      else if t = ''boolean'' then as_bool v \<noteq> None
      else if t = ''null'' then v = JNull
      else if t = ''array'' then as_array v \<noteq> None
      else if t = ''object'' then as_object v \<noteq> None
      else True)"

definition upto :: "'a option \<Rightarrow> ('a \<Rightarrow> bool) \<Rightarrow> bool" where
  "upto x p \<longleftrightarrow> (case x of Some y \<Rightarrow> p y | None \<Rightarrow> True)"

definition satisfies_numeric :: "f64 \<Rightarrow> json \<Rightarrow> bool" where
  "satisfies_numeric n s \<longleftrightarrow>
     upto (f64_at s ''minimum'') (\<lambda>mn. \<not> f_lt n mn)
     \<and> upto (f64_at s ''maximum'') (\<lambda>mx. \<not> f_lt mx n)
     \<and> upto (f64_at s ''exclusiveMinimum'') (\<lambda>mn. \<not> f_le n mn)
     \<and> upto (f64_at s ''exclusiveMaximum'') (\<lambda>mx. \<not> f_le mx n)
     \<and> upto (f64_at s ''multipleOf'') (\<lambda>m. f_eq m (Fin 0)
          \<or> (let q = f_div n m in \<not> f_lt (round64 (1 / 10 ^ 9)) (f_abs (f_sub q (f_round q)))))"

definition satisfies_text :: "compiler \<Rightarrow> string \<Rightarrow> json \<Rightarrow> bool" where
  "satisfies_text rx t s \<longleftrightarrow>
     upto (u64_at s ''minLength'') (\<lambda>mn. mn \<le> chars_count t)
     \<and> upto (u64_at s ''maxLength'') (\<lambda>mx. chars_count t \<le> mx)
     \<and> upto (str_at s ''pattern'') (\<lambda>pat. case rx pat of Some re \<Rightarrow> re t | None \<Rightarrow> True)"

definition satisfies_scalar :: "compiler \<Rightarrow> json \<Rightarrow> json \<Rightarrow> bool" where
  "satisfies_scalar rx v s \<longleftrightarrow>
     upto (json_get s ''const'') (\<lambda>c. c = v)
     \<and> upto (arr_at s ''enum'') (\<lambda>vs. v \<in> set vs)
     \<and> upto (str_at s ''type'') (satisfies_type v)
     \<and> upto (as_f64 v) (\<lambda>n. satisfies_numeric n s)
     \<and> upto (as_str v) (\<lambda>t. satisfies_text rx t s)"

lemma json_get_eq: "json_get s k = Some v \<longleftrightarrow> (\<exists>m. s = JObj m \<and> map_of m k = Some v)"
  by (cases s) (simp_all add: json_get_def as_object_def)

lemma json_get_size: "json_get s k = Some v \<Longrightarrow> size v < size s"
  unfolding json_get_eq using map_of_SomeD size_obj_entry by fastforce

lemma obj_at_eq: "obj_at s k = Some m \<longleftrightarrow> json_get s k = Some (JObj m)"
  by (cases "json_get s k") (simp_all add: obj_at_def as_object_eq)

lemma arr_at_eq: "arr_at s k = Some xs \<longleftrightarrow> json_get s k = Some (JArr xs)"
  by (cases "json_get s k") (simp_all add: arr_at_def as_array_eq)

lemma str_at_eq: "str_at s k = Some t \<longleftrightarrow> json_get s k = Some (JStr t)"
  by (cases "json_get s k") (simp_all add: str_at_def as_str_eq)

lemma obj_at_entry_size: "obj_at s k = Some m \<Longrightarrow> e \<in> set m \<Longrightarrow> size (snd e) < size s"
  using json_get_size [of s k "JObj m"] size_obj_entry [of e m] by (simp add: obj_at_eq)

function value_satisfies_simple_constraints :: "compiler \<Rightarrow> json \<Rightarrow> json \<Rightarrow> bool" where
  "value_satisfies_simple_constraints rx v s =
     (satisfies_scalar rx v s
      \<and> (let props = unwrap_or (obj_at s ''properties'') []; req = unwrap_or (arr_at s ''required'') [] in
         if props = [] \<and> req = [] then True
         else
           (case as_object v of
              None \<Rightarrow> False
            | Some m \<Rightarrow>
                list_all (\<lambda>e. case map_of m (fst e) of
                                 Some pv \<Rightarrow> value_satisfies_simple_constraints rx pv (snd e)
                               | None \<Rightarrow> True) props
                \<and> list_all (\<lambda>r. case as_str r of Some name \<Rightarrow> contains_key m name | None \<Rightarrow> True) req)))"
  by pat_completeness auto
termination
proof (relation "measure (\<lambda>(rx, v, s). size s)")
  fix rx :: compiler and v s :: json and props and req :: "json list" and m pv and e :: "string \<times> json"
  assume "props = unwrap_or (obj_at s ''properties'') []" and "e \<in> set props"
  then show "((rx, pv, snd e), rx, v, s) \<in> measure (\<lambda>(rx, v, s). size s)"
    by (cases "obj_at s ''properties''") (auto simp: obj_at_entry_size)
qed auto

declare value_satisfies_simple_constraints.simps [simp del]

section \<open>Enumerations\<close>

definition some_unless_empty :: "'a list \<Rightarrow> 'a list option" where
  "some_unless_empty xs = (if xs = [] then None else Some xs)"

definition filter_enum_for_one_of :: "compiler \<Rightarrow> json \<Rightarrow> json list option" where
  "filter_enum_for_one_of rx s =
     (case (arr_at s ''enum'', arr_at s ''oneOf'') of
        (Some enum_arr, Some one_of) \<Rightarrow>
          if enum_arr = [] \<or> one_of = [] then None
          else some_unless_empty (filter (\<lambda>v.
                 length (filter (value_satisfies_simple_constraints rx v) one_of) = 1
                 \<and> value_satisfies_simple_constraints rx v s) enum_arr)
      | _ \<Rightarrow> None)"

definition filter_enum_for_any_of :: "compiler \<Rightarrow> json \<Rightarrow> json list option" where
  "filter_enum_for_any_of rx s =
     (case (arr_at s ''enum'', arr_at s ''anyOf'') of
        (Some enum_arr, Some any_of) \<Rightarrow>
          if enum_arr = [] \<or> any_of = [] then None
          else some_unless_empty (filter (\<lambda>v.
                 list_ex (value_satisfies_simple_constraints rx v) any_of
                 \<and> value_satisfies_simple_constraints rx v s) enum_arr)
      | _ \<Rightarrow> None)"

definition filter_enum_by_outer_constraints :: "compiler \<Rightarrow> json \<Rightarrow> json list option" where
  "filter_enum_by_outer_constraints rx s =
     (case arr_at s ''enum'' of
        Some enum_arr \<Rightarrow>
          if has_any s [''minimum'', ''maximum'', ''exclusiveMinimum'', ''exclusiveMaximum'', ''multipleOf'',
                        ''minLength'', ''maxLength'', ''pattern'']
          then some_unless_empty (filter (\<lambda>v. value_satisfies_simple_constraints rx v s) enum_arr)
          else None
      | None \<Rightarrow> None)"

definition generate_enum :: "json \<Rightarrow> json gen" where
  "generate_enum s =
     (case arr_at s ''enum'' of
        Some variants \<Rightarrow> if variants = [] then ret JNull else pick_of variants
      | None \<Rightarrow> ret JNull)"

definition generate_const :: "json \<Rightarrow> json" where
  "generate_const s = unwrap_or (json_get s ''const'') JNull"

section \<open>Contradictions\<close>

definition both :: "'a option \<Rightarrow> 'b option \<Rightarrow> ('a \<Rightarrow> 'b \<Rightarrow> bool) \<Rightarrow> bool" where
  "both x y p \<longleftrightarrow> (case (x, y) of (Some a, Some b) \<Rightarrow> p a b | _ \<Rightarrow> False)"

definition numeric_range_contradicts :: "json \<Rightarrow> json \<Rightarrow> bool" where
  "numeric_range_contradicts a b \<longleftrightarrow>
     both (f64_at a ''minimum'') (f64_at b ''maximum'') (\<lambda>lo hi. f_lt hi lo)
     \<or> both (f64_at a ''exclusiveMinimum'') (f64_at b ''maximum'') (\<lambda>lo hi. f_le hi lo)
     \<or> both (f64_at a ''minimum'') (f64_at b ''exclusiveMaximum'') (\<lambda>lo hi. f_le hi lo)
     \<or> both (f64_at a ''exclusiveMinimum'') (f64_at b ''exclusiveMaximum'') (\<lambda>lo hi. f_le hi lo)"

definition length_range_contradicts :: "json \<Rightarrow> json \<Rightarrow> bool" where
  "length_range_contradicts a b \<longleftrightarrow> both (u64_at a ''minLength'') (u64_at b ''maxLength'') (\<lambda>lo hi. hi < lo)"

definition type_clash :: "json \<Rightarrow> json \<Rightarrow> bool" where
  "type_clash a b \<longleftrightarrow>
     both (str_at a ''type'') (str_at b ''type'') (\<lambda>ta tb.
       ta \<noteq> tb \<and> \<not> (ta = ''number'' \<and> tb = ''integer'') \<and> \<not> (ta = ''integer'' \<and> tb = ''number''))"

text \<open>Two schemas of one property that fix its value differently.\<close>

definition values_clash :: "json \<Rightarrow> json \<Rightarrow> bool" where
  "values_clash a b \<longleftrightarrow>
     both (json_get a ''const'') (json_get b ''const'') (\<lambda>ca cb. ca \<noteq> cb)
     \<or> both (arr_at a ''enum'') (arr_at b ''enum'') (\<lambda>ea eb. list_all (\<lambda>v. v \<notin> set eb) ea)
     \<or> both (json_get a ''const'') (arr_at b ''enum'') (\<lambda>c arr. c \<notin> set arr)
     \<or> both (arr_at a ''enum'') (json_get b ''const'') (\<lambda>arr c. c \<notin> set arr)"

definition schemas_contradict :: "json \<Rightarrow> json \<Rightarrow> bool" where
  "schemas_contradict a b \<longleftrightarrow>
     type_clash a b
     \<or> numeric_range_contradicts a b \<or> numeric_range_contradicts b a
     \<or> length_range_contradicts a b \<or> length_range_contradicts b a
     \<or> both (obj_at a ''properties'') (obj_at b ''properties'') (\<lambda>pa pb.
          list_ex (\<lambda>(key, sub_b). case map_of pa key of Some sub_a \<Rightarrow> values_clash sub_a sub_b | None \<Rightarrow> False) pb)"

definition if_schema_evaluates_true_for :: "compiler \<Rightarrow> json \<Rightarrow> json \<Rightarrow> bool" where
  "if_schema_evaluates_true_for rx v if_schema = value_satisfies_simple_constraints rx v if_schema"

section \<open>Rewriting a schema\<close>

definition names_at :: "json \<Rightarrow> string \<Rightarrow> string list" where
  "names_at s k = List.map_filter as_str (unwrap_or (arr_at s k) [])"

definition keys_at :: "json \<Rightarrow> string \<Rightarrow> string list" where
  "keys_at s k = map fst (unwrap_or (obj_at s k) [])"

definition is_false_at :: "json \<Rightarrow> string \<Rightarrow> bool" where
  "is_false_at s k \<longleftrightarrow> bool_at s k = Some False"

text \<open>\<open>m.remove(k)\<close> on a schema that may not be an object.\<close>

definition without :: "string list \<Rightarrow> json \<Rightarrow> json" where
  "without ks s = (case s of JObj m \<Rightarrow> JObj (filter (\<lambda>e. fst e \<notin> set ks) m) | v \<Rightarrow> v)"

definition set_key :: "string \<Rightarrow> json \<Rightarrow> json \<Rightarrow> json" where
  "set_key k v s = (case s of JObj m \<Rightarrow> JObj (obj_insert k v m) | x \<Rightarrow> x)"

definition update_key :: "string \<Rightarrow> (json \<Rightarrow> json) \<Rightarrow> obj \<Rightarrow> obj" where
  "update_key k f m = map (\<lambda>(k', v). (k', if k' = k then f v else v)) m"

definition merge_with_constraint :: "json \<Rightarrow> json \<Rightarrow> json" where
  "merge_with_constraint base overlay = deep_merge base overlay"

definition merged_has_composition :: "json \<Rightarrow> bool" where
  "merged_has_composition s \<longleftrightarrow> has_any s [''oneOf'', ''anyOf'', ''if'']"

definition keys_to_prune :: "json \<Rightarrow> json \<Rightarrow> string \<Rightarrow> json list \<Rightarrow> nat \<Rightarrow> string list" where
  "keys_to_prune merged original keyword subs chosen_idx =
     (let chosen = (if chosen_idx < length subs then Some (subs ! chosen_idx) else None);
          chosen_required = (case chosen of Some c \<Rightarrow> names_at c ''required'' | None \<Rightarrow> []);
          base_required = names_at original ''required'';
          others = concat (map (\<lambda>(i, sub). if i = chosen_idx then [] else names_at sub ''required'')
                               (enumerate 0 subs));
          forbidden = (case Option.bind chosen (\<lambda>c. json_get c ''not'') of
                         Some n \<Rightarrow> names_at n ''required'' | None \<Rightarrow> [])
      in (if is_false_at merged ''additionalProperties'' \<or> keyword = ''oneOf''
          then filter (\<lambda>k. k \<notin> set chosen_required \<and> k \<notin> set base_required) others else [])
         @ filter (\<lambda>k. k \<notin> set base_required) forbidden)"

definition prune_properties :: "string list \<Rightarrow> json \<Rightarrow> json" where
  "prune_properties ks s =
     (case s of
        JObj m \<Rightarrow>
          JObj (update_key ''required''
                 (\<lambda>v. case v of
                    JArr req \<Rightarrow> JArr (filter (\<lambda>r. case as_str r of Some k \<Rightarrow> k \<notin> set ks | None \<Rightarrow> True) req)
                  | x \<Rightarrow> x)
                 (update_key ''properties'' (without ks) m))
      | x \<Rightarrow> x)"

definition apply_exclusivity_pruning :: "json \<Rightarrow> json \<Rightarrow> string \<Rightarrow> nat \<Rightarrow> json" where
  "apply_exclusivity_pruning merged original keyword chosen_idx =
     (case arr_at original keyword of
        None \<Rightarrow> merged
      | Some subs \<Rightarrow>
          (let to_prune = keys_to_prune merged original keyword subs chosen_idx
           in if to_prune = [] then merged else prune_properties to_prune merged))"

definition is_not_only_keyword :: "json \<Rightarrow> bool" where
  "is_not_only_keyword s \<longleftrightarrow>
     as_object s \<noteq> None
     \<and> \<not> has_any s [''type'', ''properties'', ''required'', ''items'', ''allOf'', ''anyOf'', ''oneOf'', ''enum'',
          ''const'', ''minLength'', ''maxLength'', ''pattern'', ''format'', ''minimum'', ''maximum'',
          ''exclusiveMinimum'', ''exclusiveMaximum'', ''multipleOf'', ''minItems'', ''maxItems'', ''uniqueItems'']"

definition SCHEMA_KEYWORDS :: "string list" where
  "SCHEMA_KEYWORDS =
     [''$ref'', ''$defs'', ''$id'', ''$schema'', ''$anchor'', ''$vocabulary'', ''definitions'', ''type'',
      ''properties'', ''required'', ''additionalProperties'', ''patternProperties'', ''minProperties'',
      ''maxProperties'', ''dependencies'', ''dependentRequired'', ''dependentSchemas'', ''items'',
      ''prefixItems'', ''additionalItems'', ''unevaluatedItems'', ''minItems'', ''maxItems'', ''uniqueItems'',
      ''contains'', ''minContains'', ''maxContains'', ''minLength'', ''maxLength'', ''pattern'', ''format'',
      ''contentEncoding'', ''contentMediaType'', ''minimum'', ''maximum'', ''exclusiveMinimum'',
      ''exclusiveMaximum'', ''multipleOf'', ''enum'', ''const'', ''examples'', ''example'', ''default'',
      ''allOf'', ''anyOf'', ''oneOf'', ''not'', ''if'', ''then'', ''else'', ''title'', ''description'',
      ''readOnly'', ''writeOnly'', ''nullable'', ''deprecated'', ''discriminator'', ''xml'', ''externalDocs'',
      ''x-faker'']"

definition as_anonymous_object :: "json \<Rightarrow> json option" where
  "as_anonymous_object s =
     (case as_object s of
        Some m \<Rightarrow>
          if m = [] \<or> list_ex (\<lambda>k. k \<in> set SCHEMA_KEYWORDS) (map fst m) then None
          else Some (JObj [(''properties'', JObj m), (''required'', JArr (map (JStr \<circ> fst) m)),
                           (''type'', JStr ''object'')])
      | None \<Rightarrow> None)"

fun applicable_aliases :: "obj \<Rightarrow> string list \<Rightarrow> (string \<times> string) list \<Rightarrow> (string \<times> string) list" where
  "applicable_aliases m claimed [] = []"
| "applicable_aliases m claimed ((old, new) # rest) =
     (if old = new \<or> \<not> contains_key m old \<or> contains_key m new \<or> new \<in> set claimed
      then applicable_aliases m claimed rest
      else (old, new) # applicable_aliases m (new # claimed) rest)"

definition rename_key :: "string \<times> string \<Rightarrow> obj \<Rightarrow> obj" where
  "rename_key a m =
     (case map_of m (fst a) of Some v \<Rightarrow> obj_insert (snd a) v (obj_remove (fst a) m) | None \<Rightarrow> m)"

definition apply_schema_prop_aliases :: "json \<Rightarrow> string str_map \<Rightarrow> json option" where
  "apply_schema_prop_aliases s aliases =
     (case as_object s of
        Some m \<Rightarrow>
          (let applicable = applicable_aliases m [] (sort_key fst aliases)
           in if aliases = [] \<or> applicable = [] then None else Some (JObj (fold rename_key applicable m)))
      | None \<Rightarrow> None)"

definition schema_has_sibling_keywords :: "json \<Rightarrow> bool" where
  "schema_has_sibling_keywords s \<longleftrightarrow> (case as_object s of Some m \<Rightarrow> list_ex (\<lambda>e. fst e \<noteq> ''$ref'') m | None \<Rightarrow> False)"

definition schema_without_ref :: "json \<Rightarrow> json" where
  "schema_without_ref s = without [''$ref''] s"

end
