(* ===== verification/FakeLimits.thy ===== *)
theory FakeLimits
  imports FakeChecks
begin

text \<open>
  \<open>schema_walker.rs\<close>, continued: the options of a node, the value at the depth limit, references from the
  walk, extensions, and the pass for unevaluated properties and items. Recursion that follows references
  has a budget.
\<close>

section \<open>Options of a node\<close>

definition node_level_options :: "json \<Rightarrow> generate_options \<Rightarrow> generate_options option" where
  "node_level_options s opts =
     map_option (\<lambda>cfg.
       let c = JObj cfg
       in opts\<lparr>go_min_items := or_else (u64_at c ''minItems'') (go_min_items opts),
               go_max_items := or_else (u64_at c ''maxItems'') (go_max_items opts),
               go_optionals_probability := or_else (f64_at c ''optionalsProbability'') (go_optionals_probability opts),
               go_always_fake_optionals := unwrap_or (bool_at c ''alwaysFakeOptionals'') (go_always_fake_optionals opts),
               go_use_default_value := unwrap_or (bool_at c ''useDefaultValue'') (go_use_default_value opts),
               go_use_examples_value := unwrap_or (bool_at c ''useExamplesValue'') (go_use_examples_value opts),
               go_required_only := unwrap_or (bool_at c ''requiredOnly'') (go_required_only opts),
               go_fill_properties := unwrap_or (bool_at c ''fillProperties'') (go_fill_properties opts),
               go_fail_on_invalid_type := unwrap_or (bool_at c ''failOnInvalidTypes'') (go_fail_on_invalid_type opts),
               go_fail_on_invalid_format := unwrap_or (bool_at c ''failOnInvalidFormat'') (go_fail_on_invalid_format opts)\<rparr>)
       (obj_at s ''x-json-schema-faker'')"

section \<open>References\<close>

definition walker_resolver :: "json \<Rightarrow> generate_options \<Rightarrow> ref_resolver" where
  "walker_resolver doc opts =
     with_depth_window (go_ref_depth_min opts) (go_ref_depth_max opts)
       (with_external (go_external_refs opts) (resolver_new doc))"

definition resolve_fresh :: "ref_resolver \<Rightarrow> string \<Rightarrow> json option" where
  "resolve_fresh r ref_str = fst (resolve r ref_str [])"

definition resolve_sub_schema :: "ref_resolver \<Rightarrow> json \<Rightarrow> json" where
  "resolve_sub_schema r s =
     unwrap_or (Option.bind (str_at s ''$ref'') (resolve_fresh r)) s"

section \<open>The value at the depth limit\<close>

lemma map_filter_mem: "y \<in> set (List.map_filter f xs) \<longleftrightarrow> (\<exists>x \<in> set xs. f x = Some y)"
  by (induction xs) (auto split: option.splits)

lemma arr_at_item_size: "arr_at s k = Some xs \<Longrightarrow> x \<in> set xs \<Longrightarrow> size x < size s"
  using json_get_size [of s k "JArr xs"] size_list_estimation' [of x xs "size x" size] by (simp add: arr_at_eq)

function schema_is_recursive_only :: "json \<Rightarrow> bool" where
  "schema_is_recursive_only s =
     (let arrs = List.map_filter (arr_at s) [''allOf'', ''anyOf'', ''oneOf'']
      in \<not> has_any s [''type'', ''const'', ''enum''] \<and> arrs \<noteq> []
         \<and> list_all (list_all (\<lambda>sub. str_at sub ''$ref'' \<noteq> None \<or> schema_is_recursive_only sub)) arrs)"
  by pat_completeness auto
termination
proof (relation "measure size")
  fix s arrs and arr :: "json list" and sub
  assume "arrs = List.map_filter (arr_at s) [''allOf'', ''anyOf'', ''oneOf'']" and "arr \<in> set arrs" and "sub \<in> set arr"
  then have "arr \<in> set (List.map_filter (arr_at s) [''allOf'', ''anyOf'', ''oneOf''])" by (simp only:)
  then have "\<exists>k. arr_at s k = Some arr" unfolding map_filter_mem by blast
  then show "(sub, s) \<in> measure size" using \<open>sub \<in> set arr\<close> arr_at_item_size by auto
qed auto

declare schema_is_recursive_only.simps [simp del]

definition offers_null :: "json \<Rightarrow> bool" where
  "offers_null s \<longleftrightarrow>
     list_ex (\<lambda>kw. list_ex (\<lambda>sub. str_at sub ''type'' = Some ''null'') (unwrap_or (arr_at s kw) []))
       [''oneOf'', ''anyOf'']"

definition terminal_target :: "json \<Rightarrow> string \<Rightarrow> json option" where
  "terminal_target doc ref_str = resolve_fresh (resolver_new doc) ref_str"

text \<open>The fold over the branches: the merged schema, the references followed, whether a branch was merged.\<close>

definition merge_branch :: "json \<Rightarrow> json \<Rightarrow> json \<times> string list \<times> bool \<Rightarrow> json \<times> string list \<times> bool" where
  "merge_branch doc branch acc =
     (case acc of (base, visited, merged_any) \<Rightarrow>
        let merged = (\<lambda>resolved. deep_merge base (without [''allOf''] resolved))
        in case str_at branch ''$ref'' of
             Some ref_str \<Rightarrow>
               if ref_str \<in> set visited then acc
               else (case terminal_target doc ref_str of
                       Some r \<Rightarrow> (merged r, visited @ [ref_str], True) | None \<Rightarrow> acc)
           | None \<Rightarrow> if branch = JBool False then acc else (merged branch, visited, True))"

definition merge_all_of_into_terminal_schema :: "json \<Rightarrow> json \<Rightarrow> string list \<Rightarrow> (json \<times> string list) option" where
  "merge_all_of_into_terminal_schema doc s visited =
     (case arr_at s ''allOf'' of
        None \<Rightarrow> None
      | Some branches \<Rightarrow>
          if branches = [] then None
          else
            (case fold (merge_branch doc) branches (without [''allOf''] s, visited, False) of
               (base, visited', merged_any) \<Rightarrow>
                 if merged_any then Some (without [''allOf''] base, visited') else None))"

text \<open>A value drawn from a source of its own: the cells of the thread and the clock are shared.\<close>

definition with_fresh_rng :: "source \<Rightarrow> 'a gen \<Rightarrow> 'a gen" where
  "with_fresh_rng src m =
     (\<lambda>g. run_map (\<lambda>(x, g'). (x, g\<lparr>rg_ref_depth := rg_ref_depth g', rg_false_seen := rg_false_seen g',
                                    rg_clock := rg_clock g'\<rparr>))
            (m ((rng_new src)\<lparr>rg_ref_depth := rg_ref_depth g, rg_false_seen := rg_false_seen g,
                              rg_clock := rg_clock g\<rparr>)))"

definition terminal_string :: "faker_env \<Rightarrow> json \<Rightarrow> json gen" where
  "terminal_string env s =
     (if has_any s [''pattern'', ''format''] then
        with_fresh_rng (fe_seeded env (Some 0)) (generate_string env s generate_options_default)
      else ret (JStr (replicate (min (unwrap_or (u64_at s ''minLength'') 0) MAX_GENERATED_STRING_LENGTH) (CHR ''a''))))"

definition terminal_number :: "bool \<Rightarrow> json \<Rightarrow> json" where
  "terminal_number integer s =
     (let mn = unwrap_or (f64_at s ''minimum'') (Fin 0); mx = unwrap_or (f64_at s ''maximum'') (Fin f_largest);
          pick = (if f_lt (Fin 0) mn then mn else if f_lt mx (Fin 0) then mx else Fin 0)
      in if integer then
           (case num_from_f64 (f_round pick) of Some n \<Rightarrow> JNum n | None \<Rightarrow> json_int (f_to_i64 pick))
         else (case num_from_f64 pick of Some n \<Rightarrow> JNum n | None \<Rightarrow> json_int 0))"

definition terminal_object_with_required :: "(json \<Rightarrow> json gen) \<Rightarrow> json \<Rightarrow> json gen" where
  "terminal_object_with_required rec s =
     (let props = unwrap_or (obj_at s ''properties'') []
      in gmap JObj
           (gfold (\<lambda>key m. gmap (\<lambda>v. obj_insert key v m) (rec (unwrap_or (map_of props key) (JObj []))))
              (names_at s ''required'') []))"

definition terminal_of_type :: "faker_env \<Rightarrow> (json \<Rightarrow> json gen) \<Rightarrow> json \<Rightarrow> string \<Rightarrow> json gen" where
  "terminal_of_type env rec s t =
     (if t = ''string'' then terminal_string env s
      else if t = ''number'' then ret (terminal_number False s)
      else if t = ''integer'' then ret (terminal_number True s)
      else if t = ''boolean'' then ret (JBool False)
      else if t = ''array'' then ret (JArr [])
      else if t = ''object'' then terminal_object_with_required rec s
      else ret JNull)"

primrec terminal_value_for_schema_with_root :: "nat \<Rightarrow> faker_env \<Rightarrow> json \<Rightarrow> json \<Rightarrow> string list \<Rightarrow> json gen" where
  "terminal_value_for_schema_with_root 0 env doc s visited = gfuel"
| "terminal_value_for_schema_with_root (Suc n) env doc s visited =
     (if offers_null s then ret JNull
      else
        case merge_all_of_into_terminal_schema doc s visited of
          Some (merged, visited') \<Rightarrow> terminal_value_for_schema_with_root n env doc merged visited'
        | None \<Rightarrow>
            (case str_at s ''$ref'' of
               Some ref_str \<Rightarrow>
                 if ref_str \<in> set visited then ret JNull
                 else (case terminal_target doc ref_str of
                         Some resolved \<Rightarrow> terminal_value_for_schema_with_root n env doc resolved (visited @ [ref_str])
                       | None \<Rightarrow> ret (JObj []))
             | None \<Rightarrow>
                 (case str_at s ''type'' of
                    Some t \<Rightarrow>
                      terminal_of_type env (\<lambda>p. terminal_value_for_schema_with_root n env doc p visited) s t
                  | None \<Rightarrow> ret JNull)))"

section \<open>Extensions\<close>

definition is_known_faker_key :: "string \<Rightarrow> bool" where
  "is_known_faker_key name \<longleftrightarrow>
     name = ''custom.statement''
     \<or> list_ex (starts_with name)
         [''address.'', ''airline.'', ''animal.'', ''book.'', ''color.'', ''commerce.'', ''company.'',
          ''database.'', ''datatype.'', ''date.'', ''finance.'', ''food.'', ''git.'', ''hacker.'',
          ''helpers.'', ''image.'', ''internet.'', ''location.'', ''lorem.'', ''music.'', ''name.'',
          ''person.'', ''phone.'', ''random.'', ''science.'', ''sport.'', ''string.'', ''system.'',
          ''vehicle.'', ''word.'']"

definition invoke_extension :: "faker_env \<Rightarrow> string \<Rightarrow> json \<Rightarrow> json \<Rightarrow> string option \<Rightarrow> string \<Rightarrow> json option gen" where
  "invoke_extension env keyword s doc prop path =
     (\<lambda>g. Done (map_option (\<lambda>f. f s doc prop path)
                  (Option.bind (fe_extensions env (rg_clock g)) (\<lambda>reg. map_of reg keyword)),
                g\<lparr>rg_clock := rg_clock g + 1\<rparr>))"

definition invoke_extension_from_opts ::
  "faker_env \<Rightarrow> extension str_map option \<Rightarrow> string \<Rightarrow> json \<Rightarrow> json \<Rightarrow> string option \<Rightarrow> string \<Rightarrow> json option gen" where
  "invoke_extension_from_opts env snapshot keyword s doc prop path =
     (case snapshot of
        Some reg \<Rightarrow> ret (map_option (\<lambda>f. f s doc prop path) (map_of reg keyword))
      | None \<Rightarrow> invoke_extension env keyword s doc prop path)"

definition pick_json :: "json list \<Rightarrow> json gen" where
  "pick_json entries =
     gbind (rng_int 0 (int (length entries) - 1)) (\<lambda>i.
       if nat i < length entries then ret (entries ! nat i) else gpanic)"

definition pick_from_x_faker_object_form :: "json \<Rightarrow> json option gen" where
  "pick_from_x_faker_object_form s =
     (case obj_at s ''x-faker'' of
        Some [(key, v)] \<Rightarrow>
          if key \<noteq> ''helpers.arrayElement'' \<and> key \<noteq> ''random.arrayElement'' then ret None
          else (case as_array v of
                  Some arr \<Rightarrow> if arr = [] then ret None else gmap Some (pick_json arr)
                | None \<Rightarrow> ret None)
      | _ \<Rightarrow> ret None)"

definition auto_increment_key :: "faker_env \<Rightarrow> json \<Rightarrow> string gen" where
  "auto_increment_key env s = gmap (\<lambda>path. path @ ''#'' @ fe_to_string env s) current_path"

section \<open>Unevaluated properties and items\<close>

record evaluated =
  ev_declared :: "string list"
  ev_patterns :: "regex list"
  ev_visited :: "string list"

definition note_properties :: "compiler \<Rightarrow> json \<Rightarrow> evaluated \<Rightarrow> evaluated" where
  "note_properties rx s e =
     e\<lparr>ev_declared := ev_declared e @ keys_at s ''properties'',
       ev_patterns := ev_patterns e @ List.map_filter rx (keys_at s ''patternProperties'')\<rparr>"

fun run_fold :: "('a \<Rightarrow> 'b \<Rightarrow> 'b run) \<Rightarrow> 'a list \<Rightarrow> 'b \<Rightarrow> 'b run" where
  "run_fold f [] acc = Done acc"
| "run_fold f (x # xs) acc = run_bind (f x acc) (run_fold f xs)"

definition applied_schemas :: "json \<Rightarrow> json list" where
  "applied_schemas s =
     concat (map (\<lambda>kw. unwrap_or (arr_at s kw) []) [''allOf'', ''oneOf'', ''anyOf''])
     @ List.map_filter (json_get s) [''then'', ''else'']"

primrec collect_evaluated_properties ::
  "nat \<Rightarrow> compiler \<Rightarrow> json \<Rightarrow> generate_options \<Rightarrow> json \<Rightarrow> evaluated \<Rightarrow> evaluated run" where
  "collect_evaluated_properties 0 rx doc opts s e = Fuel"
| "collect_evaluated_properties (Suc n) rx doc opts s e =
     (let e1 = note_properties rx s e;
          e2 = (case str_at s ''$ref'' of
                  Some ref_str \<Rightarrow>
                    if ref_str \<in> set (ev_visited e1) then Done e1
                    else
                      (let e' = e1\<lparr>ev_visited := ref_str # ev_visited e1\<rparr>
                       in case resolve_ref doc opts ref_str of
                            Some resolved \<Rightarrow> collect_evaluated_properties n rx doc opts resolved e'
                          | None \<Rightarrow> Done e')
                | None \<Rightarrow> Done e1)
      in run_bind e2 (run_fold (collect_evaluated_properties n rx doc opts) (applied_schemas s)))"

definition truncate_items :: "json \<Rightarrow> json \<Rightarrow> json" where
  "truncate_items s v =
     (case v of
        JArr arr \<Rightarrow>
          if is_false_at s ''unevaluatedItems''
          then JArr (take (case arr_at s ''prefixItems'' of Some p \<Rightarrow> length p | None \<Rightarrow> 0) arr) else v
      | _ \<Rightarrow> v)"

definition keep_evaluated :: "evaluated \<Rightarrow> obj \<Rightarrow> obj" where
  "keep_evaluated e m =
     filter (\<lambda>(k, v). k \<in> set (ev_declared e) \<or> list_ex (\<lambda>re. re k) (ev_patterns e)) m"

definition apply_unevaluated_constraints :: "nat \<Rightarrow> compiler \<Rightarrow> json \<Rightarrow> generate_options \<Rightarrow> json \<Rightarrow> json \<Rightarrow> json run" where
  "apply_unevaluated_constraints n rx doc opts s v =
     run_map (truncate_items s)
       (case v of
          JObj m \<Rightarrow>
            if is_false_at s ''unevaluatedProperties'' then
              run_map (\<lambda>e. JObj (keep_evaluated e m))
                (collect_evaluated_properties n rx doc opts s
                   \<lparr>ev_declared = [], ev_patterns = [], ev_visited = []\<rparr>)
            else Done v
        | _ \<Rightarrow> Done v)"

end
