(* ===== verification/Composition.thy ===== *)
theory Composition
  imports FakeLimits
begin

text \<open>
  \<open>generators/composition.rs\<close>: \<open>allOf\<close> by merging, \<open>anyOf\<close> and \<open>oneOf\<close> by walking a branch, and the
  discriminator of the branch. The walk itself is a field of the walker that these operations are given.
\<close>

section \<open>The walker\<close>

text \<open>
  What a walk is given besides the options, the schema, the depth and the state: the document, the
  extensions as they were at the start, and a budget for the loops and recursions that have none.
\<close>

record walker =
  wk_env :: faker_env
  wk_doc :: json
  wk_extensions :: "extension str_map option"
  wk_budget :: nat
  wk_walk :: "generate_options \<Rightarrow> json \<Rightarrow> nat \<Rightarrow> json gen"

definition wk_resolver :: "walker \<Rightarrow> generate_options \<Rightarrow> ref_resolver" where
  "wk_resolver w opts = walker_resolver (wk_doc w) opts"

definition wk_regex :: "walker \<Rightarrow> compiler" where
  "wk_regex w = fe_regex (wk_env w)"

definition item_at :: "'a list \<Rightarrow> nat \<Rightarrow> 'a gen" where
  "item_at xs i = (if i < length xs then ret (xs ! i) else gpanic)"

definition position :: "('a \<Rightarrow> bool) \<Rightarrow> 'a list \<Rightarrow> nat option" where
  "position p xs = (if list_ex p xs then Some (length (takeWhile (\<lambda>x. \<not> p x) xs)) else None)"

text \<open>\<open>walk_with_multi_type\<close> and \<open>walk_schema\<close>, the entries of the walk.\<close>

definition walk_with_multi_type :: "walker \<Rightarrow> generate_options \<Rightarrow> json \<Rightarrow> nat \<Rightarrow> json gen" where
  "walk_with_multi_type w opts s depth =
     (case arr_at s ''type'' of
        Some types \<Rightarrow>
          if types = [] then wk_walk w opts s depth
          else
            gbind (pick_index (length types)) (\<lambda>idx.
              case Option.bind (if idx < length types then Some (types ! idx) else None) as_str of
                Some chosen \<Rightarrow> wk_walk w opts (set_key ''type'' (JStr chosen) s) depth
              | None \<Rightarrow> wk_walk w opts s depth)
      | None \<Rightarrow> wk_walk w opts s depth)"

definition walk_schema :: "walker \<Rightarrow> generate_options \<Rightarrow> json \<Rightarrow> nat \<Rightarrow> json gen" where
  "walk_schema w opts s depth =
     gthen (gwhen (depth = 0) (modify (\<lambda>g. g\<lparr>rg_ref_depth := 0, rg_false_seen := False\<rparr>)))
       (gbind (if arr_at s ''type'' \<noteq> None then walk_with_multi_type w opts s depth else wk_walk w opts s depth)
          (\<lambda>v. gbind (gets (\<lambda>g. depth = 0 \<and> rg_false_seen g \<and> rg_error g = None)) (\<lambda>bad.
             gthen (gwhen bad (set_error CannotGenerateForFalseSchema)) (ret v))))"

section \<open>\<open>allOf\<close>\<close>

definition resolve_if_ref :: "ref_resolver \<Rightarrow> json \<Rightarrow> json" where
  "resolve_if_ref r s = unwrap_or (Option.bind (str_at s ''$ref'') (resolve_fresh r)) s"

text \<open>A branch merged into the schema, its \<open>contains\<close> set aside.\<close>

definition merge_sub :: "json \<Rightarrow> json \<times> json list \<Rightarrow> json \<times> json list" where
  "merge_sub resolved acc =
     (case acc of (merged, contains) \<Rightarrow>
        (deep_merge merged (without [''contains''] resolved),
         contains @ (case json_get resolved ''contains'' of Some c \<Rightarrow> [c] | None \<Rightarrow> [])))"

definition merge_subs :: "(json \<Rightarrow> json) \<Rightarrow> json list \<Rightarrow> json \<Rightarrow> json \<times> json list" where
  "merge_subs resolved subs merged = fold (\<lambda>sub. merge_sub (resolved sub)) subs (merged, [])"

text \<open>The schemas set aside, each walked into a position of its own.\<close>

definition put_contains :: "walker \<Rightarrow> generate_options \<Rightarrow> nat \<Rightarrow> nat \<times> json \<Rightarrow> json list \<Rightarrow> json list gen" where
  "put_contains w opts depth entry arr =
     (case entry of (i, s) \<Rightarrow>
        gmap (\<lambda>v. if i < length arr then arr[i := v] else arr @ [v]) (wk_walk w opts s (depth + 1)))"

definition overlay_contains :: "walker \<Rightarrow> generate_options \<Rightarrow> nat \<Rightarrow> json list \<Rightarrow> json \<Rightarrow> json gen" where
  "overlay_contains w opts depth contains result =
     (case result of
        JArr arr \<Rightarrow> gmap JArr (gfold (put_contains w opts depth) (enumerate 0 contains) arr)
      | v \<Rightarrow> ret v)"

definition generate_all_of :: "walker \<Rightarrow> generate_options \<Rightarrow> json \<Rightarrow> nat \<Rightarrow> json gen" where
  "generate_all_of w opts s depth =
     (case arr_at s ''allOf'' of
        None \<Rightarrow> ret JNull
      | Some subs \<Rightarrow>
          (case merge_subs (resolve_if_ref (wk_resolver w opts)) subs (JObj []) of
             (merged, contains) \<Rightarrow>
               gbind (wk_walk w opts merged (depth + 1)) (overlay_contains w opts depth contains)))"

section \<open>Branches\<close>

definition MAX_COMPOSITION_BRANCHES :: nat where
  "MAX_COMPOSITION_BRANCHES = 64"

definition is_terminal_friendly :: "json \<Rightarrow> bool" where
  "is_terminal_friendly s \<longleftrightarrow>
     \<not> has s ''$ref''
     \<and> ((case str_at s ''type'' of
           Some t \<Rightarrow> t \<in> set [''null'', ''boolean'', ''string'', ''number'', ''integer''] | None \<Rightarrow> False)
        \<or> has s ''const'' \<or> has s ''enum'')"

definition is_local_ref :: "json \<Rightarrow> bool" where
  "is_local_ref s \<longleftrightarrow> (case str_at s ''$ref'' of Some r \<Rightarrow> r = ''#'' \<or> starts_with r ''#/'' | None \<Rightarrow> False)"

definition pick_branch_with_depth :: "json list \<Rightarrow> generate_options \<Rightarrow> nat \<Rightarrow> nat gen" where
  "pick_branch_with_depth subs opts depth =
     (case position is_terminal_friendly subs of
        Some i \<Rightarrow>
          if list_ex is_local_ref subs \<and> 1 \<le> depth \<or> go_max_depth opts \<le> depth + 1 then ret i
          else pick_index (length subs)
      | None \<Rightarrow> pick_index (length subs))"

definition swap_at :: "nat \<Rightarrow> nat \<Rightarrow> 'a list \<Rightarrow> 'a list gen" where
  "swap_at i j xs = (if i < length xs \<and> j < length xs then ret (xs[i := xs ! j, j := xs ! i]) else gpanic)"

definition shuffle_indices :: "nat \<Rightarrow> nat list gen" where
  "shuffle_indices n =
     gfold (\<lambda>i order. gbind (pick_index (i + 1)) (\<lambda>j. swap_at i j order)) (rev [1..<n]) [0..<n]"

definition shuffled_branch_order :: "json list \<Rightarrow> generate_options \<Rightarrow> nat \<Rightarrow> nat list gen" where
  "shuffled_branch_order subs opts depth =
     gbind (shuffle_indices (length subs)) (\<lambda>order.
     gbind (pick_branch_with_depth subs opts depth) (\<lambda>front.
       case position (\<lambda>i. i = front) order of Some pos \<Rightarrow> swap_at 0 pos order | None \<Rightarrow> ret order))"

definition discriminator_value :: "json \<Rightarrow> string \<Rightarrow> json \<Rightarrow> string option" where
  "discriminator_value disc prop branch =
     (let branch_ref = str_at branch ''$ref'';
          mapped = (case (branch_ref, obj_at disc ''mapping'') of
                      (Some ref_str, Some m) \<Rightarrow>
                        map_option fst (List.find (\<lambda>e. as_str (snd e) = Some ref_str) m)
                    | _ \<Rightarrow> None);
          segment = Option.bind branch_ref (\<lambda>ref_str.
                      let seg = last (split_on (CHR ''/'') ref_str) in if seg = [] then None else Some seg);
          constant = Option.bind (json_get branch ''properties'') (\<lambda>p.
                      Option.bind (json_get p prop) (\<lambda>q. str_at q ''const''))
      in or_else mapped (or_else segment constant))"

definition apply_discriminator :: "json \<Rightarrow> json \<Rightarrow> json \<Rightarrow> json" where
  "apply_discriminator parent branch v =
     (case json_get parent ''discriminator'' of
        None \<Rightarrow> v
      | Some disc \<Rightarrow>
          (case str_at disc ''propertyName'' of
             None \<Rightarrow> v
           | Some name \<Rightarrow>
               (case v of
                  JObj m \<Rightarrow>
                    (case discriminator_value disc name branch of
                       Some text \<Rightarrow> JObj (obj_insert name (JStr text) m) | None \<Rightarrow> JObj m)
                | x \<Rightarrow> x)))"

section \<open>\<open>anyOf\<close>\<close>

fun try_branches ::
  "walker \<Rightarrow> generate_options \<Rightarrow> json \<Rightarrow> json list \<Rightarrow> nat \<Rightarrow> nat list \<Rightarrow> faker_error option \<Rightarrow> json gen" where
  "try_branches w opts s subs depth [] last_error =
     gthen (set_error (AllBranchesFailed ''anyOf'' (length subs) last_error)) (ret JNull)"
| "try_branches w opts s subs depth (idx # order) last_error =
     gbind (item_at subs idx) (\<lambda>sub.
     gbind (wk_walk w opts sub (depth + 1)) (\<lambda>attempt.
     gbind has_error (\<lambda>failed.
       if failed then gbind take_error (try_branches w opts s subs depth order)
       else ret (apply_discriminator s sub attempt))))"

definition generate_any_of :: "walker \<Rightarrow> generate_options \<Rightarrow> json \<Rightarrow> nat \<Rightarrow> json gen" where
  "generate_any_of w opts s depth =
     (case arr_at s ''anyOf'' of
        None \<Rightarrow> ret JNull
      | Some all \<Rightarrow>
          if all = [] then ret JNull
          else
            let subs = take MAX_COMPOSITION_BRANCHES all
            in gbind (shuffled_branch_order subs opts depth) (\<lambda>order. try_branches w opts s subs depth order None))"

section \<open>\<open>oneOf\<close>\<close>

definition exclusive_options :: "generate_options \<Rightarrow> generate_options" where
  "exclusive_options opts = opts\<lparr>go_optionals_probability := Some (Fin 0), go_always_fake_optionals := False\<rparr>"

definition generate_one_of :: "walker \<Rightarrow> generate_options \<Rightarrow> json \<Rightarrow> nat \<Rightarrow> json gen" where
  "generate_one_of w opts s depth =
     (case arr_at s ''oneOf'' of
        None \<Rightarrow> ret JNull
      | Some all \<Rightarrow>
          if all = [] then ret JNull
          else
            let subs = take MAX_COMPOSITION_BRANCHES all
            in gbind (pick_branch_with_depth subs opts depth) (\<lambda>idx.
               gbind (item_at subs idx) (\<lambda>sub.
               gmap (apply_discriminator s sub) (wk_walk w (exclusive_options opts) sub (depth + 1)))))"

section \<open>Branches of a typed schema\<close>

text \<open>\<open>pick_branch_compatible_with_base\<close> of the walker: branches that do not forbid required keys first.\<close>

definition branch_compatible :: "string list \<Rightarrow> json \<Rightarrow> bool" where
  "branch_compatible must_include sub \<longleftrightarrow>
     \<not> is_false_at sub ''additionalProperties''
     \<or> list_all (\<lambda>k. k \<in> set (keys_at sub ''properties'')) must_include"

definition pick_branch_compatible_with_base :: "json \<Rightarrow> string \<Rightarrow> (nat \<times> json) gen" where
  "pick_branch_compatible_with_base s keyword =
     (let arr = unwrap_or (arr_at s keyword) [];
          base_required = names_at s ''required'';
          must_include = filter (\<lambda>k. k \<in> set base_required) (base_required @ keys_at s ''properties'');
          compatible = filter (\<lambda>i. branch_compatible must_include (arr ! i)) [0..<length arr];
          with_branch = (\<lambda>i. gmap (\<lambda>sub. (i, sub)) (item_at arr i))
      in if arr = [] then ret (0, JObj [])
         else if must_include = [] \<or> compatible = [] then gbind (pick_index (length arr)) with_branch
         else gbind (pick_of compatible) with_branch)"

end
