(* ===== verification/FakeArray.thy ===== *)
theory FakeArray
  imports Composition
begin

text \<open>
  \<open>generators/array.rs\<close>: how many items an array gets, the items themselves (positional, additional, unique)
  and the \<open>contains\<close> constraint.
\<close>

section \<open>Items\<close>

definition UNIQUE_ITEM_RETRY_BUDGET :: nat where
  "UNIQUE_ITEM_RETRY_BUDGET = 100"

definition pick_array_element_from_x_faker :: "json \<Rightarrow> json option gen" where
  "pick_array_element_from_x_faker s =
     (case find_map (arr_at (JObj (unwrap_or (obj_at s ''x-faker'') [])))
             [''helpers.arrayElement'', ''random.arrayElement''] of
        Some entries \<Rightarrow> if entries = [] then ret None else gmap Some (pick_json entries)
      | None \<Rightarrow> ret None)"

definition walk_item :: "walker \<Rightarrow> generate_options \<Rightarrow> json \<Rightarrow> nat \<Rightarrow> json gen" where
  "walk_item w opts item depth =
     gbind (pick_array_element_from_x_faker item) (\<lambda>picked.
       case picked of Some v \<Rightarrow> ret v | None \<Rightarrow> wk_walk w opts item depth)"

definition walk_items :: "walker \<Rightarrow> generate_options \<Rightarrow> json list \<Rightarrow> nat \<Rightarrow> json list gen" where
  "walk_items w opts items depth =
     gfold (\<lambda>item out. gmap (\<lambda>v. out @ [v]) (walk_item w opts item depth)) items []"

fun unique_items :: "nat \<Rightarrow> nat \<Rightarrow> json gen \<Rightarrow> json list \<Rightarrow> json list gen" where
  "unique_items 0 target element out = ret out"
| "unique_items (Suc attempts) target element out =
     (if length out < target then
        gbind element (\<lambda>v. unique_items attempts target element (if v \<in> set out then out else out @ [v]))
      else ret out)"

section \<open>How many\<close>

definition f_to_usize :: "f64 \<Rightarrow> nat" where
  "f_to_usize v =
     (case v of Fin a \<Rightarrow> nat (min (int usize_max) (max 0 (rat_trunc a))) | PInf \<Rightarrow> usize_max | _ \<Rightarrow> 0)"

text \<open>\<open>rng.int(a as i64, b as i64) as usize\<close>.\<close>

definition rng_usize :: "nat \<Rightarrow> nat \<Rightarrow> nat gen" where
  "rng_usize mn mx = gmap (\<lambda>n. nat (n mod 2 ^ 64)) (rng_int (wrap_i64 (int mn)) (wrap_i64 (int mx)))"

definition item_cap_error :: "string \<Rightarrow> nat option \<Rightarrow> unit gen" where
  "item_cap_error keyword raw =
     (case raw of
        Some n \<Rightarrow>
          gwhen (MAX_GENERATED_ITEMS < n) (error_here (\<lambda>path. SchemaError path
            (''array keyword '' @ keyword @ ''='' @ show_nat n @ '' capped to '' @ show_nat MAX_GENERATED_ITEMS
             @ '' for safety'')))
      | None \<Rightarrow> ret ())"

definition positional_items :: "json \<Rightarrow> json list option" where
  "positional_items s = or_else (arr_at s ''prefixItems'') (arr_at s ''items'')"

definition allows_values :: "json \<Rightarrow> bool" where
  "allows_values v \<longleftrightarrow> as_object v \<noteq> None \<or> v = JBool True"

definition holds_at :: "json \<Rightarrow> string \<Rightarrow> (json \<Rightarrow> bool) \<Rightarrow> bool" where
  "holds_at s k p \<longleftrightarrow> (case json_get s k of Some v \<Rightarrow> p v | None \<Rightarrow> False)"

record array_shape =
  as_prohibited :: bool
  as_prefix_len :: nat
  as_effective_min :: nat
  as_min :: nat
  as_max :: nat

definition array_min_items :: "nat option \<Rightarrow> nat option \<Rightarrow> nat" where
  "array_min_items global_min schema_min =
     (case (global_min, schema_min) of
        (Some g, Some s) \<Rightarrow> max g s | (Some g, None) \<Rightarrow> g | (None, Some s) \<Rightarrow> s | (None, None) \<Rightarrow> 0)"

definition array_max_items :: "nat option \<Rightarrow> nat option \<Rightarrow> nat \<Rightarrow> nat" where
  "array_max_items global_max schema_max unbounded =
     (case (global_max, schema_max) of
        (Some g, Some s) \<Rightarrow> if 0 < s then min g s else s
      | (Some g, None) \<Rightarrow> g | (None, Some s) \<Rightarrow> s | (None, None) \<Rightarrow> unbounded)"

definition array_shape_of :: "generate_options \<Rightarrow> json \<Rightarrow> array_shape" where
  "array_shape_of opts s =
     (let capped = map_option (\<lambda>v. min v MAX_GENERATED_ITEMS);
          schema_min = capped (u64_at s ''minItems''); schema_max = capped (u64_at s ''maxItems'');
          prefix_len = (case positional_items s of Some a \<Rightarrow> length a | None \<Rightarrow> 0);
          prohibited = (is_false_at s ''items'' \<or> is_false_at s ''additionalItems'');
          has_additional = (\<not> prohibited
            \<and> (holds_at s ''items'' allows_values \<or> holds_at s ''additionalItems'' allows_values));
          mn = array_min_items (go_min_items opts) schema_min;
          mx = array_max_items (go_max_items opts) schema_max
                 (if 0 < prefix_len \<and> \<not> has_additional then prefix_len
                  else if go_always_fake_optionals opts then max mn 3 else 3);
          effective_min = max mn prefix_len;
          raw_max = max mx effective_min;
          safe_max = (case schema_max of Some smax \<Rightarrow> min raw_max smax | None \<Rightarrow> raw_max)
      in \<lparr>as_prohibited = prohibited, as_prefix_len = prefix_len, as_effective_min = effective_min,
          as_min = min effective_min safe_max, as_max = safe_max\<rparr>)"

definition item_count :: "generate_options \<Rightarrow> nat \<Rightarrow> nat \<Rightarrow> nat gen" where
  "item_count opts mn mx =
     (if go_always_fake_optionals opts then ret mx
      else
        case go_optionals_probability opts of
          Some p \<Rightarrow>
            ret (if f_lt (f_abs (f_sub p (Fin 1))) f_epsilon then mx
                 else if f_le p (Fin 0) then mn
                 else (mn + f_to_usize (f_round (f_mul (f_of_int (int (mx - mn))) p))) mod 2 ^ 64)
        | None \<Rightarrow> rng_usize mn mx)"

definition cap_default_items :: "generate_options \<Rightarrow> json \<Rightarrow> nat \<Rightarrow> nat \<Rightarrow> nat" where
  "cap_default_items opts s mn target =
     (case go_max_default_items opts of
        Some cap \<Rightarrow>
          if go_use_default_value opts
             \<and> (case obj_at s ''items'' of Some m \<Rightarrow> contains_key m ''default'' | None \<Rightarrow> False)
          then max (min target cap) mn else target
      | None \<Rightarrow> target)"

section \<open>\<open>contains\<close>\<close>

record contains_context =
  cc_prohibited :: bool
  cc_prefix_len :: nat
  cc_min :: nat
  cc_max :: "nat option"

definition contains_context_of :: "array_shape \<Rightarrow> json \<Rightarrow> contains_context" where
  "contains_context_of shape s =
     \<lparr>cc_prohibited = as_prohibited shape, cc_prefix_len = as_prefix_len shape,
      cc_min = unwrap_or (u64_at s ''minContains'') 1, cc_max = u64_at s ''maxContains''\<rparr>"

definition matching_indices :: "compiler \<Rightarrow> json \<Rightarrow> json list \<Rightarrow> nat list" where
  "matching_indices rx contains_schema items =
     filter (\<lambda>i. value_satisfies_simple_constraints rx (items ! i) contains_schema) [0..<length items]"

definition remove_indices :: "nat list \<Rightarrow> 'a list \<Rightarrow> 'a list" where
  "remove_indices is xs = map snd (filter (\<lambda>e. fst e \<notin> set is) (enumerate 0 xs))"

definition replace_and_append :: "json gen \<Rightarrow> nat list \<Rightarrow> nat \<Rightarrow> json list \<Rightarrow> json list gen" where
  "replace_and_append element positions extra items =
     gbind (gfold (\<lambda>i out. gmap (\<lambda>v. out[i := v]) element) positions items) (\<lambda>out.
       gmap (\<lambda>vs. out @ vs) (gtimes extra element))"

definition apply_contains_constraint ::
  "walker \<Rightarrow> generate_options \<Rightarrow> json \<Rightarrow> nat \<Rightarrow> contains_context \<Rightarrow> json list \<Rightarrow> json list gen" where
  "apply_contains_constraint w opts contains_schema depth ctx items =
     (let element = wk_walk w opts contains_schema (depth + 1) in
      if cc_max ctx = Some 0 \<and> 0 < cc_min ctx then
        gthen (error_here (\<lambda>path. SchemaError path
                (''contains constraint contradictory: maxContains: 0 cannot coexist with minContains: ''
                 @ show_nat (cc_min ctx))))
          (ret items)
      else if cc_prohibited ctx \<and> cc_prefix_len ctx < cc_min ctx then
        gthen (error_here (\<lambda>path. SchemaError path
                (''contradictory schema: minContains='' @ show_nat (cc_min ctx)
                 @ '' but items/additionalItems is false with prefix length '' @ show_nat (cc_prefix_len ctx))))
          (ret items)
      else if items = [] \<and> 0 < cc_min ctx then gtimes (cc_min ctx) element
      else
        let matching = matching_indices (wk_regex w) contains_schema items;
            current = length matching
        in if current < cc_min ctx then
             (let needed = cc_min ctx - current;
                  positions = take needed (filter (\<lambda>i. i \<notin> set matching) [0..<length items])
              in replace_and_append element positions (needed - length positions) items)
           else
             (case cc_max ctx of
                Some mx \<Rightarrow> ret (remove_indices (take (current - mx) matching) items)
              | None \<Rightarrow> ret items))"

section \<open>The array\<close>

definition not_false :: "json option \<Rightarrow> json option" where
  "not_false v = (if v = Some (JBool False) then None else v)"

definition items_schema :: "json \<Rightarrow> json option" where
  "items_schema s =
     Option.bind (json_get s ''items'') (\<lambda>v. if as_object v \<noteq> None \<or> as_bool v \<noteq> None then Some v else None)"

definition generate_items :: "walker \<Rightarrow> generate_options \<Rightarrow> json \<Rightarrow> array_shape \<Rightarrow> nat \<Rightarrow> nat \<Rightarrow> json list gen" where
  "generate_items w opts s shape target depth =
     (case positional_items s of
        Some prefix \<Rightarrow>
          gbind (walk_items w opts (take target prefix) (depth + 1)) (\<lambda>front.
            if as_prohibited shape then ret front
            else
              let additional = unwrap_or (or_else (not_false (json_get s ''additionalItems''))
                                            (not_false (items_schema s))) (JObj [])
              in gmap (\<lambda>vs. front @ vs) (gtimes (target - length front) (walk_item w opts additional (depth + 1))))
      | None \<Rightarrow>
          (let element = walk_item w opts (unwrap_or (items_schema s) (JObj [])) (depth + 1) in
           if bool_at s ''uniqueItems'' = Some True then
             gbind (unique_items UNIQUE_ITEM_RETRY_BUDGET target element []) (\<lambda>out.
               gthen (gwhen (length out < as_min shape) (error_here (MissingItems
                        (quoted (show_nat (as_min shape)) @ '' (uniqueItems exhausted after retry budget; produced ''
                         @ show_nat (length out) @ '' unique)''))))
                 (ret out))
           else gtimes target element))"

definition generate_array :: "walker \<Rightarrow> generate_options \<Rightarrow> json \<Rightarrow> nat \<Rightarrow> json gen" where
  "generate_array w opts s depth =
     (let shape = array_shape_of opts s in
      gthen (item_cap_error ''minItems'' (u64_at s ''minItems''))
     (gthen (item_cap_error ''maxItems'' (u64_at s ''maxItems''))
     (gbind (gmap (cap_default_items opts s (as_min shape)) (item_count opts (as_min shape) (as_max shape))) (\<lambda>target.
      gbind (generate_items w opts s shape target depth) (\<lambda>items.
      gbind (case json_get s ''contains'' of
               Some c \<Rightarrow> apply_contains_constraint w opts c depth (contains_context_of shape s) items
             | None \<Rightarrow> ret items) (\<lambda>out.
      gthen (gwhen (length out < target \<and> is_false_at s ''items'' \<and> as_prefix_len shape = 0)
              (error_here (MissingItems (quoted (show_nat target)))))
     (gthen (gwhen (0 < as_prefix_len shape \<and> as_prohibited shape \<and> as_prefix_len shape < as_effective_min shape)
              (error_here (MissingItems (quoted (show_nat (as_effective_min shape))))))
      (ret (JArr out)))))))))"

end
