(* ===== verification/FakeObject.thy ===== *)
theory FakeObject
  imports FakeArray
begin

text \<open>
  \<open>generators/object.rs\<close>: which properties an object gets, by name, by pattern, as extras and by dependency,
  and the names of the extras. The loop over extra names has no bound in the code; here it has the budget
  of the walker.
\<close>

definition PROPERTY_SKIP_BUDGET :: nat where "PROPERTY_SKIP_BUDGET = 200"
definition MIN_PROPS_FILL_BUDGET :: nat where "MIN_PROPS_FILL_BUDGET = 200"

section \<open>The caches of patterns\<close>

text \<open>The two caches of this module take patterns of any length.\<close>

definition cached_entry :: "('k \<Rightarrow> 'v) \<Rightarrow> 'k \<Rightarrow> ('k \<times> 'v) list \<Rightarrow> 'v \<times> ('k \<times> 'v) list" where
  "cached_entry compile k cache =
     (case map_of cache k of
        Some entry \<Rightarrow> (entry, cache)
      | None \<Rightarrow>
          (let cache' = (if REGEX_CACHE_CAPACITY \<le> length cache then [] else cache)
           in (compile k, (k, compile k) # cache')))"

definition entry_cache_inv :: "('k \<Rightarrow> 'v) \<Rightarrow> ('k \<times> 'v) list \<Rightarrow> bool" where
  "entry_cache_inv compile cache \<longleftrightarrow> (\<forall>(k, e) \<in> set cache. e = compile k)"

interpretation entry_cache: memo_lookup "cached_entry compile" "entry_cache_inv compile" compile
  for compile :: "'k \<Rightarrow> 'v"
proof
  fix s and k :: 'k
  assume inv: "entry_cache_inv compile s"
  then have hit: "map_of s k = Some e \<Longrightarrow> e = compile k" for e
    using map_of_SomeD [of s k e] by (auto simp: entry_cache_inv_def)
  show "fst (cached_entry compile k s) = compile k"
    by (cases "map_of s k") (auto simp: cached_entry_def Let_def hit)
  show "entry_cache_inv compile (snd (cached_entry compile k s))"
    using inv by (auto simp: cached_entry_def entry_cache_inv_def Let_def split: option.split)
qed

section \<open>Keys and patterns\<close>

definition key_matches_pattern :: "compiler \<Rightarrow> string \<Rightarrow> string \<Rightarrow> bool" where
  "key_matches_pattern rx key pattern =
     (let trimmed = strip_anchors pattern in
      if trimmed = [] then True
      else case rx pattern of Some re \<Rightarrow> re key | None \<Rightarrow> find_sub key trimmed \<noteq> None)"

definition key_matches_any_pattern :: "compiler \<Rightarrow> string \<Rightarrow> obj \<Rightarrow> bool" where
  "key_matches_any_pattern rx key patterns = list_ex (\<lambda>e. key_matches_pattern rx key (fst e)) patterns"

definition find_pattern_schema_for_key :: "compiler \<Rightarrow> string \<Rightarrow> obj \<Rightarrow> json option" where
  "find_pattern_schema_for_key rx key patterns =
     map_option snd (List.find (\<lambda>e. key_matches_pattern rx key (fst e)) patterns)"

definition merge_matching_patterns :: "compiler \<Rightarrow> string \<Rightarrow> json \<Rightarrow> obj \<Rightarrow> json" where
  "merge_matching_patterns rx key base patterns =
     fold (\<lambda>e merged. deep_merge merged (snd e))
       (filter (\<lambda>e. key_matches_pattern rx key (fst e)) (sort_key fst patterns)) base"

definition word_with_number :: "string gen" where
  "word_with_number =
     gbind (pick_of [''key'', ''field'', ''attr'', ''value'', ''item'']) (\<lambda>word.
       gmap (\<lambda>n. word @ show_int n) (rng_int 0 99))"

definition contains_sub :: "string \<Rightarrow> string \<Rightarrow> bool" where
  "contains_sub s t \<longleftrightarrow> find_sub s t \<noteq> None"

definition generate_key_for_pattern :: "string \<Rightarrow> string gen" where
  "generate_key_for_pattern pattern =
     (let stripped = strip_anchors pattern in
      if stripped = [] then gmap (\<lambda>n. ''prop_'' @ show_int n) (rng_int 0 99)
      else if contains_sub stripped ''ignored'' \<or> starts_with pattern ''^ignored''
      then gmap (\<lambda>n. ''ignored-'' @ show_int n) (rng_int 0 99)
      else if ends_with stripped ''prop'' \<or> ends_with pattern ''prop$'' then ret ''extra-prop''
      else if starts_with pattern ''^hybrid'' \<or> starts_with stripped ''hybrid'' then ret ''hybrid''
      else if ends_with pattern ''other$'' \<or> ends_with stripped ''other'' then ret ''other''
      else if starts_with pattern ''^hyb'' then ret ''hybrid''
      else if ends_with pattern ''rid$'' then ret ''hybrid''
      else if contains_sub pattern ''not-relevant'' then ret ''not-relevant''
      else word_with_number)"

definition pattern_length_hint :: "string \<Rightarrow> nat option \<Rightarrow> nat option \<Rightarrow> nat option" where
  "pattern_length_hint pattern min_len max_len =
     (let inner = (if CHR ''{'' \<in> set pattern
                   then before_first (CHR ''}'') (rev (takeWhile (\<lambda>c. c \<noteq> CHR ''{'') (rev pattern))) else None);
          hint = Option.bind inner (\<lambda>text.
            case split_once (CHR '','') text of
              Some (lo, _) \<Rightarrow> parse_usize (trim lo) | None \<Rightarrow> parse_usize (trim text))
      in or_else hint (or_else min_len max_len))"

definition sample_lowercase_word :: "nat \<Rightarrow> string gen" where
  "sample_lowercase_word n = pick_chars lower_letters n"

definition candidate_matches_lengths :: "string \<Rightarrow> nat option \<Rightarrow> nat option \<Rightarrow> bool" where
  "candidate_matches_lengths candidate min_len max_len \<longleftrightarrow>
     upto min_len (\<lambda>mn. mn \<le> chars_count candidate) \<and> upto max_len (\<lambda>mx. chars_count candidate \<le> mx)"

definition candidate_matches :: "compiler \<Rightarrow> string \<Rightarrow> string \<Rightarrow> nat option \<Rightarrow> nat option \<Rightarrow> bool" where
  "candidate_matches rx candidate pattern min_len max_len \<longleftrightarrow>
     candidate_matches_lengths candidate min_len max_len
     \<and> (case rx pattern of Some re \<Rightarrow> re candidate | None \<Rightarrow> False)"

text \<open>Up to \<open>n\<close> draws, until one is accepted.\<close>

definition first_accepted :: "nat \<Rightarrow> ('a \<Rightarrow> bool) \<Rightarrow> 'a gen \<Rightarrow> 'a option gen" where
  "first_accepted n ok m = gfirst n (gmap (\<lambda>x. if ok x then Some x else None) m)"

definition or_else_gen :: "'a option gen \<Rightarrow> 'a option gen \<Rightarrow> 'a option gen" where
  "or_else_gen m k = gbind m (\<lambda>r. case r of Some x \<Rightarrow> ret (Some x) | None \<Rightarrow> k)"

definition key_of_pattern :: "faker_env \<Rightarrow> string \<Rightarrow> nat option \<Rightarrow> nat option \<Rightarrow> string option gen" where
  "key_of_pattern env pattern min_len max_len =
     (let ok = (\<lambda>c. candidate_matches (fe_regex env) c pattern min_len max_len);
          len = unwrap_or (pattern_length_hint pattern min_len max_len) 3;
          anchored = anchor_pattern pattern
      in if strip_anchors pattern = [] then ret (if ok [] then Some [] else None)
         else
           or_else_gen (first_accepted 40 ok (sample_lowercase_word len))
          (or_else_gen (if fe_rand_regex env anchored then first_accepted 20 ok (sample_regex anchored) else ret None)
          (or_else_gen (first_accepted 50 ok (generate_key_for_pattern pattern))
             (gmap (\<lambda>c. if ok c then Some c else None) (sample_lowercase_word len)))))"

definition key_of_length :: "nat option \<Rightarrow> nat option \<Rightarrow> nat \<Rightarrow> string gen" where
  "key_of_length min_len max_len seed_idx =
     (let lower = unwrap_or min_len 3; upper = unwrap_or max_len (max lower 8)
      in sample_lowercase_word (if lower < upper then lower + seed_idx mod (upper - lower + 1) else lower))"

definition generate_constrained_key :: "faker_env \<Rightarrow> json option \<Rightarrow> nat \<Rightarrow> string \<Rightarrow> string option gen" where
  "generate_constrained_key env names seed_idx default_prefix =
     (let default = Some (default_prefix @ ''_'' @ show_nat seed_idx) in
      case names of
        None \<Rightarrow> ret default
      | Some s \<Rightarrow>
          if has s ''const'' then ret (str_at s ''const'')
          else
            case arr_at s ''enum'' of
              Some variants \<Rightarrow>
                (let texts = List.map_filter as_str variants
                 in if texts = [] then ret None else gmap Some (pick_of texts))
            | None \<Rightarrow>
                (let min_len = u64_at s ''minLength''; max_len = u64_at s ''maxLength'';
                     pattern = str_at s ''pattern'';
                     by_pattern = (case pattern of
                        Some pat \<Rightarrow> key_of_pattern env pat min_len max_len
                      | None \<Rightarrow>
                          if min_len = None \<and> max_len = None then ret default
                          else gmap Some (key_of_length min_len max_len seed_idx))
                 in case str_at s ''format'' of
                      Some fmt \<Rightarrow>
                        if is_known_format fmt then
                          first_accepted 20
                            (\<lambda>c. candidate_matches_lengths c min_len max_len
                                 \<and> upto pattern (\<lambda>pat. candidate_matches (fe_regex env) c pat min_len max_len))
                            (generate_for_format_with_options env fmt (Some s) None)
                        else by_pattern
                    | None \<Rightarrow> by_pattern))"

section \<open>Values of properties\<close>

fun prune_value :: "string list \<Rightarrow> json \<Rightarrow> json"
  and prune_entries :: "string list \<Rightarrow> obj \<Rightarrow> obj" where
  "prune_value prune (JObj m) = JObj (prune_entries prune m)"
| "prune_value prune v = v"
| "prune_entries prune [] = []"
| "prune_entries prune ((k, v) # m) =
     (if k \<in> set prune then prune_entries prune m else (k, prune_value prune v) # prune_entries prune m)"

definition property_is_unsatisfiable :: "json \<Rightarrow> bool" where
  "property_is_unsatisfiable s \<longleftrightarrow>
     s = JBool False \<or> json_get s ''not'' = Some (JObj []) \<or> json_get s ''not'' = Some (JBool True)"

definition generate_prop_value :: "walker \<Rightarrow> generate_options \<Rightarrow> json \<Rightarrow> nat \<Rightarrow> json gen" where
  "generate_prop_value w opts s depth =
     gmap (\<lambda>v.
         if v = JNull \<and> go_prune_properties opts \<noteq> []
            \<and> (case as_object s of
                 Some m \<Rightarrow> list_all (\<lambda>e. fst e \<in> set (go_prune_properties opts)) m \<and> m \<noteq> [] | None \<Rightarrow> False)
         then JObj [] else v)
       (walk_schema w opts s (depth + 1))"

definition generate_property_with_patterns ::
  "walker \<Rightarrow> generate_options \<Rightarrow> string \<Rightarrow> json \<Rightarrow> obj \<Rightarrow> nat \<Rightarrow> json gen" where
  "generate_property_with_patterns w opts key s patterns depth =
     gthen (push_path ''properties'') (gthen (push_path key)
       (gbind (generate_prop_value w opts (merge_matching_patterns (wk_regex w) key s patterns) depth) (\<lambda>v.
         gthen pop_path (gthen pop_path (ret v)))))"

definition should_include_optional :: "generate_options \<Rightarrow> bool gen" where
  "should_include_optional opts =
     (if go_always_fake_optionals opts then ret True
      else if go_required_only opts then ret False
      else should_include (unwrap_or (go_optionals_probability opts) (Fin (1 / 2))))"

section \<open>The shape of an object\<close>

record object_shape =
  os_required :: "string list"
  os_properties :: obj
  os_patterns :: obj
  os_additional :: "json option"
  os_names :: "json option"
  os_min :: nat
  os_max :: "nat option"

definition object_shape_of :: "json \<Rightarrow> object_shape" where
  "object_shape_of s =
     \<lparr>os_required = names_at s ''required'',
      os_properties = unwrap_or (obj_at s ''properties'') [],
      os_patterns = unwrap_or (obj_at s ''patternProperties'') [],
      os_additional = json_get s ''additionalProperties'',
      os_names = json_get s ''propertyNames'',
      os_min = min (unwrap_or (u64_at s ''minProperties'') 0) MAX_GENERATED_PROPERTIES,
      os_max = map_option (\<lambda>v. min v MAX_GENERATED_PROPERTIES) (u64_at s ''maxProperties'')\<rparr>"

definition additional_false :: "object_shape \<Rightarrow> bool" where
  "additional_false os \<longleftrightarrow> os_additional os = Some (JBool False)"

text \<open>The schema of additional properties, when it is not a truth value.\<close>

definition additional_schema :: "object_shape \<Rightarrow> json option" where
  "additional_schema os = Option.bind (os_additional os) (\<lambda>v. if as_bool v = None then Some v else None)"

definition put_property :: "generate_options \<Rightarrow> string \<Rightarrow> json \<Rightarrow> obj \<Rightarrow> obj" where
  "put_property opts key v m = obj_insert key (prune_value (go_prune_properties opts) v) m"

text \<open>A required property keeps its slot when the branch was cut; an optional one is left out.\<close>

definition put_required :: "generate_options \<Rightarrow> string \<Rightarrow> json \<Rightarrow> obj \<Rightarrow> obj" where
  "put_required opts key v m = put_property opts key (if is_skip_sentinel v then JObj [] else v) m"

definition put_optional :: "generate_options \<Rightarrow> string \<Rightarrow> json \<Rightarrow> obj \<Rightarrow> obj" where
  "put_optional opts key v m = (if is_skip_sentinel v then m else put_property opts key v m)"

section \<open>Declared and required properties\<close>

definition add_declared ::
  "walker \<Rightarrow> generate_options \<Rightarrow> object_shape \<Rightarrow> nat \<Rightarrow> string \<times> json \<Rightarrow> obj \<Rightarrow> obj gen" where
  "add_declared w opts os depth prop m =
     (case prop of (key, s) \<Rightarrow>
        let element = generate_property_with_patterns w opts key s (os_patterns os) depth in
        if key \<in> set (go_ignore_properties opts) then ret m
        else if key \<in> set (os_required os) then gmap (\<lambda>v. put_required opts key v m) element
        else if property_is_unsatisfiable s \<or> go_required_only opts then ret m
        else gbind (should_include_optional opts) (\<lambda>include.
               if include then gmap (\<lambda>v. put_optional opts key v m) element else ret m))"

definition required_base :: "compiler \<Rightarrow> object_shape \<Rightarrow> string \<Rightarrow> json" where
  "required_base rx os key =
     unwrap_or (or_else (map_of (os_properties os) key)
               (or_else (find_pattern_schema_for_key rx key (os_patterns os))
                        (additional_schema os))) (JObj [])"

definition add_required ::
  "walker \<Rightarrow> generate_options \<Rightarrow> object_shape \<Rightarrow> nat \<Rightarrow> string \<Rightarrow> obj \<Rightarrow> obj gen" where
  "add_required w opts os depth key m =
     (if contains_key m key \<or> key \<in> set (go_ignore_properties opts) then ret m
      else gmap (\<lambda>v. put_required opts key v m)
             (generate_property_with_patterns w opts key (required_base (wk_regex w) os key) (os_patterns os) depth))"

definition backfill_declared ::
  "walker \<Rightarrow> generate_options \<Rightarrow> object_shape \<Rightarrow> nat \<Rightarrow> string \<times> json \<Rightarrow> obj \<Rightarrow> obj gen" where
  "backfill_declared w opts os depth prop m =
     (case prop of (key, s) \<Rightarrow>
        if os_min os \<le> length m \<or> contains_key m key \<or> key \<in> set (go_ignore_properties opts)
           \<or> property_is_unsatisfiable s then ret m
        else gmap (\<lambda>v. put_optional opts key v m)
               (generate_property_with_patterns w opts key s (os_patterns os) depth))"

definition add_pattern_property ::
  "walker \<Rightarrow> generate_options \<Rightarrow> object_shape \<Rightarrow> nat \<Rightarrow> string \<times> json \<Rightarrow> obj \<Rightarrow> obj gen" where
  "add_pattern_property w opts os depth prop m =
     (case prop of (pattern, s) \<Rightarrow>
        gbind (generate_key_for_pattern pattern) (\<lambda>name.
          if contains_key m name \<or> name \<in> set (go_ignore_properties opts) \<or> additional_false os then ret m
          else gbind (if name \<in> set (os_required os) then ret True else should_include_optional opts) (\<lambda>include.
                 if include then gmap (\<lambda>v. put_property opts name v m) (generate_prop_value w opts s depth)
                 else ret m)))"

section \<open>Extra properties\<close>

text \<open>
  \<open>while obj.len() < limit\<close>: a name that was taken is tried again without bound; names that could not be
  produced have a budget.
\<close>

primrec fill_extra ::
  "nat \<Rightarrow> walker \<Rightarrow> generate_options \<Rightarrow> object_shape \<Rightarrow> json \<Rightarrow> nat \<Rightarrow> nat \<Rightarrow> nat \<Rightarrow> nat \<Rightarrow> obj \<Rightarrow> obj gen" where
  "fill_extra 0 w opts os s depth limit idx skips m = gfuel"
| "fill_extra (Suc n) w opts os s depth limit idx skips m =
     (if limit \<le> length m then ret m
      else
        gbind (generate_constrained_key (wk_env w) (os_names os) idx ''extra'') (\<lambda>candidate.
          case candidate of
            None \<Rightarrow>
              if skips = 0 then ret m
              else fill_extra n w opts os s depth limit (idx + 1) (skips - 1) m
          | Some key \<Rightarrow>
              if contains_key m key then fill_extra n w opts os s depth limit (idx + 1) skips m
              else gbind (generate_prop_value w opts s depth) (\<lambda>v.
                     fill_extra n w opts os s depth limit (idx + 1) skips (put_property opts key v m))))"

definition add_extra :: "walker \<Rightarrow> generate_options \<Rightarrow> object_shape \<Rightarrow> nat \<Rightarrow> obj \<Rightarrow> obj gen" where
  "add_extra w opts os depth m =
     (case additional_schema os of
        None \<Rightarrow> ret m
      | Some s \<Rightarrow>
          (let target = unwrap_or (os_max os) (max (length m) (os_min os))
           in if length m < os_min os
              then fill_extra (wk_budget w) w opts os s depth (min (os_min os) (target + 1)) (length m)
                     PROPERTY_SKIP_BUDGET m
              else ret m))"

definition suffixed_key :: "string \<Rightarrow> string \<Rightarrow> nat \<Rightarrow> string" where
  "suffixed_key pattern base idx =
     (if starts_with pattern ''^'' \<and> \<not> ends_with pattern ''$'' then base @ show_nat idx
      else if \<not> starts_with pattern ''^'' \<and> ends_with pattern ''$'' then show_nat idx @ base
      else base @ ''_'' @ show_nat idx)"

definition fill_pattern ::
  "walker \<Rightarrow> generate_options \<Rightarrow> nat \<Rightarrow> nat \<Rightarrow> string \<times> json \<Rightarrow> nat \<Rightarrow> obj \<Rightarrow> obj gen" where
  "fill_pattern w opts min_props depth prop idx m =
     (if min_props \<le> length m then ret m
      else
        case prop of (pattern, s) \<Rightarrow>
          gbind (generate_key_for_pattern pattern) (\<lambda>base.
            let candidate = suffixed_key pattern base idx
            in if key_matches_pattern (wk_regex w) candidate pattern \<and> \<not> contains_key m candidate
                  \<and> candidate \<notin> set (go_ignore_properties opts)
               then gmap (\<lambda>v. if v = JNull then m else put_optional opts candidate v m)
                      (generate_prop_value w opts s depth)
               else ret m))"

definition fill_min_props_with_patterns ::
  "walker \<Rightarrow> generate_options \<Rightarrow> nat \<Rightarrow> obj \<Rightarrow> nat \<Rightarrow> obj \<Rightarrow> obj gen" where
  "fill_min_props_with_patterns w opts min_props patterns depth m =
     gfold (\<lambda>prop. gfold (fill_pattern w opts min_props depth prop) [0..<200]) patterns m"

primrec fill_to_min ::
  "nat \<Rightarrow> walker \<Rightarrow> generate_options \<Rightarrow> object_shape \<Rightarrow> json \<Rightarrow> nat \<Rightarrow> nat \<Rightarrow> obj \<Rightarrow> obj gen" where
  "fill_to_min 0 w opts os s depth idx m = ret m"
| "fill_to_min (Suc safety) w opts os s depth idx m =
     (if os_min os \<le> length m then ret m
      else
        gbind (generate_constrained_key (wk_env w) (os_names os) idx ''prop'') (\<lambda>candidate.
          case candidate of
            None \<Rightarrow> fill_to_min safety w opts os s depth (idx + 1) m
          | Some key \<Rightarrow>
              if contains_key m key \<or> key_matches_any_pattern (wk_regex w) key (os_patterns os)
              then fill_to_min safety w opts os s depth (idx + 1) m
              else gbind (generate_prop_value w opts s depth) (\<lambda>v.
                     fill_to_min safety w opts os s depth (idx + 1) (put_optional opts key v m))))"

definition add_fill :: "walker \<Rightarrow> generate_options \<Rightarrow> object_shape \<Rightarrow> nat \<Rightarrow> obj \<Rightarrow> obj gen" where
  "add_fill w opts os depth m =
     (if go_fill_properties opts \<and> length m < os_min os \<and> \<not> additional_false os
      then fill_to_min MIN_PROPS_FILL_BUDGET w opts os (unwrap_or (additional_schema os) (JObj [])) depth (length m) m
      else ret m)"

lemma obj_remove_shorter: "k \<in> fst ` set m \<Longrightarrow> length (obj_remove k m) < length m"
  unfolding obj_remove_def by (auto intro!: length_filter_less)

lemma find_mem: "List.find p xs = Some x \<Longrightarrow> x \<in> set xs \<and> p x"
  by (auto simp: find_Some_iff)

function trim_to_max :: "string list \<Rightarrow> nat \<Rightarrow> obj \<Rightarrow> obj" where
  "trim_to_max required mx m =
     (if mx < length m then
        (case List.find (\<lambda>k. k \<notin> set required) (rev (map fst m)) of
           Some key \<Rightarrow> trim_to_max required mx (obj_remove key m)
         | None \<Rightarrow> m)
      else m)"
  by pat_completeness auto
termination
  by (relation "measure (\<lambda>(required, mx, m). length m)")
     (auto dest!: find_mem intro!: obj_remove_shorter)

declare trim_to_max.simps [simp del]

section \<open>Dependencies\<close>

definition add_dependent ::
  "walker \<Rightarrow> generate_options \<Rightarrow> json \<Rightarrow> nat \<Rightarrow> json \<Rightarrow> obj \<Rightarrow> obj gen" where
  "add_dependent w opts s depth entry m =
     (case as_str entry of
        None \<Rightarrow> ret m
      | Some key \<Rightarrow>
          if contains_key m key then ret m
          else gmap (\<lambda>v. obj_insert key v m)
                 (walk_schema w opts (unwrap_or (map_of (unwrap_or (obj_at s ''properties'') []) key) (JObj []))
                    (depth + 1)))"

definition add_all_dependent ::
  "walker \<Rightarrow> generate_options \<Rightarrow> json \<Rightarrow> nat \<Rightarrow> json list \<Rightarrow> obj \<Rightarrow> obj gen" where
  "add_all_dependent w opts s depth = gfold (add_dependent w opts s depth)"

definition sub_matches_trigger :: "compiler \<Rightarrow> string \<Rightarrow> json \<Rightarrow> json \<Rightarrow> bool" where
  "sub_matches_trigger rx trigger_key trigger_val sub \<longleftrightarrow>
     (case Option.bind (obj_at sub ''properties'') (\<lambda>props. map_of props trigger_key) of
        Some c \<Rightarrow> value_satisfies_simple_constraints rx trigger_val c
      | None \<Rightarrow> False)"

definition add_constrained_props_as_required :: "string \<Rightarrow> json \<Rightarrow> json" where
  "add_constrained_props_as_required trigger_key s =
     (let ks = filter (\<lambda>k. k \<noteq> trigger_key) (keys_at s ''properties'')
      in if ks = [] then s
         else set_key ''required''
                (JArr (fold (\<lambda>k req. if JStr k \<in> set req then req else req @ [JStr k]) ks
                         (unwrap_or (arr_at s ''required'') []))) s)"

definition chosen_dependency :: "compiler \<Rightarrow> json \<Rightarrow> string \<Rightarrow> json \<Rightarrow> string \<Rightarrow> json option" where
  "chosen_dependency rx dep trigger_key trigger_val kw =
     (case filter (sub_matches_trigger rx trigger_key trigger_val) (unwrap_or (arr_at dep kw) []) of
        [sub] \<Rightarrow> Some (add_constrained_props_as_required trigger_key (deep_merge (without [kw] dep) sub))
      | _ \<Rightarrow> None)"

definition resolve_composition_for_trigger :: "compiler \<Rightarrow> json \<Rightarrow> string \<Rightarrow> obj \<Rightarrow> json" where
  "resolve_composition_for_trigger rx dep trigger_key m =
     (case map_of m trigger_key of
        None \<Rightarrow> dep
      | Some v \<Rightarrow> unwrap_or (find_map (chosen_dependency rx dep trigger_key v) [''oneOf'', ''anyOf'']) dep)"

definition entry_or_insert :: "string \<times> json \<Rightarrow> obj \<Rightarrow> obj" where
  "entry_or_insert e m = (if contains_key m (fst e) then m else obj_insert (fst e) (snd e) m)"

definition add_dependent_schema ::
  "walker \<Rightarrow> generate_options \<Rightarrow> nat \<Rightarrow> string \<times> json \<Rightarrow> obj \<Rightarrow> obj gen" where
  "add_dependent_schema w opts depth dep m =
     (if contains_key m (fst dep) then
        gmap (\<lambda>extra. fold entry_or_insert (unwrap_or (as_object extra) []) m)
          (walk_schema w opts (snd dep) (depth + 1))
      else ret m)"

definition add_dependency ::
  "walker \<Rightarrow> generate_options \<Rightarrow> json \<Rightarrow> nat \<Rightarrow> string \<times> json \<Rightarrow> obj \<Rightarrow> obj gen" where
  "add_dependency w opts s depth dep m =
     (if contains_key m (fst dep) then
        (case snd dep of
           JArr arr \<Rightarrow> add_all_dependent w opts s depth arr m
         | JObj d \<Rightarrow>
             gmap (\<lambda>extra. fold (\<lambda>e. obj_insert (fst e) (snd e))
                             (filter (\<lambda>e. fst e \<noteq> fst dep) (unwrap_or (as_object extra) [])) m)
               (walk_schema w opts (resolve_composition_for_trigger (wk_regex w) (JObj d) (fst dep) m) (depth + 1))
         | _ \<Rightarrow> ret m)
      else ret m)"

definition handle_dependencies :: "walker \<Rightarrow> generate_options \<Rightarrow> json \<Rightarrow> nat \<Rightarrow> obj \<Rightarrow> obj gen" where
  "handle_dependencies w opts s depth m =
     gbind (gfold (\<lambda>dep m. if contains_key m (fst dep)
                            then add_all_dependent w opts s depth (unwrap_or (as_array (snd dep)) []) m
                            else ret m)
              (unwrap_or (obj_at s ''dependentRequired'') []) m) (\<lambda>m1.
     gbind (gfold (add_dependent_schema w opts depth) (unwrap_or (obj_at s ''dependentSchemas'') []) m1)
       (gfold (add_dependency w opts s depth) (unwrap_or (obj_at s ''dependencies'') [])))"

section \<open>Errors\<close>

definition object_cap_error :: "string \<Rightarrow> nat option \<Rightarrow> unit gen" where
  "object_cap_error keyword raw =
     (case raw of
        Some n \<Rightarrow>
          gwhen (MAX_GENERATED_PROPERTIES < n) (error_here (\<lambda>path. SchemaError path
            (''object keyword '' @ keyword @ ''='' @ show_nat n @ '' capped to ''
             @ show_nat MAX_GENERATED_PROPERTIES @ '' for safety'')))
      | None \<Rightarrow> ret ())"

definition object_keyword_errors :: "json \<Rightarrow> unit gen" where
  "object_keyword_errors s =
     (let required = names_at s ''required''; raw_max = u64_at s ''maxProperties'' in
      gthen (case raw_max of
               Some mx \<Rightarrow>
                 gwhen (mx < length required) (error_here (\<lambda>path. SchemaError path
                   (''maxProperties ('' @ show_nat mx @ '') less than required count ('' @ show_nat (length required)
                    @ '')'')))
             | None \<Rightarrow> ret ())
     (gthen (object_cap_error ''minProperties'' (u64_at s ''minProperties''))
            (object_cap_error ''maxProperties'' raw_max)))"

definition undeclared_required :: "compiler \<Rightarrow> object_shape \<Rightarrow> string list" where
  "undeclared_required rx os =
     filter (\<lambda>k. \<not> contains_key (os_properties os) k \<and> \<not> key_matches_any_pattern rx k (os_patterns os))
       (os_required os)"

definition quoted_names :: "string list \<Rightarrow> string" where
  "quoted_names names = quoted (join [CHR 0x27, CHR '','', CHR '' '', CHR 0x27] names)"

definition too_few_properties :: "object_shape \<Rightarrow> nat \<Rightarrow> unit gen" where
  "too_few_properties os target_min =
     (let avail = length (os_properties os) + length (os_patterns os);
          more_than_available =
            (avail < target_min
             \<or> list_ex (\<lambda>r. \<not> contains_key (os_properties os) r \<and> os_patterns os = []) (os_required os))
      in gwhen more_than_available
           (if 0 < avail \<and> os_patterns os = [] \<and> (os_min os = 0 \<or> length (os_properties os) < os_min os)
            then set_error (AdditionalPropertiesBlocked
                   (join [CHR 0x27, CHR '','', CHR '' '', CHR 0x27] (map fst (os_properties os))))
            else error_here (MissingProperties (quoted (show_nat target_min)))))"

definition object_errors :: "compiler \<Rightarrow> object_shape \<Rightarrow> obj \<Rightarrow> unit gen" where
  "object_errors rx os m =
     (let missing = undeclared_required rx os; target_min = max (os_min os) (length (os_required os)) in
      gthen (gwhen (additional_false os \<and> missing \<noteq> []) (error_here (MissingProperties (quoted_names missing))))
        (gwhen (additional_false os \<and> length m < target_min) (too_few_properties os target_min)))"

section \<open>The object\<close>

definition apply_prop_alias :: "string \<times> string \<Rightarrow> obj \<Rightarrow> obj" where
  "apply_prop_alias a m = (if fst a = snd a \<or> contains_key m (snd a) then m else rename_key a m)"

definition apply_prop_aliases :: "string str_map \<Rightarrow> obj \<Rightarrow> obj" where
  "apply_prop_aliases aliases m = fold apply_prop_alias (sort_key fst aliases) m"

definition omit_null_properties :: "string list \<Rightarrow> obj \<Rightarrow> obj" where
  "omit_null_properties required m = filter (\<lambda>(k, v). \<not> (v = JNull \<and> k \<notin> set required)) m"

definition drawn_properties :: "walker \<Rightarrow> generate_options \<Rightarrow> object_shape \<Rightarrow> nat \<Rightarrow> obj gen" where
  "drawn_properties w opts os depth =
     gbind (gfold (add_declared w opts os depth) (os_properties os) []) (\<lambda>m1.
     gbind (gfold (add_required w opts os depth) (os_required os) m1) (\<lambda>m2.
     gbind (if additional_false os then gfold (backfill_declared w opts os depth) (os_properties os) m2
            else ret m2) (\<lambda>m3.
     gbind (gfold (add_pattern_property w opts os depth) (os_patterns os) m3) (\<lambda>m4.
     gbind (add_extra w opts os depth m4) (\<lambda>m5.
     gbind (if length m5 < os_min os
            then fill_min_props_with_patterns w opts (os_min os) (os_patterns os) depth m5 else ret m5) (\<lambda>m6.
     gmap (\<lambda>m7. case os_max os of Some mx \<Rightarrow> trim_to_max (os_required os) mx m7 | None \<Rightarrow> m7)
       (add_fill w opts os depth m6)))))))"

definition finish_object :: "generate_options \<Rightarrow> string list \<Rightarrow> obj \<Rightarrow> json" where
  "finish_object opts required m =
     (let renamed = apply_prop_aliases (go_prop_aliases opts) m
      in JObj (if go_omit_nulls opts then omit_null_properties required renamed else renamed))"

definition generate_object :: "walker \<Rightarrow> generate_options \<Rightarrow> json \<Rightarrow> nat \<Rightarrow> json gen" where
  "generate_object w opts s depth =
     (let os = object_shape_of s in
      gthen (object_keyword_errors s)
     (gbind (drawn_properties w opts os depth) (\<lambda>m.
      gbind (handle_dependencies w opts s depth m) (\<lambda>out.
      gthen (object_errors (wk_regex w) os out) (ret (finish_object opts (os_required os) out))))))"

end
