(* ===== verification/Walker.thy ===== *)
theory Walker
  imports FakeObject
begin

text \<open>
  \<open>walk_inner\<close> of \<open>schema_walker.rs\<close>, keyword after keyword, the recursion it closes over the generators, and
  \<open>generate\<close> of \<open>lib.rs\<close> with its registries. Each call of the walk spends one unit of a budget.
\<close>

section \<open>Types\<close>

definition dispatch_type :: "walker \<Rightarrow> generate_options \<Rightarrow> json \<Rightarrow> nat \<Rightarrow> string \<Rightarrow> json gen" where
  "dispatch_type w opts s depth type_hint =
     (if type_hint = ''string'' then generate_string (wk_env w) s opts
      else if type_hint = ''number'' then generate_number s
      else if type_hint = ''integer'' then generate_integer s
      else if type_hint = ''boolean'' then gmap JBool rng_bool
      else if type_hint = ''null'' then ret JNull
      else if type_hint = ''array'' then generate_array w opts s depth
      else if type_hint = ''object'' then generate_object w opts s depth
      else ret JNull)"

definition of_type :: "string \<Rightarrow> json" where
  "of_type t = JObj [(''type'', JStr t)]"

definition handle_invalid_type :: "walker \<Rightarrow> generate_options \<Rightarrow> string \<Rightarrow> json gen" where
  "handle_invalid_type w opts type_name =
     (if go_fail_on_invalid_type opts then
        gthen (error_here (\<lambda>base. InvalidType type_name (if base = ''/'' then ''/type'' else base @ ''/type'')))
          (ret JNull)
      else
        case go_default_invalid_type_product opts of
          Some (JStr t) \<Rightarrow> dispatch_type w opts (of_type t) 0 (type_str_to_static t)
        | Some v \<Rightarrow> ret v
        | None \<Rightarrow> ret JNull)"

section \<open>References\<close>

definition terminal_of :: "walker \<Rightarrow> json \<Rightarrow> json gen" where
  "terminal_of w s = terminal_value_for_schema_with_root (wk_budget w) (wk_env w) (wk_doc w) s []"

text \<open>The depth of references is raised for the walk of the target.\<close>

definition enter_ref :: "json gen \<Rightarrow> json gen" where
  "enter_ref m =
     gthen (modify (\<lambda>g. g\<lparr>rg_ref_depth := rg_ref_depth g + 1\<rparr>))
       (gbind m (\<lambda>v. gthen (modify (\<lambda>g. g\<lparr>rg_ref_depth := rg_ref_depth g - 1\<rparr>)) (ret v)))"

definition walk_ref :: "walker \<Rightarrow> generate_options \<Rightarrow> json \<Rightarrow> string \<Rightarrow> nat \<Rightarrow> json gen" where
  "walk_ref w opts s ref_str depth =
     gbind (gets rg_ref_depth) (\<lambda>d.
       if go_ref_depth_max opts \<le> d + 1 then terminal_of w s
       else
         case or_else (resolve_fresh (wk_resolver w opts) ref_str) (map_of (go_external_refs opts) ref_str) of
           Some resolved \<Rightarrow>
             enter_ref (wk_walk w opts
               (if schema_has_sibling_keywords s then deep_merge resolved (schema_without_ref s) else resolved)
               (depth + 1))
         | None \<Rightarrow>
             gthen (set_error (UnresolvedRef
                     (if starts_with ref_str ''#'' then ''internal ref '' @ quoted ref_str @ '' not found'' else ref_str)))
               (ret JNull))"

section \<open>Compositions\<close>

definition is_typed :: "json \<Rightarrow> bool" where
  "is_typed s \<longleftrightarrow> has s ''type'' \<or> has s ''properties''"

definition walk_all_of :: "walker \<Rightarrow> generate_options \<Rightarrow> json \<Rightarrow> nat \<Rightarrow> json gen" where
  "walk_all_of w opts s depth =
     (let subs = unwrap_or (arr_at s ''allOf'') []; r = wk_resolver w opts in
      if is_typed s \<and> infer_type s = ''multi'' then
        walk_with_multi_type w opts
          (fold (\<lambda>sub merged. deep_merge merged (resolve_sub_schema r sub)) subs (without [''allOf''] s)) depth
      else if is_typed s \<and> infer_type s \<noteq> ''unknown'' then
        (case merge_subs (resolve_sub_schema r) subs (without [''allOf''] s) of
           (merged, contains) \<Rightarrow>
             gbind (if merged_has_composition merged then wk_walk w opts merged (depth + 1)
                    else dispatch_type w opts merged depth (infer_type merged))
               (overlay_contains w opts depth contains))
      else generate_all_of w opts s depth)"

text \<open>\<open>anyOf\<close> and \<open>oneOf\<close> share their shape: a filtered enumeration, a typed schema, the generator.\<close>

definition walk_branches ::
  "string \<Rightarrow> (compiler \<Rightarrow> json \<Rightarrow> json list option) \<Rightarrow> (walker \<Rightarrow> generate_options \<Rightarrow> json \<Rightarrow> nat \<Rightarrow> json gen) \<Rightarrow>
    walker \<Rightarrow> generate_options \<Rightarrow> json \<Rightarrow> nat \<Rightarrow> json gen" where
  "walk_branches keyword filter_enum generator w opts s depth =
     (case (if has s ''enum'' then filter_enum (wk_regex w) s else None) of
        Some filtered \<Rightarrow> generate_enum (without [keyword] (set_key ''enum'' (JArr filtered) s))
      | None \<Rightarrow>
          (let type_hint = infer_type s in
           if is_typed s \<and> type_hint \<noteq> ''unknown'' \<and> type_hint \<noteq> ''multi'' then
             gbind (pick_branch_compatible_with_base s keyword) (\<lambda>(chosen_idx, branch).
               let merged0 = without [keyword] (merge_with_constraint s branch);
                   merged = (if type_hint = ''object'' then apply_exclusivity_pruning merged0 s keyword chosen_idx
                             else merged0)
               in if has merged ''allOf'' \<or> merged_has_composition merged \<or> has merged ''enum'' \<or> has merged ''const''
                  then wk_walk w opts merged (depth + 1)
                  else dispatch_type w opts merged depth (infer_type merged))
           else generator w opts s depth))"

definition walk_any_of :: "walker \<Rightarrow> generate_options \<Rightarrow> json \<Rightarrow> nat \<Rightarrow> json gen" where
  "walk_any_of = walk_branches ''anyOf'' filter_enum_for_any_of generate_any_of"

definition walk_one_of :: "walker \<Rightarrow> generate_options \<Rightarrow> json \<Rightarrow> nat \<Rightarrow> json gen" where
  "walk_one_of = walk_branches ''oneOf'' filter_enum_for_one_of generate_one_of"

definition walk_if_then_else :: "walker \<Rightarrow> generate_options \<Rightarrow> json \<Rightarrow> nat \<Rightarrow> json gen" where
  "walk_if_then_else w opts s depth =
     (case json_get s ''if'' of
        None \<Rightarrow> ret JNull
      | Some if_schema \<Rightarrow>
          (let base = without [''if'', ''then'', ''else''] s in
           gbind (wk_walk w opts (if schemas_contradict base if_schema then base else deep_merge base if_schema) (depth + 1))
             (\<lambda>if_result.
               let met = if_schema_evaluates_true_for (wk_regex w) if_result if_schema
               in case json_get s (if met then ''then'' else ''else'') of
                    Some branch \<Rightarrow>
                      if branch \<noteq> JBool False
                      then wk_walk w opts (deep_merge (if met then deep_merge base if_schema else base) branch) (depth + 1)
                      else wk_walk w opts base (depth + 1)
                  | None \<Rightarrow> wk_walk w opts base (depth + 1))))"

fun first_other_type :: "walker \<Rightarrow> generate_options \<Rightarrow> nat \<Rightarrow> string \<Rightarrow> string list \<Rightarrow> json gen" where
  "first_other_type w opts depth excluded [] = ret JNull"
| "first_other_type w opts depth excluded (t # ts) =
     (if t = excluded then first_other_type w opts depth excluded ts
      else gbind (dispatch_type w opts (of_type t) depth t) (\<lambda>v.
             if v \<noteq> JNull \<or> t = ''null'' then ret v else first_other_type w opts depth excluded ts))"

definition generate_not :: "walker \<Rightarrow> generate_options \<Rightarrow> json \<Rightarrow> nat \<Rightarrow> json gen" where
  "generate_not w opts s depth =
     (case json_get s ''not'' of
        None \<Rightarrow> ret JNull
      | Some not_schema \<Rightarrow>
          first_other_type w opts depth (unwrap_or (str_at not_schema ''type'') [])
            [''string'', ''number'', ''boolean'', ''array'', ''object'', ''null''])"

section \<open>Hints\<close>

definition or_continue :: "'a option gen \<Rightarrow> 'a gen \<Rightarrow> 'a gen" where
  "or_continue m k = gbind m (\<lambda>r. case r of Some v \<Rightarrow> ret v | None \<Rightarrow> k)"

definition invoke_hint :: "walker \<Rightarrow> string \<Rightarrow> json \<Rightarrow> json option gen" where
  "invoke_hint w keyword s = invoke_extension_from_opts (wk_env w) (wk_extensions w) keyword s (wk_doc w) None []"

definition faker_hint :: "walker \<Rightarrow> generate_options \<Rightarrow> json \<Rightarrow> string \<Rightarrow> json option gen" where
  "faker_hint w opts s key =
     (case str_at s key of
        None \<Rightarrow> ret None
      | Some name \<Rightarrow>
          gbind (invoke_hint w ''faker'' s) (\<lambda>r. case r of
            Some v \<Rightarrow> ret (Some v)
          | None \<Rightarrow>
              gthen (gwhen (go_fail_on_invalid_format opts \<and> \<not> is_known_faker_key name)
                       (error_here (UnknownFakerGenerator name)))
                (ret None)))"

definition chance_hint :: "walker \<Rightarrow> json \<Rightarrow> json option gen" where
  "chance_hint w s = (if has s ''chance'' then invoke_hint w ''chance'' s else ret None)"

definition auto_increment :: "faker_env \<Rightarrow> json \<Rightarrow> json option gen" where
  "auto_increment env s =
     (if bool_at s ''autoIncrement'' = Some True then
        gbind (auto_increment_key env s) (\<lambda>key.
          gmap (\<lambda>n. Some (json_int n))
            (next_auto_increment key (unwrap_or (Option.bind (json_get s ''initialOffset'') as_i64) 0)))
      else ret None)"

section \<open>The walk of a node\<close>

definition lift_run :: "'a run \<Rightarrow> 'a gen" where
  "lift_run r = (\<lambda>g. run_map (\<lambda>x. (x, g)) r)"

definition finish_value :: "walker \<Rightarrow> generate_options \<Rightarrow> json \<Rightarrow> json \<Rightarrow> json gen" where
  "finish_value w opts s v =
     lift_run (apply_unevaluated_constraints (wk_budget w) (wk_regex w) (wk_doc w) opts s v)"

definition walk_known_type :: "walker \<Rightarrow> generate_options \<Rightarrow> json \<Rightarrow> nat \<Rightarrow> string \<Rightarrow> json gen" where
  "walk_known_type w opts s depth type_hint =
     (let element = dispatch_type w opts s depth type_hint;
          plain = gbind element (finish_value w opts s)
      in case json_get s ''not'' of
           None \<Rightarrow> plain
         | Some not_schema \<Rightarrow>
             if not_schema_is_checkable not_schema then
               gbind (first_accepted 30 (\<lambda>v. \<not> value_matches_not_schema v not_schema) element) (\<lambda>r. case r of
                 Some v \<Rightarrow> finish_value w opts s v
               | None \<Rightarrow>
                   gthen (error_here (\<lambda>path. SchemaError path ''not constraint could not be satisfied after 30 attempts''))
                     (ret JNull))
             else plain)"

definition walk_typed :: "walker \<Rightarrow> generate_options \<Rightarrow> json \<Rightarrow> nat \<Rightarrow> json gen" where
  "walk_typed w opts s depth =
     (let type_hint = infer_type s in
      if type_hint = ''unknown'' then
        (case str_at s ''type'' of
           Some t \<Rightarrow> handle_invalid_type w opts t
         | None \<Rightarrow>
             (case as_anonymous_object s of
                Some implicit \<Rightarrow> dispatch_type w opts implicit depth ''object''
              | None \<Rightarrow> ret JNull))
      else if type_hint = ''multi'' then walk_with_multi_type w opts s depth
      else walk_known_type w opts s depth type_hint)"

definition walk_hints :: "walker \<Rightarrow> generate_options \<Rightarrow> json \<Rightarrow> nat \<Rightarrow> json gen" where
  "walk_hints w opts s depth =
     (if has s ''chance'' \<and> has s ''faker'' then gthen (set_error AmbiguousGenerator) (ret JNull)
      else
        or_continue (faker_hint w opts s ''faker'')
       (or_continue (faker_hint w opts s ''x-faker'')
       (or_continue (pick_from_x_faker_object_form s)
       (or_continue (chance_hint w s)
       (or_continue (auto_increment (wk_env w) s)
       (walk_typed w opts s depth))))))"

definition walk_constants :: "walker \<Rightarrow> generate_options \<Rightarrow> json \<Rightarrow> nat \<Rightarrow> json gen" where
  "walk_constants w opts s depth =
     (if has s ''not'' \<and> is_not_only_keyword s then generate_not w opts s depth
      else if has s ''const'' then ret (generate_const s)
      else if has s ''enum'' then
        (case filter_enum_by_outer_constraints (wk_regex w) s of
           Some filtered \<Rightarrow> generate_enum (set_key ''enum'' (JArr filtered) s)
         | None \<Rightarrow> generate_enum s)
      else walk_hints w opts s depth)"

definition walk_keywords :: "walker \<Rightarrow> generate_options \<Rightarrow> json \<Rightarrow> nat \<Rightarrow> json gen" where
  "walk_keywords w opts s depth =
     (let examples = unwrap_or (arr_at s ''examples'') [] in
      if go_use_examples_value opts \<and> examples \<noteq> [] then pick_of examples
      else if go_use_examples_value opts \<and> has s ''example'' then ret (the (json_get s ''example''))
      else if go_use_default_value opts \<and> has s ''default'' then ret (the (json_get s ''default''))
      else if has s ''if'' then walk_if_then_else w opts s depth
      else if has s ''allOf'' then walk_all_of w opts s depth
      else if has s ''anyOf'' then walk_any_of w opts s depth
      else if has s ''oneOf'' then walk_one_of w opts s depth
      else walk_constants w opts s depth)"

definition chooses_null :: "generate_options \<Rightarrow> json \<Rightarrow> nat \<Rightarrow> bool gen" where
  "chooses_null opts s depth =
     (if 0 < depth \<and> bool_at s ''nullable'' = Some True
      then should_include (unwrap_or (go_optionals_probability opts) (round64 (3 / 10)))
      else ret False)"

definition walk_node :: "walker \<Rightarrow> generate_options \<Rightarrow> json \<Rightarrow> nat \<Rightarrow> json gen" where
  "walk_node w opts s depth =
     (case as_bool s of
        Some b \<Rightarrow> gthen (gwhen (\<not> b) (modify (\<lambda>g. g\<lparr>rg_false_seen := True\<rparr>))) (ret JNull)
      | None \<Rightarrow>
          gbind (chooses_null opts s depth) (\<lambda>null.
            if null then ret JNull
            else case str_at s ''$ref'' of
                   Some ref_str \<Rightarrow> walk_ref w opts s ref_str depth
                 | None \<Rightarrow> walk_keywords w opts s depth))"

definition walk_inner :: "walker \<Rightarrow> generate_options \<Rightarrow> json \<Rightarrow> nat \<Rightarrow> json gen" where
  "walk_inner w opts s depth =
     (if go_max_depth opts \<le> depth then
        (if schema_is_recursive_only s then ret skip_sentinel else terminal_of w s)
      else walk_node w opts (unwrap_or (apply_schema_prop_aliases s (go_prop_aliases opts)) s) depth)"

definition walk_step :: "walker \<Rightarrow> generate_options \<Rightarrow> json \<Rightarrow> nat \<Rightarrow> json gen" where
  "walk_step w opts s depth = walk_inner w (unwrap_or (node_level_options s opts) opts) s depth"

text \<open>The recursion.\<close>

primrec walk ::
  "nat \<Rightarrow> faker_env \<Rightarrow> json \<Rightarrow> extension str_map option \<Rightarrow> generate_options \<Rightarrow> json \<Rightarrow> nat \<Rightarrow> json gen" where
  "walk 0 env doc extensions = (\<lambda>opts s depth. gfuel)"
| "walk (Suc n) env doc extensions =
     walk_step \<lparr>wk_env = env, wk_doc = doc, wk_extensions = extensions, wk_budget = n,
                wk_walk = walk n env doc extensions\<rparr>"

definition walker_of :: "nat \<Rightarrow> faker_env \<Rightarrow> json \<Rightarrow> extension str_map option \<Rightarrow> walker" where
  "walker_of n env doc extensions =
     \<lparr>wk_env = env, wk_doc = doc, wk_extensions = extensions, wk_budget = n, wk_walk = walk n env doc extensions\<rparr>"

section \<open>Registries\<close>

text \<open>The two global registries of \<open>lib.rs\<close> have the same operations; \<open>None\<close> before the first definition.\<close>

definition registry_define :: "string \<Rightarrow> 'f \<Rightarrow> 'f str_map option \<Rightarrow> 'f str_map option" where
  "registry_define name f reg = Some ((name, f) # unwrap_or reg [])"

definition registry_reset :: "'f str_map option \<Rightarrow> 'f str_map option" where
  "registry_reset reg = map_option (\<lambda>_. []) reg"

definition registry_get :: "'f str_map option \<Rightarrow> string \<Rightarrow> 'f option" where
  "registry_get reg name = Option.bind reg (\<lambda>m. map_of m name)"

section \<open>\<open>generate\<close>\<close>

fun strip_skip_sentinels :: "json \<Rightarrow> json"
  and strip_entries :: "obj \<Rightarrow> obj"
  and strip_items :: "json list \<Rightarrow> json list" where
  "strip_skip_sentinels (JObj m) = (if is_skip_sentinel (JObj m) then JObj [] else JObj (strip_entries m))"
| "strip_skip_sentinels (JArr xs) = JArr (strip_items xs)"
| "strip_skip_sentinels v = v"
| "strip_entries [] = []"
| "strip_entries ((k, v) # m) = (k, strip_skip_sentinels v) # strip_entries m"
| "strip_items [] = []"
| "strip_items (x # xs) = strip_skip_sentinels x # strip_items xs"

text \<open>The references below a schema, in the order of the callback.\<close>

fun walk_refs :: "json \<Rightarrow> string list"
  and refs_of_entries :: "obj \<Rightarrow> string list"
  and refs_of_items :: "json list \<Rightarrow> string list" where
  "walk_refs (JObj m) = (case map_of m ''$ref'' of Some (JStr r) \<Rightarrow> [r] | _ \<Rightarrow> []) @ refs_of_entries m"
| "walk_refs (JArr xs) = refs_of_items xs"
| "walk_refs v = []"
| "refs_of_entries [] = []"
| "refs_of_entries ((k, v) # m) = walk_refs v @ refs_of_entries m"
| "refs_of_items [] = []"
| "refs_of_items (x # xs) = walk_refs x @ refs_of_items xs"

definition first_unresolvable_ref :: "json \<Rightarrow> json \<Rightarrow> generate_options \<Rightarrow> string option" where
  "first_unresolvable_ref s doc opts =
     List.find (\<lambda>r. \<not> starts_with r ''#'' \<and> resolve_ref doc opts r = None) (walk_refs s)"

definition trim_end_hashes :: "string \<Rightarrow> string" where
  "trim_end_hashes s = rev (dropWhile (\<lambda>c. c = CHR ''#'') (rev s))"

definition supported_dialects :: "string list" where
  "supported_dialects =
     [''http://json-schema.org/draft-04/schema#'', ''https://json-schema.org/draft-04/schema#'',
      ''http://json-schema.org/draft-06/schema#'', ''https://json-schema.org/draft-06/schema#'',
      ''http://json-schema.org/draft-07/schema#'', ''https://json-schema.org/draft-07/schema#'',
      ''https://json-schema.org/draft/2019-09/schema'', ''http://json-schema.org/draft/2019-09/schema'',
      ''https://json-schema.org/draft/2020-12/schema'', ''http://json-schema.org/draft/2020-12/schema'']"

definition is_supported_schema_dialect :: "string \<Rightarrow> bool" where
  "is_supported_schema_dialect dialect \<longleftrightarrow>
     list_ex (\<lambda>d. d = dialect \<or> trim_end_hashes d = trim_end_hashes dialect) supported_dialects"

text \<open>What is checked before anything is drawn.\<close>

definition generation_refused :: "json \<Rightarrow> generate_options \<Rightarrow> faker_error option" where
  "generation_refused s opts =
     (if s = JBool False then Some CannotGenerateForFalseSchema
      else
        let dialect = (if go_validate_schema_version opts then str_at s ''$schema'' else None) in
        case dialect of
          Some d \<Rightarrow>
            if is_supported_schema_dialect d then map_option UnresolvedRef (first_unresolvable_ref s s opts)
            else Some (SchemaError ''/'' (''unsupported $schema dialect: '' @ d))
        | None \<Rightarrow> map_option UnresolvedRef (first_unresolvable_ref s s opts))"

text \<open>
  \<open>own\<close> is the snapshot that the caller put into the options; \<open>clock\<close> the moment of the call, from which the two
  registries are read in turn. The snapshot of the formats is never consulted.
\<close>

definition generate ::
  "nat \<Rightarrow> faker_env \<Rightarrow> extension str_map option \<Rightarrow> nat \<Rightarrow> json \<Rightarrow> generate_options \<Rightarrow> (faker_error + json) run" where
  "generate n env own clock s opts =
     (case generation_refused s opts of
        Some err \<Rightarrow> Done (Inl err)
      | None \<Rightarrow>
          (let g = (rng_new (fe_seeded env (go_seed opts)))\<lparr>rg_fixed := go_fixed_probabilities opts,
                                                            rg_clock := clock + 2\<rparr>;
               extensions = or_else own (fe_extensions env clock)
           in run_map (\<lambda>(v, g').
                case rg_error g' of
                  Some err \<Rightarrow> Inl err
                | None \<Rightarrow> Inr (apply_output_transform (strip_skip_sentinels v) s opts))
              (walk_schema (walker_of n env s extensions) opts s 0 g)))"

end
