(* ===== verification/GenLogic.thy ===== *)
theory GenLogic
  imports Walker
begin

text \<open>
  Rules for generators: what holds of every outcome of a generator that ends, by pre- and postconditions on
  the state, and the special case of an invariant of the state and a property of the value.
\<close>

section \<open>Pre- and postconditions\<close>

definition hoare :: "(rng \<Rightarrow> bool) \<Rightarrow> 'a gen \<Rightarrow> ('a \<Rightarrow> rng \<Rightarrow> bool) \<Rightarrow> bool" where
  "hoare P m Q \<longleftrightarrow> (\<forall>g v g'. P g \<longrightarrow> m g = Done (v, g') \<longrightarrow> Q v g')"

lemma hoareI: "(\<And>g v g'. P g \<Longrightarrow> m g = Done (v, g') \<Longrightarrow> Q v g') \<Longrightarrow> hoare P m Q"
  by (simp add: hoare_def)

lemma hoareD: "hoare P m Q \<Longrightarrow> P g \<Longrightarrow> m g = Done (v, g') \<Longrightarrow> Q v g'"
  by (simp add: hoare_def)

lemma hoare_ret: "(\<And>g. P g \<Longrightarrow> Q x g) \<Longrightarrow> hoare P (ret x) Q"
  by (auto simp: hoare_def ret_def)

lemma gbind_Done_iff: "gbind m f g = Done (v, g') \<longleftrightarrow> (\<exists>x g1. m g = Done (x, g1) \<and> f x g1 = Done (v, g'))"
  by (auto simp: gbind_def run_bind_Done_iff)

lemma hoare_bind: "hoare P m R \<Longrightarrow> (\<And>x. hoare (R x) (f x) Q) \<Longrightarrow> hoare P (gbind m f) Q"
proof (rule hoareI)
  fix g v g'
  assume m: "hoare P m R" and f: "\<And>x. hoare (R x) (f x) Q" and P: "P g" and e: "gbind m f g = Done (v, g')"
  obtain x g1 where 1: "m g = Done (x, g1)" and 2: "f x g1 = Done (v, g')" using e by (auto simp: gbind_Done_iff)
  show "Q v g'" using hoareD [OF f hoareD [OF m P 1] 2] .
qed

lemma hoare_map: "hoare P m (\<lambda>x. Q (f x)) \<Longrightarrow> hoare P (gmap f m) Q"
  unfolding gmap_def by (rule hoare_bind) (auto intro: hoare_ret)

lemma hoare_then: "hoare P m (\<lambda>_. R) \<Longrightarrow> hoare R k Q \<Longrightarrow> hoare P (gthen m k) Q"
  unfolding gthen_def by (rule hoare_bind)

lemma hoare_const: "hoare (\<lambda>_. K) m (\<lambda>_ _. K)"
  by (simp add: hoare_def)

lemma hoare_modify: "(\<And>g. P g \<Longrightarrow> Q () (f g)) \<Longrightarrow> hoare P (modify f) Q"
  by (auto simp: hoare_def modify_def)

lemma hoare_gets: "(\<And>g. P g \<Longrightarrow> Q (f g) g) \<Longrightarrow> hoare P (gets f) Q"
  by (auto simp: hoare_def gets_def)

lemma hoare_weaken: "hoare P m Q \<Longrightarrow> (\<And>g. P' g \<Longrightarrow> P g) \<Longrightarrow> (\<And>v g. Q v g \<Longrightarrow> Q' v g) \<Longrightarrow> hoare P' m Q'"
  unfolding hoare_def by blast

section \<open>Invariants of the state and properties of the value\<close>

definition gval :: "(rng \<Rightarrow> bool) \<Rightarrow> 'a gen \<Rightarrow> ('a \<Rightarrow> bool) \<Rightarrow> bool" where
  "gval I m V \<longleftrightarrow> hoare I m (\<lambda>v g. I g \<and> V v)"

abbreviation yields :: "'a gen \<Rightarrow> ('a \<Rightarrow> bool) \<Rightarrow> bool" where
  "yields m V \<equiv> gval (\<lambda>_. True) m V"

named_theorems gval_intros

lemma gvalD: "gval I m V \<Longrightarrow> I g \<Longrightarrow> m g = Done (v, g') \<Longrightarrow> I g' \<and> V v"
  unfolding gval_def hoare_def by blast

lemma yieldsD: "yields m V \<Longrightarrow> m g = Done (v, g') \<Longrightarrow> V v"
  unfolding gval_def hoare_def by blast

lemma yields_any [gval_intros]: "yields m (\<lambda>_. True)"
  by (simp add: gval_def hoare_def)

lemma gval_ret [gval_intros]: "V x \<Longrightarrow> gval I (ret x) V"
  unfolding gval_def by (rule hoare_ret) simp

lemma gval_bind: "gval I m U \<Longrightarrow> (\<And>x. U x \<Longrightarrow> gval I (f x) V) \<Longrightarrow> gval I (gbind m f) V"
proof -
  assume m: "gval I m U" and f: "\<And>x. U x \<Longrightarrow> gval I (f x) V"
  have "hoare (\<lambda>g. I g \<and> U x) (f x) (\<lambda>v g. I g \<and> V v)" for x
    using f [of x] unfolding gval_def hoare_def by blast
  then show "gval I (gbind m f) V"
    using m unfolding gval_def by (rule hoare_bind [rotated])
qed

lemma gval_bind_any: "gval I m (\<lambda>_. True) \<Longrightarrow> (\<And>x. gval I (f x) V) \<Longrightarrow> gval I (gbind m f) V"
  by (rule gval_bind)

lemma gval_map: "gval I m (\<lambda>x. V (f x)) \<Longrightarrow> gval I (gmap f m) V"
  unfolding gval_def by (rule hoare_map)

lemma gval_then: "gval I m (\<lambda>_. True) \<Longrightarrow> gval I k V \<Longrightarrow> gval I (gthen m k) V"
  unfolding gthen_def by (rule gval_bind)

lemma gval_weaken: "gval I m V \<Longrightarrow> (\<And>v. V v \<Longrightarrow> W v) \<Longrightarrow> gval I m W"
  unfolding gval_def hoare_def by blast

lemma gval_panic [gval_intros]: "gval I gpanic V"
  by (simp add: gval_def hoare_def gpanic_def)

lemma gval_fuel [gval_intros]: "gval I gfuel V"
  by (simp add: gval_def hoare_def gfuel_def)

lemma gval_when: "(b \<Longrightarrow> gval I m (\<lambda>_. True)) \<Longrightarrow> gval I (gwhen b m) (\<lambda>_. True)"
  by (simp add: gwhen_def gval_ret)

lemma gval_if: "(b \<Longrightarrow> gval I m V) \<Longrightarrow> (\<not> b \<Longrightarrow> gval I k V) \<Longrightarrow> gval I (if b then m else k) V"
  by simp

lemma gval_option:
  "(r = None \<Longrightarrow> gval I m V) \<Longrightarrow> (\<And>x. r = Some x \<Longrightarrow> gval I (f x) V) \<Longrightarrow>
   gval I (case r of None \<Rightarrow> m | Some x \<Rightarrow> f x) V"
  by (cases r) auto

lemma gval_fold:
  "V acc \<Longrightarrow> (\<And>x a. x \<in> set xs \<Longrightarrow> V a \<Longrightarrow> gval I (f x a) V) \<Longrightarrow> gval I (gfold f xs acc) V"
  by (induction xs arbitrary: acc) (auto intro: gval_ret gval_bind)

lemma gval_times: "gval I m V \<Longrightarrow> gval I (gtimes n m) (\<lambda>xs. length xs = n \<and> (\<forall>x \<in> set xs. V x))"
  by (induction n) (auto intro!: gval_ret gval_map gval_bind [of I m V] elim: gval_weaken)

lemma gval_first:
  "gval I m (\<lambda>r. \<forall>x. r = Some x \<longrightarrow> V x) \<Longrightarrow> gval I (gfirst n m) (\<lambda>r. \<forall>x. r = Some x \<longrightarrow> V x)"
proof (induction n)
  case (Suc n)
  then show ?case
    by (auto intro!: gval_bind [OF Suc.prems] gval_ret split: option.split)
qed (simp add: gval_ret)

lemma gval_first_accepted:
  "gval I m (\<lambda>_. True) \<Longrightarrow> gval I (first_accepted n ok m) (\<lambda>r. \<forall>x. r = Some x \<longrightarrow> ok x)"
  unfolding first_accepted_def
  by (intro gval_first gval_map) (auto elim!: gval_weaken)

lemma gval_or_continue:
  "gval I m (\<lambda>r. \<forall>x. r = Some x \<longrightarrow> V x) \<Longrightarrow> gval I k V \<Longrightarrow> gval I (or_continue m k) V"
  unfolding or_continue_def by (rule gval_bind, assumption) (auto intro: gval_option gval_ret)

lemmas gval_steps = gval_bind_any gval_map gval_then gval_if gval_option

section \<open>Computing with generators\<close>

lemma ret_apply: "ret x g = Done (x, g)"
  by (simp add: ret_def)

lemma gbind_apply: "gbind m f g = run_bind (m g) (\<lambda>(x, g'). f x g')"
  by (simp add: gbind_def)

lemma gbind_ret [simp]: "gbind (ret x) f = f x"
  by (rule ext) (simp add: gbind_def ret_def)

lemma gthen_ret [simp]: "gthen (ret x) k = k"
  unfolding gthen_def gbind_ret ..

lemma gmap_ret [simp]: "gmap f (ret x) = ret (f x)"
  unfolding gmap_def gbind_ret ..

lemma gwhen_simps [simp]: "gwhen True m = m" "gwhen False m = ret ()"
  by (simp_all add: gwhen_def)

lemma gmap_Done_iff: "gmap f m g = Done (v, g') \<longleftrightarrow> (\<exists>x. m g = Done (x, g') \<and> v = f x)"
  by (auto simp: ret_def gmap_def gbind_def run_bind_Done_iff)

lemma gthen_Done_iff: "gthen m k g = Done (v, g') \<longleftrightarrow> (\<exists>x g1. m g = Done (x, g1) \<and> k g1 = Done (v, g'))"
  by (simp add: gthen_def gbind_Done_iff)


section \<open>A stream that keeps to its ranges\<close>

text \<open>The stream of the examples: always the lower end, the first alternative, and the name of the sampler.\<close>

definition lowest_source :: source where
  "lowest_source =
     \<lparr>src_int = (\<lambda>h lo hi. lo), src_float = (\<lambda>h lo hi. if f_lt lo hi then Done lo else Panic),
      src_chance = (\<lambda>h p. Done (f_le (Fin (1 / 2)) p)), src_index = (\<lambda>h n. 0), src_byte = (\<lambda>h. 0),
      src_sample = (\<lambda>h name. name), src_samples = (\<lambda>h name. [name]), src_flag = (\<lambda>h name. True),
      src_regex = (\<lambda>h pattern. pattern)\<rparr>"

lemma f_lt_le_self: "f_lt a b \<Longrightarrow> f_le a a"
  by (cases a; cases b) (auto simp: f_le_def)

lemma source_ok_lowest: "source_ok lowest_source"
  by (auto simp: source_ok_def lowest_source_def f_lt_le_self split: if_splits)

definition lowest_env :: faker_env where
  "lowest_env =
     \<lparr>fe_seeded = (\<lambda>seed. lowest_source), fe_regex = (\<lambda>p. None), fe_rand_regex = (\<lambda>p. False),
      fe_extensions = (\<lambda>t. None), fe_formats = (\<lambda>t. None), fe_rfc3339 = (\<lambda>s. None), fe_ymd = (\<lambda>s. None),
      fe_civil = (\<lambda>n. None), fe_date_of = (\<lambda>n. (0, 1, 1)), fe_now = (0, 0, 0, 0, 0, 0),
      fe_uppercase = (\<lambda>s. s), fe_to_string = (\<lambda>v. [])\<rparr>"


lemmas key_defs =
  json_get_def as_object_def as_array_def as_str_def as_bool_def as_f64_def as_u64_def
  f64_at_def u64_at_def str_at_def bool_at_def arr_at_def obj_at_def has_def has_any_def

end
