(* ===== verification/FakeBounds.thy ===== *)
theory FakeBounds
  imports GenLogic
begin

text \<open>
  What the generators of scalars and arrays promise: integers within the bounds of a schema and multiples of
  its \<open>multipleOf\<close>, strings and arrays of the lengths it asks for. The bounds hold for every stream that
  keeps to the ranges it is asked for.
\<close>

definition sound :: "rng \<Rightarrow> bool" where
  "sound g \<longleftrightarrow> source_ok (rg_source g)"

section \<open>Draws\<close>

lemma sound_rng_int: "gval sound (rng_int mn mx) (\<lambda>v. mn \<le> v \<and> v \<le> max mn mx)"
  by (auto simp: gval_def hoare_def rng_int_def ret_def draw_with_def sound_def source_ok_def)

lemma sound_pick_index: "gval sound (pick_index n) (\<lambda>i. 0 < n \<longrightarrow> i < n)"
  by (auto simp: gval_def hoare_def pick_index_def ret_def draw_with_def sound_def source_ok_def)

lemma sound_set_error: "gval sound (set_error e) (\<lambda>_. True)"
  by (auto simp: gval_def hoare_def set_error_def modify_def sound_def)

lemma sound_gets: "gval sound (gets f) (\<lambda>_. True)"
  by (auto simp: gval_def hoare_def gets_def)

lemma sound_error_here: "gval sound (error_here e) (\<lambda>_. True)"
  unfolding error_here_def current_path_def by (intro gval_bind_any sound_gets sound_set_error)

section \<open>Multiples\<close>

lemma rem_trunc_pos: "0 \<le> n \<Longrightarrow> 0 < m \<Longrightarrow> rem_trunc n m = n mod m"
  by (cases "n = 0") (auto simp: rem_trunc_def)

lemma rem_trunc_neg: "n < 0 \<Longrightarrow> 0 < m \<Longrightarrow> rem_trunc n m = - ((- n) mod m)"
  by (simp add: rem_trunc_def)

lemma wrap_i64_id: "in_i64 n \<Longrightarrow> wrap_i64 n = n"
  by (auto simp: wrap_i64_def in_i64_def i64_min_def i64_max_def)

lemma next_multiple:
  fixes n m k :: int
  assumes "0 < m" and "n \<le> k * m" and "n mod m \<noteq> 0"
  shows "n + (m - n mod m) \<le> k * m"
proof -
  have n: "n = n div m * m + n mod m" by simp
  have "n div m < k"
  proof (rule ccontr)
    assume "\<not> n div m < k"
    then have "k * m \<le> n div m * m" using assms(1) by (intro mult_right_mono) auto
    then show False using n assms pos_mod_sign [of m n] by linarith
  qed
  then have "(n div m + 1) * m \<le> k * m" using assms(1) by (intro mult_right_mono) auto
  then show ?thesis using n by (simp only: distrib_right)
qed

lemma ceil_multiple:
  assumes m: "0 < m" and n: "in_i64 n" and k: "n \<le> k * m" "in_i64 (k * m)"
  shows "m dvd ceil_multiple_i64 n m" "n \<le> ceil_multiple_i64 n m" "ceil_multiple_i64 n m \<le> k * m"
proof -
  have up: "n + (m - n mod m) = (n div m + 1) * m" by (simp add: algebra_simps minus_mod_eq_mult_div)
  have eq: "ceil_multiple_i64 n m = (if n mod m = 0 then n else n + (m - n mod m))"
  proof (cases "n mod m = 0")
    case True
    then show ?thesis using m by (cases "0 \<le> n") (auto simp: ceil_multiple_i64_def rem_trunc_pos rem_trunc_neg zmod_zminus1_eq_if)
  next
    case False
    have le: "n + (m - n mod m) \<le> k * m" by (rule next_multiple [OF m k(1) False])
    show ?thesis
    proof (cases "0 \<le> n")
      case True
      have "in_i64 (n + (m - n mod m))"
        using le k(2) n pos_mod_bound [OF m, of n] by (auto simp: in_i64_def)
      then show ?thesis using m False True by (simp add: ceil_multiple_i64_def rem_trunc_pos wrap_i64_id)
    next
      case neg: False
      then show ?thesis using m False
        by (auto simp: ceil_multiple_i64_def rem_trunc_neg zmod_zminus1_eq_if Let_def)
    qed
  qed
  show "m dvd ceil_multiple_i64 n m" unfolding eq up by auto
  show "n \<le> ceil_multiple_i64 n m" unfolding eq using pos_mod_bound [OF m, of n] by auto
  show "ceil_multiple_i64 n m \<le> k * m" unfolding eq using next_multiple [OF m k(1)] k(1) by auto
qed

lemma previous_multiple:
  fixes n m k :: int
  assumes "0 < m" and "k * m \<le> n"
  shows "k * m \<le> n - n mod m"
proof -
  have "k \<le> n div m" using zdiv_mono1 [OF assms(2,1)] assms(1) by simp
  then have "k * m \<le> n div m * m" using assms(1) by (intro mult_right_mono) auto
  then show ?thesis by (simp add: minus_mod_eq_div_mult)
qed

lemma floor_multiple:
  assumes m: "0 < m" and n: "in_i64 n" and k: "k * m \<le> n" "in_i64 (k * m)"
  shows "m dvd floor_multiple_i64 n m" "floor_multiple_i64 n m \<le> n" "k * m \<le> floor_multiple_i64 n m"
proof -
  have eq: "floor_multiple_i64 n m = n - n mod m"
  proof (cases "0 \<le> n \<or> n mod m = 0")
    case True
    then show ?thesis using m
      by (cases "0 \<le> n") (auto simp: floor_multiple_i64_def rem_trunc_pos rem_trunc_neg zmod_zminus1_eq_if Let_def)
  next
    case False
    have "in_i64 (n - n mod m)"
      using previous_multiple [OF m k(1)] k(2) n pos_mod_sign [OF m, of n] by (auto simp: in_i64_def)
    moreover have "n mod m \<noteq> m" using pos_mod_bound [OF m, of n] by linarith
    ultimately show ?thesis using m False
      by (auto simp: floor_multiple_i64_def rem_trunc_neg zmod_zminus1_eq_if Let_def wrap_i64_id)
  qed
  show "m dvd floor_multiple_i64 n m" unfolding eq by (simp add: dvd_minus_mod)
  show "floor_multiple_i64 n m \<le> n" unfolding eq using pos_mod_sign [OF m, of n] by simp
  show "k * m \<le> floor_multiple_i64 n m" unfolding eq by (rule previous_multiple [OF m k(1)])
qed


text \<open>The count of steps between the first and the last multiple, when it fits and when it wraps.\<close>

lemma steps_between:
  assumes m: "0 < m" and range: "in_i64 lower" "in_i64 upper" "lower \<le> upper"
    and c: "0 \<le> c" "c \<le> max 0 (div_trunc (wrap_i64 (upper - lower)) m)"
  shows "wrap_i64 (lower + wrap_i64 (c * m)) = lower + c * m" "lower + c * m \<le> upper"
proof -
  let ?d = "wrap_i64 (upper - lower)"
  have d: "?d \<le> upper - lower"
    using range by (cases "upper - lower < 2 ^ 63") (auto simp: wrap_i64_def in_i64_def i64_min_def i64_max_def)
  have in_d: "?d < 2 ^ 63" by (simp add: wrap_i64_def)
  have le: "c * m \<le> max 0 ?d"
  proof (cases "0 \<le> ?d")
    case True
    then have "div_trunc ?d m = ?d div m" using m by (cases "?d = 0") (auto simp: div_trunc_def)
    moreover have "0 \<le> ?d div m" using True m by (simp add: pos_imp_zdiv_nonneg_iff)
    ultimately have "c * m \<le> ?d div m * m" using c(2) m by (intro mult_right_mono) auto
    also have "\<dots> \<le> ?d" using m pos_mod_sign [of m ?d] minus_mod_eq_div_mult [of ?d m] by linarith
    finally show ?thesis by simp
  next
    case False
    then have "div_trunc ?d m \<le> 0" using m by (auto simp: div_trunc_def pos_imp_zdiv_nonneg_iff)
    then show ?thesis using c by auto
  qed
  have nonneg: "0 \<le> c * m" using c(1) m by simp
  have "in_i64 (c * m)" using le in_d nonneg by (auto simp: in_i64_def i64_min_def i64_max_def)
  moreover show le': "lower + c * m \<le> upper" using le d range(3) by auto
  moreover have "in_i64 (lower + c * m)" using le' range nonneg by (auto simp: in_i64_def)
  ultimately show "wrap_i64 (lower + wrap_i64 (c * m)) = lower + c * m" by (simp add: wrap_i64_id)
qed

lemma f_to_i64_int: "in_i64 m \<Longrightarrow> f_to_i64 (Fin (of_int m)) = m"
  by (auto simp: f_to_i64_def rat_trunc_def in_i64_def)

lemma integral_fract: "f_eq (f_fract (Fin (of_int m))) (Fin 0)"
  by (simp add: f_fract_def)

lemma sound_multiple:
  assumes m: "0 < m" "in_i64 m" and range: "in_i64 lo" "in_i64 hi" and k: "lo \<le> k * m" "k * m \<le> hi"
  shows "gval sound (generate_integer_with_multiple_of lo hi (Fin (of_int m)))
           (\<lambda>v. \<exists>n. v = json_int n \<and> lo \<le> n \<and> n \<le> hi \<and> m dvd n)"
proof -
  let ?lower = "ceil_multiple_i64 lo m" and ?upper = "floor_multiple_i64 hi m"
  have km: "in_i64 (k * m)" using range k by (auto simp: in_i64_def)
  note c = ceil_multiple [OF m(1) range(1) k(1) km] and f = floor_multiple [OF m(1) range(2) k(2) km]
  have fl: "?lower \<le> ?upper" using c(3) f(3) by simp
  have in_fl: "in_i64 ?lower" "in_i64 ?upper" using c f range k km by (auto simp: in_i64_def)
  have step: "\<exists>n. json_int (wrap_i64 (?lower + wrap_i64 (j * m))) = json_int n \<and> lo \<le> n \<and> n \<le> hi \<and> m dvd n"
    if "0 \<le> j \<and> j \<le> max 0 (div_trunc (wrap_i64 (?upper - ?lower)) m)" for j
  proof -
    have "0 \<le> j" "j \<le> max 0 (div_trunc (wrap_i64 (?upper - ?lower)) m)" using that by auto
    note s = steps_between [OF m(1) in_fl fl this]
    have "0 \<le> j * m" using that m by simp
    then show ?thesis using s c f by (auto intro!: exI [of _ "?lower + j * m"])
  qed
  show ?thesis
    unfolding generate_integer_with_multiple_of_def
    using m fl by (auto simp: integral_fract f_to_i64_int Let_def intro!: gval_map gval_weaken [OF sound_rng_int] step)
qed


section \<open>Integers\<close>

lemma clamp_to_i64_range: "in_i64 (clamp_to_i64 v)"
  by (auto simp: clamp_to_i64_def f_to_i64_def in_i64_def i64_min_def i64_max_def split: f64.splits)

lemma clamp_to_i64_int: "in_i64 n \<Longrightarrow> clamp_to_i64 (Fin (of_int n)) = n"
proof -
  assume n: "in_i64 n"
  then have "(of_int (- (2 ^ 63)) :: rat) \<le> of_int n" "(of_int n :: rat) \<le> of_int (2 ^ 63)"
    unfolding of_int_le_iff by (auto simp: in_i64_def i64_min_def i64_max_def)
  then have "f_clamp (f_neg f_two63) f_two63 (Fin (of_int n)) = Fin (of_int n)"
    by (auto simp: f_clamp_def f_two63_def)
  moreover have "f_round (Fin (of_int n)) = Fin (of_int n)" by auto linarith+
  ultimately show ?thesis using f_to_i64_int [OF n] by (simp add: clamp_to_i64_def)
qed

text \<open>The divisor a schema asks for.\<close>

definition integer_step :: "json \<Rightarrow> int \<Rightarrow> bool" where
  "integer_step s m \<longleftrightarrow> 0 < m \<and> in_i64 m
     \<and> (case f64_at s ''multipleOf'' of None \<Rightarrow> m = 1 | Some mo \<Rightarrow> mo = Fin (of_int m))"

lemma sound_integer:
  assumes "str_at s ''format'' = None" and "integer_bounds s = (lo, hi)" and range: "in_i64 lo" "in_i64 hi"
    and step: "integer_step s m" and k: "lo \<le> k * m" "k * m \<le> hi"
  shows "gval sound (generate_integer s) (\<lambda>v. \<exists>n. v = json_int n \<and> lo \<le> n \<and> n \<le> hi \<and> m dvd n)"
proof (cases "f64_at s ''multipleOf''")
  case None
  then have "m = 1" "lo \<le> hi" using step k by (auto simp: integer_step_def)
  then show ?thesis using assms(1,2) None
    by (auto simp: generate_integer_def or_numeric_format_def intro!: gval_map gval_weaken [OF sound_rng_int])
next
  case (Some mo)
  then have m: "0 < m" "in_i64 m" "mo = Fin (of_int m)" using step by (auto simp: integer_step_def)
  then have "f_lt (Fin 0) mo" by simp
  then show ?thesis using assms(1,2) Some m sound_multiple [OF m(1,2) range k]
    by (simp add: generate_integer_def or_numeric_format_def)
qed

lemma integer_bounds_inclusive:
  assumes "f64_at s ''minimum'' = Some (Fin a)" "f64_at s ''maximum'' = Some (Fin b)"
    and "json_get s ''exclusiveMinimum'' = None" "json_get s ''exclusiveMaximum'' = None"
    and "in_i64 \<lceil>a\<rceil>" "in_i64 \<lfloor>b\<rfloor>" "\<lceil>a\<rceil> \<le> \<lfloor>b\<rfloor>"
  shows "integer_bounds s = (\<lceil>a\<rceil>, \<lfloor>b\<rfloor>)"
  using assms by (simp add: integer_bounds_def extract_bounds_def exclusive_bound_def clamp_to_i64_int)

text \<open>
  C14: For a schema with inclusive bounds and no format, \<open>generate_integer\<close> returns an integer within the bounds, and a
  multiple of an integral \<open>multipleOf\<close> whenever there is one between them, also where the number of multiples
  overflows an \<open>i64\<close>.
\<close>

theorem generated_integer_within_bounds:
  assumes "source_ok (rg_source g)" and "str_at s ''format'' = None"
    and "f64_at s ''minimum'' = Some (Fin a)" "f64_at s ''maximum'' = Some (Fin b)"
    and "json_get s ''exclusiveMinimum'' = None" "json_get s ''exclusiveMaximum'' = None"
    and range: "in_i64 \<lceil>a\<rceil>" "in_i64 \<lfloor>b\<rfloor>" and step: "integer_step s m" and k: "a \<le> of_int (k * m)" "of_int (k * m) \<le> b"
    and run: "generate_integer s g = Done (v, g')"
  shows "\<exists>n. v = JNum (JInt n) \<and> a \<le> of_int n \<and> of_int n \<le> b \<and> m dvd n"
proof -
  have k': "\<lceil>a\<rceil> \<le> k * m" "k * m \<le> \<lfloor>b\<rfloor>" using k by (simp_all only: ceiling_le_iff le_floor_iff)
  then have "integer_bounds s = (\<lceil>a\<rceil>, \<lfloor>b\<rfloor>)" using assms by (intro integer_bounds_inclusive) auto
  from gvalD [OF sound_integer [OF assms(2) this range step k'] _ run] assms(1) show ?thesis
    by (auto simp: sound_def json_int_def ceiling_le_iff le_floor_iff)
qed

section \<open>Strings\<close>

lemma dropWhile_cases: "dropWhile p xs = [] \<or> (\<exists>y ys. dropWhile p xs = y # ys \<and> \<not> p y)"
  by (induction xs) auto

lemma while_block:
  "(\<And>x. x \<in> set a \<Longrightarrow> p x) \<Longrightarrow> takeWhile p b = [] \<Longrightarrow> dropWhile p b = b \<Longrightarrow>
   takeWhile p (a @ b) = a \<and> dropWhile p (a @ b) = b"
  by (induction a) simp_all

lemma length_chars: "length (chars s) = (case s of [] \<Rightarrow> 0 | c # t \<Rightarrow> Suc (length (filter (\<lambda>c. \<not> cont c) t)))"
proof (induction s rule: chars.induct)
  case (2 c s)
  have "length (filter (\<lambda>c. \<not> cont c) s) = length (filter (\<lambda>c. \<not> cont c) (dropWhile cont s))"
    by (induction s) auto
  moreover have "length (chars (dropWhile cont s)) = length (filter (\<lambda>c. \<not> cont c) (dropWhile cont s))"
  proof (rule disjE [OF dropWhile_cases [of cont s]])
    assume e: "dropWhile cont s = []"
    show ?thesis unfolding e by simp
  next
    assume "\<exists>y ys. dropWhile cont s = y # ys \<and> \<not> cont y"
    then obtain y ys where e: "dropWhile cont s = y # ys" "\<not> cont y" by blast
    show ?thesis using 2 e(2) unfolding e(1) by simp
  qed
  ultimately show ?case by simp
qed simp

lemma chars_append: "list_all (\<lambda>c. \<not> cont c) t \<Longrightarrow> length (chars (s @ t)) = length (chars s) + length t"
  unfolding length_chars by (cases s; cases t) (auto simp: list_all_iff filter_id_conv)

lemma chars_concat_take: "chars (concat (take k (chars s))) = take k (chars s)"
proof (induction s arbitrary: k rule: chars.induct)
  case (2 c s)
  show ?case
  proof (cases k)
    case (Suc j)
    let ?rest = "concat (take j (chars (dropWhile cont s)))"
    have rest: "takeWhile cont ?rest = [] \<and> dropWhile cont ?rest = ?rest"
    proof (rule disjE [OF dropWhile_cases [of cont s]])
      assume e: "dropWhile cont s = []"
      show ?thesis unfolding e by simp
    next
      assume "\<exists>y ys. dropWhile cont s = y # ys \<and> \<not> cont y"
      then obtain y ys where e: "dropWhile cont s = y # ys" "\<not> cont y" by blast
      show ?thesis using e(2) unfolding e(1) by (cases j) simp_all
    qed
    have "takeWhile cont (takeWhile cont s @ ?rest) = takeWhile cont s
          \<and> dropWhile cont (takeWhile cont s @ ?rest) = ?rest"
      using rest by (intro while_block) (auto dest: set_takeWhileD)
    moreover have "concat (take k (chars (c # s))) = c # takeWhile cont s @ ?rest" using Suc by simp
    ultimately show ?thesis using Suc "2.IH" by (simp only: chars.simps take_Suc_Cons)
  qed simp
qed simp

lemma yields_pick_char: "yields (pick_char cs) (\<lambda>c. c \<in> set cs)"
  unfolding pick_char_def by (rule gval_bind [OF yields_any]) (auto intro: gval_ret gval_panic)

lemma yields_alphanumeric: "yields (random_alphanumeric n) (\<lambda>t. length t = n \<and> list_all (\<lambda>c. \<not> cont c) t)"
proof -
  have plain: "c \<in> set (lower_letters @ upper_letters @ digit_chars) \<Longrightarrow> \<not> cont c" for c
    by (auto simp: lower_letters_def upper_letters_def digit_chars_def cont_def byte_def)
  show ?thesis unfolding random_alphanumeric_def pick_chars_def
    by (rule gval_weaken [OF gval_times [OF yields_pick_char]]) (auto simp: list_all_iff plain)
qed

definition of_length :: "nat \<Rightarrow> nat \<Rightarrow> string \<Rightarrow> bool" where
  "of_length mn mx t \<longleftrightarrow> mn \<le> length (chars t) \<and> length (chars t) \<le> mx"

lemma yields_pad_or_trim: "mn \<le> mx \<Longrightarrow> yields (pad_or_trim t mn mx) (of_length mn mx)"
  unfolding pad_or_trim_def Let_def
  by (auto simp: of_length_def chars_concat_take chars_append
           intro!: gval_ret gval_map gval_weaken [OF yields_alphanumeric])

lemma hoare_yields: "yields m V \<Longrightarrow> hoare P m (\<lambda>v _. V v)"
  by (auto simp: gval_def hoare_def)

lemma hoare_plain_string: "mn \<le> mx \<Longrightarrow> hoare sound (plain_string mn mx) (\<lambda>t _. of_length mn mx t)"
proof -
  assume le: "mn \<le> mx"
  have "gval sound (if mn = mx then ret (int mn) else rng_int (int mn) (int mx)) (\<lambda>n. mn \<le> nat n \<and> nat n \<le> mx)"
    using le by (auto intro!: gval_ret gval_weaken [OF sound_rng_int])
  then have "hoare sound (if mn = mx then ret (int mn) else rng_int (int mn) (int mx))
               (\<lambda>n _. mn \<le> nat n \<and> nat n \<le> mx)"
    unfolding gval_def by (rule hoare_weaken) auto
  moreover have "hoare (\<lambda>_. mn \<le> nat n \<and> nat n \<le> mx)
                   (if mx = 0 \<and> mn = 0 then ret [] else random_alphanumeric (max (nat n) 1))
                   (\<lambda>t _. of_length mn mx t)" for n
  proof (cases "mx = 0 \<and> mn = 0")
    case False
    have "hoare (\<lambda>_. mn \<le> nat n \<and> nat n \<le> mx) (random_alphanumeric (max (nat n) 1))
            (\<lambda>t _. length t = max (nat n) 1 \<and> list_all (\<lambda>c. \<not> cont c) t)"
      by (rule hoare_yields [OF yields_alphanumeric])
    then show ?thesis using False chars_append [of _ "[]"]
      by (auto simp: hoare_def of_length_def)
  qed (auto simp: of_length_def intro: hoare_ret)
  ultimately show ?thesis unfolding plain_string_def by (rule hoare_bind)
qed

text \<open>
  C27: Without a \<open>pattern\<close>, and whatever the \<open>format\<close>, \<open>generate_string\<close> keeps the length between \<open>minLength\<close> and
  \<open>maxLength\<close>, counted in characters.
\<close>

theorem generated_string_length:
  assumes "source_ok (rg_source g)" and "str_at s ''pattern'' = None"
    and "u64_at s ''minLength'' = Some a" "u64_at s ''maxLength'' = Some b"
    and le: "a \<le> b" "a \<le> MAX_GENERATED_STRING_LENGTH"
    and run: "generate_string env s opts g = Done (v, g')"
  shows "\<exists>t. v = JStr t \<and> a \<le> length (chars t) \<and> length (chars t) \<le> b"
proof -
  let ?mx = "min b MAX_GENERATED_STRING_LENGTH"
  have mx: "max ?mx a = ?mx" "a \<le> ?mx" using le by auto
  have sized: "hoare sound (sized_format env s opts f a (Some ?mx) ?mx) (\<lambda>t _. of_length a ?mx t)" for f
    unfolding sized_format_def
    by (rule hoare_bind [OF hoare_yields [OF yields_any]])
       (auto intro!: hoare_yields yields_pad_or_trim simp: le)
  have caps: "hoare sound (length_cap_error k n) (\<lambda>_ g. sound g)" for k n
    using gval_when [OF sound_error_here] unfolding length_cap_error_def gval_def
    by (rule hoare_weaken) auto
  have unknown: "hoare sound (unknown_format opts f) (\<lambda>_ g. sound g)" for f
    using gval_when [OF sound_error_here] unfolding unknown_format_def gval_def
    by (rule hoare_weaken) auto
  have "hoare sound (generate_string env s opts) (\<lambda>v _. \<exists>t. v = JStr t \<and> of_length a ?mx t)"
    unfolding generate_string_def using assms(2-4) le mx
    by (auto simp: min_absorb1 Let_def split: option.split
             intro!: hoare_map hoare_then [OF caps] hoare_then [OF unknown] sized hoare_plain_string)
  from hoareD [OF this _ run] assms(1) show ?thesis by (auto simp: sound_def of_length_def)
qed


section \<open>Arrays\<close>

lemma yields_fold_length:
  "(\<And>x out. yields (f x out) (\<lambda>out'. length out' = Suc (length out))) \<Longrightarrow>
   yields (gfold f xs out) (\<lambda>out'. length out' = length out + length xs)"
proof (induction xs arbitrary: out)
  case (Cons x xs)
  then show ?case by (auto intro!: gval_bind [OF Cons.prems] gval_weaken [OF Cons.IH])
qed (auto intro: gval_ret)

lemma yields_walk_items: "yields (walk_items w opts items depth) (\<lambda>out. length out = length items)"
  unfolding walk_items_def
  by (rule gval_weaken [OF yields_fold_length]) (simp_all add: gval_map yields_any)

lemma yields_times_length: "yields (gtimes n m) (\<lambda>out. length out = n)"
  by (rule gval_weaken [OF gval_times [OF yields_any]]) simp

lemma yields_unique_items:
  "distinct out \<Longrightarrow> length out \<le> target \<Longrightarrow>
   yields (unique_items attempts target element out) (\<lambda>out'. distinct out' \<and> length out' \<le> target)"
proof (induction attempts target element out rule: unique_items.induct)
  case (2 attempts target element out)
  then show ?case by (auto intro!: gval_ret gval_bind [OF yields_any])
qed (auto intro: gval_ret)

text \<open>What an array of a schema without \<open>contains\<close> holds for \<open>target\<close> items.\<close>

definition array_items_ok :: "json \<Rightarrow> nat \<Rightarrow> json list \<Rightarrow> bool" where
  "array_items_ok s target xs \<longleftrightarrow>
     length xs \<le> target
     \<and> (positional_items s = None \<and> bool_at s ''uniqueItems'' = Some True \<longrightarrow> distinct xs)
     \<and> (\<not> is_false_at s ''items'' \<and> \<not> is_false_at s ''additionalItems'' \<and> bool_at s ''uniqueItems'' \<noteq> Some True
        \<longrightarrow> length xs = target)"

lemma yields_generate_items:
  assumes "as_prohibited shape \<longleftrightarrow> is_false_at s ''items'' \<or> is_false_at s ''additionalItems''"
  shows "yields (generate_items w opts s shape target depth) (array_items_ok s target)"
proof (cases "positional_items s")
  case None
  show ?thesis
  proof (cases "bool_at s ''uniqueItems'' = Some True")
    case True
    then show ?thesis using None unfolding generate_items_def
      by (auto simp: array_items_ok_def Let_def
               intro!: gval_bind [OF yields_unique_items] gval_then [OF yields_any] gval_ret)
  qed (auto simp: generate_items_def array_items_ok_def None Let_def intro!: gval_weaken [OF yields_times_length])
next
  case (Some prefix)
  have rest: "yields (if as_prohibited shape then ret front
                      else gmap (\<lambda>vs. front @ vs) (gtimes (target - length front) element)) (array_items_ok s target)"
    if "length front = length (take target prefix)" for front element
    using that assms Some
    by (auto simp: array_items_ok_def intro!: gval_ret gval_map gval_weaken [OF yields_times_length])
  show ?thesis using Some unfolding generate_items_def
    by (auto simp only: Let_def option.case intro!: gval_bind [OF yields_walk_items] rest)
qed

lemma sound_rng_usize: "mn \<le> mx \<Longrightarrow> mx < 2 ^ 63 \<Longrightarrow> gval sound (rng_usize mn mx) (\<lambda>n. mn \<le> n \<and> n \<le> mx)"
proof -
  assume le: "mn \<le> mx" "mx < 2 ^ 63"
  then have "in_i64 (int mn)" "in_i64 (int mx)" by (auto simp: in_i64_def i64_min_def i64_max_def)
  moreover have "n mod 2 ^ 64 = n" if "int mn \<le> n" "n \<le> int mx" for n :: int
    using that le by (intro mod_pos_pos_trivial) auto
  ultimately show ?thesis using le unfolding rng_usize_def
    by (auto simp: wrap_i64_id nat_le_iff le_nat_iff intro!: gval_map gval_weaken [OF sound_rng_int])
qed

lemma array_shape_within:
  assumes "u64_at s ''minItems'' = Some a" "u64_at s ''maxItems'' = Some b" "a \<le> b" "a \<le> MAX_GENERATED_ITEMS"
  shows "a \<le> as_min (array_shape_of opts s)" "as_min (array_shape_of opts s) \<le> as_max (array_shape_of opts s)"
    "as_max (array_shape_of opts s) \<le> min b MAX_GENERATED_ITEMS"
proof -
  have least: "a \<le> array_min_items (go_min_items opts) (Some a)"
    by (simp add: array_min_items_def split: option.split)
  have mid: "x \<le> n \<Longrightarrow> x \<le> c \<Longrightarrow> x \<le> min (max n p) (min (max m (max n p)) c)" for x n p m c :: nat
    by auto
  show "a \<le> as_min (array_shape_of opts s)"
    unfolding array_shape_of_def Let_def assms(1,2) option.map option.case array_shape.select_convs
    using least assms(3,4) by (intro mid) (simp_all only: min_absorb1 min.bounded_iff)
  show "as_min (array_shape_of opts s) \<le> as_max (array_shape_of opts s)"
    unfolding array_shape_of_def Let_def array_shape.select_convs by (rule min.cobounded2)
  show "as_max (array_shape_of opts s) \<le> min b MAX_GENERATED_ITEMS"
    unfolding array_shape_of_def Let_def assms(1,2) option.map option.case array_shape.select_convs
    by (rule min.cobounded2)
qed

lemma sound_item_count:
  assumes "mn \<le> mx" "mx < 2 ^ 63" "go_optionals_probability opts = None"
  shows "gval sound (gmap (cap_default_items opts s mn) (item_count opts mn mx)) (\<lambda>n. mn \<le> n \<and> n \<le> mx)"
proof -
  have cap: "mn \<le> cap_default_items opts s mn n \<and> cap_default_items opts s mn n \<le> mx" if "mn \<le> n \<and> n \<le> mx" for n
    using that assms(1) by (auto simp: cap_default_items_def split: option.split)
  have "gval sound (item_count opts mn mx) (\<lambda>n. mn \<le> n \<and> n \<le> mx)"
    using assms by (simp add: item_count_def sound_rng_usize gval_ret)
  then have "gval sound (item_count opts mn mx)
               (\<lambda>n. mn \<le> cap_default_items opts s mn n \<and> cap_default_items opts s mn n \<le> mx)"
    by (rule gval_weaken) (rule cap)
  then show ?thesis by (rule gval_map)
qed

text \<open>
  C15: For a schema with \<open>minItems\<close> and \<open>maxItems\<close>, no \<open>contains\<close>, and options without a probability, an array gets
  between \<open>minItems\<close> and \<open>maxItems\<close> items (fewer only where \<open>items\<close> or \<open>additionalItems\<close> is \<open>false\<close> or
  \<open>uniqueItems\<close> is set), and with \<open>uniqueItems\<close> and no positional items none is there twice.
\<close>

theorem generated_array_items:
  assumes "source_ok (rg_source g)" and "go_optionals_probability opts = None"
    and items: "u64_at s ''minItems'' = Some a" "u64_at s ''maxItems'' = Some b" "a \<le> b" "a \<le> MAX_GENERATED_ITEMS"
    and "json_get s ''contains'' = None" and run: "generate_array w opts s depth g = Done (v, g')"
  shows "\<exists>xs n. v = JArr xs \<and> a \<le> n \<and> n \<le> b \<and> array_items_ok s n xs"
proof -
  let ?shape = "array_shape_of opts s" and ?V = "\<lambda>v. \<exists>xs n. v = JArr xs \<and> a \<le> n \<and> n \<le> b \<and> array_items_ok s n xs"
  note shape = array_shape_within [OF items, of opts]
  have small: "as_max ?shape < 2 ^ 63" using shape(3) by (simp add: MAX_GENERATED_ITEMS_def)
  have caps: "hoare sound (item_cap_error k n) (\<lambda>_ g. sound g)" for k n
    using gval_option [of n sound "ret ()" "\<lambda>_. True", OF gval_ret gval_when [OF sound_error_here]]
    unfolding item_cap_error_def gval_def by (rule hoare_weaken) auto
  have count: "hoare sound (gmap (cap_default_items opts s (as_min ?shape)) (item_count opts (as_min ?shape) (as_max ?shape)))
                 (\<lambda>n _. a \<le> n \<and> n \<le> b)"
    using sound_item_count [OF shape(2) small assms(2), of s] unfolding gval_def
    by (rule hoare_weaken) (use shape in auto)
  have items: "hoare (\<lambda>_. a \<le> n \<and> n \<le> b) (generate_items w opts s ?shape n depth)
                 (\<lambda>xs _. a \<le> n \<and> n \<le> b \<and> array_items_ok s n xs)" for n
    using yields_generate_items [of ?shape s w opts n depth]
    by (auto simp: gval_def hoare_def array_shape_of_def Let_def)
  have "hoare sound (generate_array w opts s depth) (\<lambda>v _. ?V v)"
    unfolding generate_array_def Let_def using assms(7)
    by (auto intro!: hoare_then [OF caps] hoare_bind [OF count] hoare_bind [OF items] hoare_then [OF hoare_const] hoare_ret)
  from hoareD [OF this _ run] assms(1) show ?thesis by (simp add: sound_def)
qed


section \<open>Examples\<close>

definition small_integer :: json where
  "small_integer = JObj [(''maximum'', JNum (JInt 10)), (''minimum'', JNum (JInt 2)), (''multipleOf'', JNum (JInt 4))]"

lemma small_integer_keys:
  "str_at small_integer ''format'' = None" "f64_at small_integer ''minimum'' = Some (Fin 2)"
  "f64_at small_integer ''maximum'' = Some (Fin 10)" "json_get small_integer ''exclusiveMinimum'' = None"
  "json_get small_integer ''exclusiveMaximum'' = None" "f64_at small_integer ''multipleOf'' = Some (Fin 4)"
  by (simp_all add: small_integer_def key_defs f_of_int_exact)

lemma small_integer_drawn: "\<exists>g'. generate_integer small_integer (rng_new lowest_source) = Done (JNum (JInt 4), g')"
proof -
  have "integer_bounds small_integer = (\<lceil>2 :: rat\<rceil>, \<lfloor>10 :: rat\<rfloor>)"
    by (rule integer_bounds_inclusive) (simp_all add: small_integer_keys in_i64_def i64_min_def i64_max_def)
  moreover have "f_eq (f_fract (Fin 4)) (Fin 0)" using integral_fract [of 4] by simp
  moreover have "f_to_i64 (Fin 4) = 4" using f_to_i64_int [of 4] by (simp add: in_i64_def i64_min_def i64_max_def)
  ultimately show ?thesis
    by (simp add: generate_integer_def or_numeric_format_def small_integer_keys generate_integer_with_multiple_of_def
        ceil_multiple_i64_def floor_multiple_i64_def rem_trunc_def div_trunc_def wrap_i64_def rng_int_def draw_with_def
        rng_new_def lowest_source_def gmap_def gbind_def ret_def json_int_def Let_def)
qed

lemma generated_integer_within_bounds_witness:
  "\<exists>v. (\<exists>g'. generate_integer small_integer (rng_new lowest_source) = Done (v, g'))
       \<and> (\<exists>n. v = JNum (JInt n) \<and> 2 \<le> (of_int n :: rat) \<and> (of_int n :: rat) \<le> 10 \<and> 4 dvd n)"
proof -
  obtain g' where run: "generate_integer small_integer (rng_new lowest_source) = Done (JNum (JInt 4), g')"
    using small_integer_drawn by blast
  have "integer_step small_integer 4"
    by (simp add: integer_step_def small_integer_keys in_i64_def i64_min_def i64_max_def)
  from generated_integer_within_bounds [OF _ _ _ _ _ _ _ _ this _ _ run, of 2 10 1] run show ?thesis
    by (auto simp: small_integer_keys source_ok_lowest rng_new_def in_i64_def i64_min_def i64_max_def)
qed

text \<open>Three letters asked for, and an array of one to two items.\<close>

definition short_text :: json where
  "short_text = JObj [(''maxLength'', JNum (JInt 4)), (''minLength'', JNum (JInt 3))]"

lemma short_text_keys:
  "str_at short_text ''format'' = None" "str_at short_text ''pattern'' = None"
  "u64_at short_text ''minLength'' = Some 3" "u64_at short_text ''maxLength'' = Some 4"
  by (simp_all add: short_text_def key_defs)

lemma generated_string_length_witness:
  "\<exists>v g'. generate_string lowest_env short_text generate_options_default (rng_new lowest_source) = Done (v, g')
       \<and> (\<exists>t. v = JStr t \<and> 3 \<le> length (chars t) \<and> length (chars t) \<le> 4)"
proof -
  have "\<exists>v g'. generate_string lowest_env short_text generate_options_default (rng_new lowest_source) = Done (v, g')"
    by (simp add: generate_string_def short_text_keys MAX_GENERATED_STRING_LENGTH_def length_cap_error_def plain_string_def
        random_alphanumeric_def pick_chars_def pick_char_def pick_index_def rng_int_def draw_with_def numeral_3_eq_3
        rng_new_def lowest_source_def gmap_def gbind_def gthen_def gwhen_def ret_def lower_letters_def Let_def)
  then obtain v g' where run: "generate_string lowest_env short_text generate_options_default (rng_new lowest_source) = Done (v, g')"
    by blast
  from generated_string_length [OF _ _ _ _ _ _ run, of 3 4] run show ?thesis
    by (simp add: short_text_keys source_ok_lowest rng_new_def MAX_GENERATED_STRING_LENGTH_def)
qed


definition two_items :: json where
  "two_items = JObj [(''items'', JBool True), (''maxItems'', JNum (JInt 2)), (''minItems'', JNum (JInt 2))]"

lemma two_items_keys:
  "u64_at two_items ''minItems'' = Some 2" "u64_at two_items ''maxItems'' = Some 2"
  "json_get two_items ''contains'' = None" "positional_items two_items = None" "bool_at two_items ''uniqueItems'' = None"
  "json_get two_items ''items'' = Some (JBool True)" "json_get two_items ''additionalItems'' = None"
  "items_schema two_items = Some (JBool True)"
  by (simp_all add: two_items_def key_defs positional_items_def items_schema_def ex_bool_eq)

lemma walk_true: "walk_step w generate_options_default (JBool True) 1 = ret JNull"
  by (simp add: fun_eq_iff walk_step_def walk_inner_def walk_node_def node_level_options_def apply_schema_prop_aliases_def
      key_defs generate_options_default_def)

lemma generated_array_items_witness:
  "\<exists>v g'. generate_array (walker_of 1 lowest_env two_items None) generate_options_default two_items 0
             (rng_new lowest_source) = Done (v, g')
       \<and> (\<exists>xs n. v = JArr xs \<and> 2 \<le> n \<and> n \<le> 2 \<and> array_items_ok two_items n xs)"
proof -
  let ?w = "walker_of 1 lowest_env two_items None"
  have unpicked: "pick_array_element_from_x_faker (JBool True) = ret None"
    by (simp add: pick_array_element_from_x_faker_def key_defs)
  have "wk_walk ?w generate_options_default (JBool True) 1 = ret JNull" by (simp add: walker_of_def walk_true [unfolded One_nat_def])
  then have item: "walk_item ?w generate_options_default (JBool True) 1 = ret JNull"
    by (simp add: walk_item_def unpicked)
  have shape: "as_min (array_shape_of generate_options_default two_items) = 2"
    "as_max (array_shape_of generate_options_default two_items) = 2"
    "as_prefix_len (array_shape_of generate_options_default two_items) = 0"
    by (simp_all add: array_shape_of_def two_items_keys MAX_GENERATED_ITEMS_def generate_options_default_def array_min_items_def
        is_false_at_def array_max_items_def)
  have count: "item_count generate_options_default 2 2 = ret 2"
    by (simp add: item_count_def rng_usize_def rng_int_def wrap_i64_def generate_options_default_def)
  have cap: "cap_default_items generate_options_default two_items 2 2 = 2"
    by (simp add: cap_default_items_def generate_options_default_def)
  have "generate_items ?w generate_options_default two_items (array_shape_of generate_options_default two_items) 2 0
          = ret [JNull, JNull]"
    by (simp add: generate_items_def two_items_keys item [unfolded One_nat_def] Let_def numeral_2_eq_2)
  then have "\<exists>v g'. generate_array ?w generate_options_default two_items 0 (rng_new lowest_source) = Done (v, g')"
    by (simp add: generate_array_def shape two_items_keys Let_def item_cap_error_def MAX_GENERATED_ITEMS_def count cap is_false_at_def)
       (simp add: ret_def)
  then obtain v g' where run: "generate_array ?w generate_options_default two_items 0 (rng_new lowest_source) = Done (v, g')"
    by blast
  from generated_array_items [OF _ _ _ _ _ _ _ run, of 2 2] run show ?thesis
    by (simp add: two_items_keys source_ok_lowest rng_new_def MAX_GENERATED_ITEMS_def generate_options_default_def)
qed

end
