(* ===== verification/ObjectFacts.thy ===== *)
theory ObjectFacts
  imports FakeBounds
begin

text \<open>
  What the generator of objects promises: the required keys are there, and no key that is there is lost by
  the steps that follow.
\<close>

section \<open>Keys stay\<close>

lemma contains_key_insert: "contains_key (obj_insert k v m) x \<longleftrightarrow> x = k \<or> contains_key m x"
  by (auto simp: contains_key_def)

lemma contains_key_remove: "x \<noteq> k \<Longrightarrow> contains_key (obj_remove k m) x = contains_key m x"
  by (simp add: contains_key_def)

lemma contains_key_put [simp]:
  "contains_key (put_property opts k v m) x \<longleftrightarrow> x = k \<or> contains_key m x"
  "contains_key (put_required opts k v m) x \<longleftrightarrow> x = k \<or> contains_key m x"
  "contains_key m x \<Longrightarrow> contains_key (put_optional opts k v m) x"
  by (simp_all add: put_property_def put_required_def put_optional_def contains_key_insert)

lemma fold_inserts_keep:
  "contains_key m x \<Longrightarrow> contains_key (fold (\<lambda>e. obj_insert (fst e) (snd e)) es m) x"
  by (induction es arbitrary: m) (auto simp: contains_key_insert)

lemma fold_entries_keep: "contains_key m x \<Longrightarrow> contains_key (fold entry_or_insert es m) x"
  by (induction es arbitrary: m) (auto simp: entry_or_insert_def contains_key_insert)

abbreviation keeping :: "string \<Rightarrow> obj gen \<Rightarrow> bool" where
  "keeping x m \<equiv> yields m (\<lambda>m'. contains_key m' x)"

lemma keeping_map: "(\<And>v. contains_key (f v) x) \<Longrightarrow> keeping x (gmap f m)"
  by (rule gval_map) (simp add: gval_def hoare_def)

lemma keeping_bind: "(\<And>v. keeping x (f v)) \<Longrightarrow> keeping x (gbind m f)"
  by (rule gval_bind [OF yields_any])

lemmas keeping_steps = keeping_map keeping_bind gval_ret

lemma keeping_declared: "contains_key m x \<Longrightarrow> keeping x (add_declared w opts os depth prop m)"
  by (cases "prop") (auto simp: add_declared_def Let_def intro!: keeping_steps)

lemma keeping_required: "contains_key m x \<Longrightarrow> keeping x (add_required w opts os depth key m)"
  by (auto simp: add_required_def intro!: keeping_steps)

lemma keeping_backfill: "contains_key m x \<Longrightarrow> keeping x (backfill_declared w opts os depth prop m)"
  by (cases "prop") (auto simp: backfill_declared_def intro!: keeping_steps)

lemma keeping_pattern: "contains_key m x \<Longrightarrow> keeping x (add_pattern_property w opts os depth prop m)"
  by (cases "prop") (auto simp: add_pattern_property_def intro!: keeping_steps)

lemma keeping_fill_extra: "contains_key m x \<Longrightarrow> keeping x (fill_extra n w opts os s depth limit idx skips m)"
proof (induction n arbitrary: idx skips m)
  case (Suc n)
  then show ?case by (auto intro!: keeping_steps gval_option)
qed (auto intro: gval_fuel)

lemma keeping_extra: "contains_key m x \<Longrightarrow> keeping x (add_extra w opts os depth m)"
  by (auto simp: add_extra_def Let_def intro!: keeping_steps keeping_fill_extra gval_option)

lemma keeping_fill_pattern: "contains_key m x \<Longrightarrow> keeping x (fill_pattern w opts mn depth prop idx m)"
  by (cases "prop") (auto simp: fill_pattern_def Let_def intro!: keeping_steps)

lemma keeping_fill_patterns: "contains_key m x \<Longrightarrow> keeping x (fill_min_props_with_patterns w opts mn patterns depth m)"
  unfolding fill_min_props_with_patterns_def
  by (auto intro!: gval_fold keeping_fill_pattern)

lemma keeping_fill_to_min: "contains_key m x \<Longrightarrow> keeping x (fill_to_min n w opts os s depth idx m)"
proof (induction n arbitrary: idx m)
  case (Suc n)
  then show ?case by (auto intro!: keeping_steps gval_option)
qed (auto intro: gval_ret)

lemma keeping_fill: "contains_key m x \<Longrightarrow> keeping x (add_fill w opts os depth m)"
  by (auto simp: add_fill_def intro!: keeping_steps keeping_fill_to_min)

lemma trim_keeps_required: "x \<in> set required \<Longrightarrow> contains_key m x \<Longrightarrow> contains_key (trim_to_max required mx m) x"
proof (induction required mx m rule: trim_to_max.induct)
  case (1 required mx m)
  show ?case
  proof (cases "mx < length m")
    case True
    then show ?thesis
    proof (cases "List.find (\<lambda>k. k \<notin> set required) (rev (map fst m))")
      case (Some key)
      then have "key \<notin> set required" using find_mem by fastforce
      then have "contains_key (obj_remove key m) x" using 1 by (metis contains_key_remove)
      then show ?thesis using 1 True Some by (subst trim_to_max.simps) simp
    qed (use 1 True in \<open>subst trim_to_max.simps, simp\<close>)
  qed (use 1 in \<open>subst trim_to_max.simps, simp\<close>)
qed

section \<open>The required keys\<close>

lemma yields_required:
  assumes "k \<in> set keys" and "k \<notin> set (go_ignore_properties opts)"
  shows "keeping k (gfold (add_required w opts os depth) keys m)"
  using assms(1)
proof (induction keys arbitrary: m)
  case (Cons key keys)
  show ?case
  proof (cases "k = key")
    case True
    have "keeping k (add_required w opts os depth key m)"
      using assms(2) True by (auto simp: add_required_def intro!: keeping_steps)
    then show ?thesis by (auto intro!: gval_bind gval_fold keeping_required)
  next
    case False
    then show ?thesis using Cons by (auto intro: keeping_bind)
  qed
qed simp

lemma yields_drawn:
  assumes "k \<in> set (os_required os)" and "k \<notin> set (go_ignore_properties opts)"
  shows "keeping k (drawn_properties w opts os depth)"
proof -
  have trim: "contains_key m k \<Longrightarrow> contains_key (case os_max os of Some mx \<Rightarrow> trim_to_max (os_required os) mx m | None \<Rightarrow> m) k" for m
    using trim_keeps_required [OF assms(1)] by (simp split: option.split)
  show ?thesis unfolding drawn_properties_def
    by (rule gval_bind [OF yields_any], rule gval_bind [OF yields_required [OF assms]])
       (auto intro!: gval_bind [of _ _ "\<lambda>m. contains_key m k"] gval_map gval_fold gval_ret
          keeping_backfill keeping_pattern keeping_extra keeping_fill_patterns gval_weaken [OF keeping_fill trim])
qed

section \<open>Dependencies\<close>

lemma keeping_dependent: "contains_key m x \<Longrightarrow> keeping x (add_dependent w opts s depth entry m)"
  by (auto simp: add_dependent_def contains_key_insert intro!: keeping_steps gval_option)

lemma keeping_all_dependent: "contains_key m x \<Longrightarrow> keeping x (add_all_dependent w opts s depth entries m)"
  unfolding add_all_dependent_def by (auto intro!: gval_fold keeping_dependent)

lemma keeping_dependent_schema: "contains_key m x \<Longrightarrow> keeping x (add_dependent_schema w opts depth dep m)"
  by (auto simp: add_dependent_schema_def fold_entries_keep intro!: keeping_steps)

lemma keeping_dependency: "contains_key m x \<Longrightarrow> keeping x (add_dependency w opts s depth dep m)"
  by (auto simp: add_dependency_def fold_inserts_keep split: json.split intro!: keeping_steps keeping_all_dependent)

lemma keeping_dependencies: "contains_key m x \<Longrightarrow> keeping x (handle_dependencies w opts s depth m)"
  unfolding handle_dependencies_def
  by (auto intro!: gval_bind [of _ _ "\<lambda>m. contains_key m x"] gval_fold gval_ret
        keeping_all_dependent keeping_dependent_schema keeping_dependency)

lemma contains_key_finish:
  "contains_key m k \<Longrightarrow> k \<in> set required \<Longrightarrow> go_prop_aliases opts = [] \<Longrightarrow>
   \<exists>m'. finish_object opts required m = JObj m' \<and> contains_key m' k"
  by (force simp: finish_object_def apply_prop_aliases_def sort_key_def omit_null_properties_def contains_key_iff)

text \<open>
  Whatever the constraints, and whether or not an error is recorded, the object that \<open>generate_object\<close> returns has
  every required key that the options do not ignore.
\<close>

theorem required_keys_generated:
  assumes "k \<in> set (names_at s ''required'')" and "k \<notin> set (go_ignore_properties opts)" and "go_prop_aliases opts = []"
    and run: "generate_object w opts s depth g = Done (v, g')"
  shows "\<exists>m. v = JObj m \<and> contains_key m k"
proof -
  have req: "k \<in> set (os_required (object_shape_of s))" using assms(1) by (simp add: object_shape_of_def)
  have "yields (generate_object w opts s depth) (\<lambda>v. \<exists>m. v = JObj m \<and> contains_key m k)"
    unfolding generate_object_def Let_def
    by (auto intro!: gval_then [OF yields_any] gval_bind [OF yields_drawn [OF req assms(2)]]
          gval_bind [OF keeping_dependencies] gval_ret contains_key_finish [OF _ req assms(3)])
  from yieldsD [OF this run] show ?thesis .
qed

end
