(* ===== verification/WalkFacts.thy ===== *)
theory WalkFacts
  imports ObjectFacts
begin

text \<open>
  What \<open>generate\<close> promises of schemas without composition keywords and hints, and what the walk does where it
  goes wrong: lists of types that are empty, names of properties that repeat, and errors that are dropped.
\<close>

section \<open>Plain schemas\<close>

definition walk_directives :: "string list" where
  "walk_directives =
     [''$ref'', ''nullable'', ''examples'', ''example'', ''default'', ''if'', ''allOf'', ''anyOf'', ''oneOf'', ''not'',
      ''const'', ''enum'', ''chance'', ''faker'', ''x-faker'', ''autoIncrement'']"

definition plain_schema :: "json \<Rightarrow> bool" where
  "plain_schema s \<longleftrightarrow> as_object s \<noteq> None \<and> list_all (\<lambda>k. json_get s k = None) walk_directives"

lemma plain_keys:
  assumes "plain_schema s"
  shows "json_get s ''$ref'' = None" "json_get s ''nullable'' = None" "json_get s ''examples'' = None"
    "json_get s ''example'' = None" "json_get s ''default'' = None" "json_get s ''if'' = None"
    "json_get s ''allOf'' = None" "json_get s ''anyOf'' = None" "json_get s ''oneOf'' = None"
    "json_get s ''not'' = None" "json_get s ''const'' = None" "json_get s ''enum'' = None"
    "json_get s ''chance'' = None" "json_get s ''faker'' = None" "json_get s ''x-faker'' = None"
    "json_get s ''autoIncrement'' = None" "as_bool s = None"
  using assms by (simp_all add: plain_schema_def walk_directives_def as_object_def as_bool_def split: json.splits)

lemma or_continue_None [simp]: "or_continue (ret None) k = k"
  by (simp add: or_continue_def)

lemma no_hints:
  assumes "plain_schema s"
  shows "faker_hint w opts s ''faker'' = ret None" "faker_hint w opts s ''x-faker'' = ret None"
    "pick_from_x_faker_object_form s = ret None" "chance_hint w s = ret None" "auto_increment env s = ret None"
  using plain_keys [OF assms]
  by (simp_all add: faker_hint_def pick_from_x_faker_object_form_def chance_hint_def auto_increment_def str_at_def
      obj_at_def has_def bool_at_def)

lemma plain_hints: "plain_schema s \<Longrightarrow> walk_hints w opts s depth = walk_typed w opts s depth"
  using plain_keys [of s] by (simp add: walk_hints_def no_hints has_def)

lemma plain_typed: "plain_schema s \<Longrightarrow> walk_keywords w opts s depth = walk_typed w opts s depth"
  using plain_keys [of s]
  by (simp add: walk_keywords_def walk_constants_def plain_hints has_def arr_at_def Let_def)

lemma plain_inner:
  assumes "plain_schema s" and "depth < go_max_depth opts" and "go_prop_aliases opts = []"
  shows "walk_inner w opts s depth = walk_typed w opts s depth"
proof -
  have "apply_schema_prop_aliases s (go_prop_aliases opts) = None"
    using assms(3) by (simp add: apply_schema_prop_aliases_def split: option.split)
  moreover have "chooses_null opts s depth = ret False"
    using plain_keys [OF assms(1)] by (simp add: chooses_null_def bool_at_def)
  ultimately show ?thesis
    using assms plain_keys [OF assms(1)] plain_typed [OF assms(1)] by (simp add: walk_inner_def walk_node_def str_at_def)
qed

text \<open>The options of a node keep what concerns the walk itself.\<close>

definition own_options :: "generate_options \<Rightarrow> json \<Rightarrow> generate_options" where
  "own_options opts s = unwrap_or (node_level_options s opts) opts"

lemma own_options_keep [simp]:
  "go_max_depth (own_options opts s) = go_max_depth opts"
  "go_prop_aliases (own_options opts s) = go_prop_aliases opts"
  "go_ignore_properties (own_options opts s) = go_ignore_properties opts"
  by (simp_all add: own_options_def node_level_options_def Let_def split: option.split)
     (cases "obj_at s ''x-json-schema-faker''"; simp)+

lemma plain_step:
  "plain_schema s \<Longrightarrow> depth < go_max_depth opts \<Longrightarrow> go_prop_aliases opts = [] \<Longrightarrow>
   walk_step w opts s depth = walk_typed w (own_options opts s) s depth"
  using plain_inner [of s depth "own_options opts s" w] by (simp add: walk_step_def own_options_def [symmetric])

lemma plain_known:
  "plain_schema s \<Longrightarrow> infer_type s = t \<Longrightarrow> t \<in> set json_types \<Longrightarrow>
   walk_typed w opts s depth = gbind (dispatch_type w opts s depth t) (finish_value w opts s)"
  using plain_keys [of s] by (auto simp: walk_typed_def walk_known_type_def json_types_def Let_def)


section \<open>The type of a value\<close>

definition has_type :: "string \<Rightarrow> json \<Rightarrow> bool" where
  "has_type t v \<longleftrightarrow> value_has_type v (JStr t)"

lemma has_type_simps [simp]:
  "has_type ''string'' (JStr x)" "has_type ''boolean'' (JBool b)" "has_type ''null'' JNull"
  "has_type ''array'' (JArr xs)" "has_type ''object'' (JObj m)" "has_type ''integer'' (json_int n)"
  "has_type ''number'' (JNum q)"
  by (cases q; simp add: has_type_def value_has_type_def actual_type_def json_int_def)+

lemma has_type_json_number [simp]: "has_type ''number'' (json_number f)"
  by (simp add: json_number_def json_int_def split: option.split)

lemma yields_map: "(\<And>x. V (f x)) \<Longrightarrow> yields (gmap f m) V"
  by (rule gval_map) (simp add: gval_def hoare_def)

lemma yields_bind: "(\<And>x. yields (f x) V) \<Longrightarrow> yields (gbind m f) V"
  by (rule gval_bind [OF yields_any])

lemma yields_then: "yields k V \<Longrightarrow> yields (gthen m k) V"
  by (rule gval_then [OF yields_any])

lemma yields_numeric_format:
  "yields (generate_for_numeric_format fmt s as_float)
     (\<lambda>r. case r of Some v \<Rightarrow> has_type (if as_float then ''number'' else ''integer'') v | None \<Rightarrow> True)"
proof -
  obtain a b c d where "extract_bounds s = (a, b, c, d)" by (cases "extract_bounds s") auto
  then show ?thesis
    unfolding generate_for_numeric_format_def Let_def
    by (simp only: prod.case) (intro gval_if yields_map yields_then gval_ret; simp add: emit_int_def)
qed

lemma yields_or_numeric:
  "yields otherwise (has_type (if as_float then ''number'' else ''integer'')) \<Longrightarrow>
   yields (or_numeric_format s as_float otherwise) (has_type (if as_float then ''number'' else ''integer''))"
  unfolding or_numeric_format_def
  by (auto split: option.split intro!: gval_bind [OF yields_numeric_format] gval_ret)

lemmas numeric_intros = yields_or_numeric [of _ True, unfolded if_True] yields_or_numeric [of _ False, unfolded if_False]

lemma yields_number: "yields (generate_number s) (has_type ''number'')"
  unfolding generate_number_def
  by (auto simp: Let_def split: prod.split intro!: numeric_intros yields_map gval_ret)

lemma yields_integer: "yields (generate_integer s) (has_type ''integer'')"
proof -
  have "yields (generate_integer_with_multiple_of mn mx mo) (has_type ''integer'')" for mn mx mo
    by (auto simp: generate_integer_with_multiple_of_def Let_def intro!: yields_map yields_bind gval_ret)
  then show ?thesis unfolding generate_integer_def
    by (auto simp: Let_def split: prod.split option.split intro!: numeric_intros yields_map)
qed

lemma yields_string: "yields (generate_string env s opts) (has_type ''string'')"
  unfolding generate_string_def Let_def by (intro yields_map has_type_simps)

lemma yields_array: "yields (generate_array w opts s depth) (has_type ''array'')"
  unfolding generate_array_def Let_def by (intro yields_then yields_bind gval_ret has_type_simps)

lemma yields_object: "yields (generate_object w opts s depth) (has_type ''object'')"
  unfolding generate_object_def finish_object_def Let_def by (intro yields_then yields_bind gval_ret has_type_simps)

lemma yields_dispatch: "t \<in> set json_types \<Longrightarrow> yields (dispatch_type w opts s depth t) (has_type t)"
  unfolding json_types_def list.set insert_iff empty_iff
  by (elim disjE) (simp_all add: dispatch_type_def yields_string yields_number yields_integer yields_array yields_object
      yields_map gval_ret)

lemma yields_finish: "has_type t v \<Longrightarrow> yields (finish_value w opts s v) (has_type t)"
proof (cases "\<exists>m. v = JObj m")
  case True
  then show "has_type t v \<Longrightarrow> ?thesis"
    by (auto simp: finish_value_def lift_run_def apply_unevaluated_constraints_def gval_def hoare_def run_map_Done_iff
        truncate_items_def has_type_def value_has_type_def actual_type_def split: if_splits)
next
  case False
  then show "has_type t v \<Longrightarrow> ?thesis"
    by (cases v) (auto simp: finish_value_def lift_run_def apply_unevaluated_constraints_def gval_def hoare_def
        run_map_Done_iff truncate_items_def has_type_def value_has_type_def actual_type_def split: if_splits)
qed

lemma has_type_strip: "has_type t (strip_skip_sentinels v) = has_type t v"
  by (cases v) (simp_all add: has_type_def value_has_type_def actual_type_def)


section \<open>From the node to the document\<close>

lemma yields_walk_schema:
  assumes "arr_at s ''type'' = None" and "yields (wk_walk w opts s depth) V"
  shows "yields (walk_schema w opts s depth) V"
  unfolding walk_schema_def assms(1)
  by (rule yields_then, rule gval_bind [of _ _ V])
     (simp_all add: assms(2) yields_bind yields_then gval_ret)

lemma plain_walk:
  assumes s: "plain_schema s" and t: "infer_type s = t" "t \<in> set json_types"
    and opts: "0 < go_max_depth opts" "go_prop_aliases opts = []"
    and V: "\<And>w. yields (gbind (dispatch_type w (own_options opts s) s 0 t) (finish_value w (own_options opts s) s)) V"
  shows "yields (walk_schema (walker_of n env s ext) opts s 0) V"
proof -
  have no_list: "arr_at s ''type'' = None"
  proof (rule ccontr)
    assume "arr_at s ''type'' \<noteq> None"
    then obtain xs where "json_get s ''type'' = Some (JArr xs)" by (auto simp: arr_at_eq)
    then show False using t by (auto simp: infer_type_def json_types_def)
  qed
  have "yields (wk_walk (walker_of n env s ext) opts s 0) V"
  proof (cases n)
    case 0
    then show ?thesis by (simp add: walker_of_def gval_fuel)
  next
    case (Suc m)
    then show ?thesis using V plain_step [OF s opts] plain_known [OF s t] by (simp add: walker_of_def)
  qed
  then show ?thesis by (rule yields_walk_schema [OF no_list])
qed

lemma generate_Done:
  "generate n env own clock s opts = Done (Inr v) \<Longrightarrow>
   \<exists>g v0 g' ext. walk_schema (walker_of n env s ext) opts s 0 g = Done (v0, g')
     \<and> v = apply_output_transform (strip_skip_sentinels v0) s opts"
  by (auto simp: generate_def Let_def run_map_Done_iff split: option.splits prod.splits)

lemma plain_generate:
  assumes "plain_schema s" and "infer_type s = t" "t \<in> set json_types"
    and "0 < go_max_depth opts" "go_prop_aliases opts = []" and "go_output_transform opts = None"
    and "\<And>w. yields (gbind (dispatch_type w (own_options opts s) s 0 t) (finish_value w (own_options opts s) s)) V"
    and "generate n env own clock s opts = Done (Inr v)"
  shows "\<exists>v0. v = strip_skip_sentinels v0 \<and> V v0"
  using generate_Done [OF assms(8)] yieldsD [OF plain_walk [OF assms(1-5,7)]] assms(6)
  by (auto simp: apply_output_transform_def)

text \<open>
  C9: A value that \<open>generate\<close> returns for a schema with a single \<open>type\<close> and no directive of another kind has that
  type, whatever the other keywords, the options of the node, the registries and the stream.
\<close>

theorem generated_value_has_type:
  assumes "plain_schema s" and "json_get s ''type'' = Some (JStr t)" and "t \<in> set json_types"
    and "0 < go_max_depth opts" "go_prop_aliases opts = []" "go_output_transform opts = None"
    and "generate n env own clock s opts = Done (Inr v)"
  shows "value_has_type v (JStr t)"
proof -
  have "infer_type s = t" using assms(2,3) by (simp add: infer_type_def type_str_to_static_def)
  from plain_generate [OF assms(1) this assms(3-6) _ assms(7), of "has_type t"] show ?thesis
    using gval_bind [OF yields_dispatch [OF assms(3)] yields_finish] has_type_strip by (auto simp: has_type_def)
qed

text \<open>The keys that are required, at the end of \<open>generate\<close>.\<close>

lemma contains_key_strip: "map_of (strip_entries m) k = map_option strip_skip_sentinels (map_of m k)"
  by (induction m) auto

lemma strip_keeps_key:
  assumes "contains_key m k" and "k \<noteq> CHASM_SKIP_KEY"
  shows "\<exists>m'. strip_skip_sentinels (JObj m) = JObj m' \<and> contains_key m' k"
proof -
  have "\<not> is_skip_sentinel (JObj m)"
    using assms by (cases m) (auto simp: is_skip_sentinel_def contains_key_iff)
  then show ?thesis using assms(1) by (simp add: contains_key_def contains_key_strip)
qed

lemma yields_finish_key:
  assumes "\<not> is_false_at s ''unevaluatedProperties''" and "\<exists>m. v = JObj m \<and> contains_key m k"
  shows "yields (finish_value w opts s v) (\<lambda>v. \<exists>m. v = JObj m \<and> contains_key m k)"
  using assms by (auto simp: finish_value_def lift_run_def apply_unevaluated_constraints_def gval_def hoare_def
      truncate_items_def)

text \<open>
  C8: An object that \<open>generate\<close> returns for a schema of type \<open>object\<close> has every required key that the options do not
  ignore, unless the schema drops unevaluated properties.
\<close>

theorem generated_object_has_required_keys:
  assumes s: "plain_schema s" "json_get s ''type'' = Some (JStr ''object'')" "\<not> is_false_at s ''unevaluatedProperties''"
    and opts: "0 < go_max_depth opts" "go_prop_aliases opts = []" "go_output_transform opts = None"
    and k: "k \<in> set (names_at s ''required'')" "k \<notin> set (go_ignore_properties opts)" "k \<noteq> CHASM_SKIP_KEY"
    and run: "generate n env own clock s opts = Done (Inr v)"
  shows "\<exists>m. v = JObj m \<and> contains_key m k"
proof -
  have t: "infer_type s = ''object''" "''object'' \<in> set json_types"
    using s(2) by (simp_all add: infer_type_def type_str_to_static_def json_types_def)
  have "yields (generate_object w (own_options opts s) s 0) (\<lambda>v. \<exists>m. v = JObj m \<and> contains_key m k)" for w
    using required_keys_generated [OF k(1), of "own_options opts s"] k(2) opts(2)
    unfolding gval_def hoare_def by auto
  then have "yields (gbind (dispatch_type w (own_options opts s) s 0 ''object'') (finish_value w (own_options opts s) s))
               (\<lambda>v. \<exists>m. v = JObj m \<and> contains_key m k)" for w
    unfolding dispatch_type_def by simp (rule gval_bind [OF _ yields_finish_key [OF s(3)]])
  from plain_generate [OF s(1) t opts this run] show ?thesis using strip_keeps_key [OF _ k(3)] by auto
qed


section \<open>The marker never leaves\<close>

text \<open>No value below the given one is the marker of a cut branch.\<close>

fun no_marker :: "json \<Rightarrow> bool" where
  "no_marker (JObj m) \<longleftrightarrow> \<not> is_skip_sentinel (JObj m) \<and> (\<forall>e \<in> set m. no_marker (snd e))"
| "no_marker (JArr xs) \<longleftrightarrow> (\<forall>x \<in> set xs. no_marker x)"
| "no_marker v \<longleftrightarrow> True"

lemma length_strip: "length (strip_entries m) = length m"
  by (induction m) auto

lemma marker_strip: "is_skip_sentinel (JObj (strip_entries m)) = is_skip_sentinel (JObj m)"
  by (simp add: is_skip_sentinel_def length_strip contains_key_def contains_key_strip)

lemma no_marker_strip:
  "no_marker (strip_skip_sentinels v)"
  "\<forall>e \<in> set (strip_entries m). no_marker (snd e)"
  "\<forall>x \<in> set (strip_items xs). no_marker x"
proof (induction v and m and xs rule: strip_skip_sentinels_strip_entries_strip_items.induct)
  case (1 m)
  then show ?case by (cases "is_skip_sentinel (JObj m)") (simp_all add: marker_strip, simp add: is_skip_sentinel_def)
qed auto

text \<open>
  C34: The marker of a branch that the depth limit cut is nowhere in a generated value, however the schema recurs.
\<close>

theorem generated_value_without_marker:
  assumes "go_output_transform opts = None" and "generate n env own clock s opts = Done (Inr v)"
  shows "no_marker v"
  using assms no_marker_strip(1)
  by (auto simp: generate_def Let_def run_map_Done_iff apply_output_transform_def split: option.splits prod.splits)

section \<open>Errors that \<open>anyOf\<close> drops\<close>

definition const_schema :: "json \<Rightarrow> json" where
  "const_schema v = JObj [(''const'', v)]"

lemma const_schema_keys: "json_get (const_schema v) k = (if k = ''const'' then Some v else None)"
  "as_object (const_schema v) = Some [(''const'', v)]" "as_bool (const_schema v) = None"
  by (simp_all add: const_schema_def json_get_def as_object_def as_bool_def)

lemma walk_const_schema:
  assumes "depth < go_max_depth opts" and "go_prop_aliases opts = []"
  shows "walk_step w opts (const_schema v) depth = ret v"
proof -
  have "node_level_options (const_schema v) opts = None" by (simp add: node_level_options_def obj_at_def const_schema_keys)
  moreover have "apply_schema_prop_aliases (const_schema v) (go_prop_aliases opts) = None"
    using assms(2) by (simp add: apply_schema_prop_aliases_def split: option.split)
  moreover have "chooses_null opts (const_schema v) depth = ret False"
    by (simp add: chooses_null_def bool_at_def const_schema_keys)
  moreover have "walk_constants w opts (const_schema v) depth = ret v"
    by (simp add: walk_constants_def has_def const_schema_keys generate_const_def)
  ultimately show ?thesis using assms(1)
    by (simp add: walk_step_def walk_inner_def walk_node_def walk_keywords_def has_def arr_at_def str_at_def const_schema_keys)
qed

lemma pick_of_two:
  assumes "source_ok (rg_source g)"
  shows "\<exists>i g'. pick_index 2 g = Done (i, g') \<and> (i = 0 \<or> i = 1) \<and> rg_source g' = rg_source g \<and> rg_error g' = rg_error g"
proof -
  have "src_index (rg_source g) (rg_history g) 2 < 2" using assms by (simp add: source_ok_def)
  then have "src_index (rg_source g) (rg_history g) 2 = 0 \<or> src_index (rg_source g) (rg_history g) 2 = 1" by linarith
  then show ?thesis by (simp add: pick_index_def draw_with_def)
qed

lemma order_of_two:
  assumes "source_ok (rg_source g)" and "Suc depth < go_max_depth opts"
  shows "\<exists>order g'. shuffled_branch_order [const_schema a, const_schema b] opts depth g = Done (order, g')
           \<and> order \<in> {[0, 1], [1, 0]} \<and> rg_error g' = rg_error g"
proof -
  have "pick_branch_with_depth [const_schema a, const_schema b] opts depth = pick_index 2"
    using assms(2) by (simp add: pick_branch_with_depth_def position_def is_terminal_friendly_def is_local_ref_def
        has_def str_at_def const_schema_keys numeral_2_eq_2)
  moreover obtain i g1 where 1: "pick_index 2 g = Done (i, g1)" "i = 0 \<or> i = 1"
      "rg_source g1 = rg_source g" "rg_error g1 = rg_error g"
    using pick_of_two [OF assms(1)] by blast
  moreover obtain j g2 where "pick_index 2 g1 = Done (j, g2)" "j = 0 \<or> j = 1" "rg_error g2 = rg_error g1"
    using pick_of_two [of g1] assms(1) 1(3) by auto
  moreover have "rev [1..<2] = [1 :: nat]" "[0..<2] = [0, 1 :: nat]" by (simp_all add: upt_rec numeral_2_eq_2)
  ultimately show ?thesis
    by (auto simp: shuffled_branch_order_def shuffle_indices_def gbind_def swap_at_def position_def ret_def numeral_2_eq_2)
qed

text \<open>
  C35: The generator of \<open>anyOf\<close> takes an error that an earlier part of the document left for a failure of its own first
  branch: it drops the error and goes on, so that the document is returned as if nothing had failed.
\<close>

theorem any_of_drops_earlier_error:
  assumes "rg_error g = Some e" and "source_ok (rg_source g)"
    and "arr_at s ''anyOf'' = Some [const_schema a, const_schema b]"
    and "Suc depth < go_max_depth opts" "go_prop_aliases opts = []"
  shows "\<exists>v g'. generate_any_of (walker_of (Suc n) env doc ext) opts s depth g = Done (v, g') \<and> rg_error g' = None"
proof -
  let ?w = "walker_of (Suc n) env doc ext"
  obtain order g1 where o: "shuffled_branch_order [const_schema a, const_schema b] opts depth g = Done (order, g1)"
      "order \<in> {[0, 1], [1, 0]}" "rg_error g1 = Some e"
    using order_of_two [OF assms(2,4)] assms(1) by metis
  have walk: "wk_walk ?w opts (const_schema c) (Suc depth) = ret c" for c
    using walk_const_schema [OF assms(4,5)] by (simp add: walker_of_def)
  have "\<exists>v g'. try_branches ?w opts s [const_schema a, const_schema b] depth order None g1 = Done (v, g') \<and> rg_error g' = None"
    using o(2,3) walk
    by (auto simp: item_at_def gbind_def has_error_def gets_def take_error_def ret_def)
  then show ?thesis using o(1) assms(3)
    by (auto simp: generate_any_of_def MAX_COMPOSITION_BRANCHES_def gbind_def Let_def)
qed

section \<open>Walks that never end\<close>

definition empty_types :: "json \<Rightarrow> bool" where
  "empty_types s \<longleftrightarrow> plain_schema s \<and> json_get s ''type'' = Some (JArr [])"

lemma empty_types_walk:
  assumes s: "empty_types s" and "depth < go_max_depth opts" "go_prop_aliases opts = []"
  shows "walk n env doc ext opts s depth g = Fuel"
  using assms(2,3)
proof (induction n arbitrary: opts)
  case (Suc n)
  have t: "infer_type s = ''multi''" "arr_at s ''type'' = Some []"
    using s by (simp_all add: empty_types_def infer_type_def arr_at_def as_array_def)
  have "plain_schema s" using s by (simp add: empty_types_def)
  from plain_step [OF this Suc.prems] Suc.IH [of "own_options opts s"] Suc.prems t show ?case
    by (simp add: walk_typed_def walk_with_multi_type_def)
qed (simp add: gfuel_def)

text \<open>
  C36: An empty list of types sends the walk from \<open>walk_with_multi_type\<close> to itself at the same depth: no depth limit
  ends it, and no number of calls is enough.
\<close>

theorem empty_type_list_never_returns:
  assumes "empty_types s" and "0 < go_max_depth opts" "go_prop_aliases opts = []" and "generation_refused s opts = None"
  shows "generate n env own clock s opts = Fuel"
proof -
  have t: "arr_at s ''type'' = Some []" using assms(1) by (simp add: empty_types_def arr_at_def as_array_def)
  show ?thesis using assms(4) empty_types_walk [OF assms(1-3)]
    by (simp add: generate_def walk_schema_def t walk_with_multi_type_def walker_of_def gthen_def gbind_def gwhen_def
        modify_def Let_def)
qed


text \<open>Extra names that are all the same: the loop over names goes on without a bound.\<close>

lemma fill_extra_stuck:
  assumes "os_names os = Some names" and "json_get names ''const'' = Some (JStr k)"
    and "contains_key m k" and "length m < limit"
  shows "fill_extra n w opts os s depth limit idx skips m g = Fuel"
proof (induction n arbitrary: idx)
  case (Suc n)
  have "generate_constrained_key (wk_env w) (os_names os) idx ''extra'' = ret (Some k)"
    using assms(1,2) by (simp add: generate_constrained_key_def has_def str_at_def as_str_def)
  then show ?case using assms Suc by simp
qed (simp add: gfuel_def)

lemma length_put_property: "\<not> contains_key m k \<Longrightarrow> length (put_property opts k v m) = Suc (length m)"
  unfolding put_property_def by (induction m) (auto simp: contains_key_def split: if_splits)

lemma fill_extra_never:
  assumes "os_names os = Some names" and "json_get names ''const'' = Some (JStr k)" and "Suc (length m) < limit"
  shows "yields (fill_extra n w opts os s depth limit idx skips m) (\<lambda>_. False)"
proof (cases n)
  case (Suc j)
  have key: "generate_constrained_key (wk_env w) (os_names os) idx ''extra'' = ret (Some k)"
    using assms(1,2) by (simp add: generate_constrained_key_def has_def str_at_def as_str_def)
  have stuck: "yields (fill_extra j w opts os s depth limit (idx + 1) skips m') (\<lambda>_. False)"
    if "contains_key m' k" "length m' < limit" for m'
    using fill_extra_stuck [OF assms(1,2) that] by (simp add: gval_def hoare_def)
  then show ?thesis using assms(3) Suc key
    by (auto simp: length_put_property intro!: yields_bind)
qed (simp add: gval_fuel)

definition one_name :: "json \<Rightarrow> bool" where
  "one_name s \<longleftrightarrow> plain_schema s \<and> json_get s ''type'' = Some (JStr ''object'')
     \<and> list_all (\<lambda>k. json_get s k = None) [''properties'', ''required'', ''patternProperties'', ''maxProperties'']
     \<and> (case u64_at s ''minProperties'' of Some n \<Rightarrow> 2 \<le> n | None \<Rightarrow> False)
     \<and> (case json_get s ''additionalProperties'' of Some v \<Rightarrow> as_bool v = None | None \<Rightarrow> False)
     \<and> (case json_get s ''propertyNames'' of Some names \<Rightarrow> str_at names ''const'' \<noteq> None | None \<Rightarrow> False)"

text \<open>
  C37: At least two properties, additional ones by a schema, and one name for all of them: \<open>generate\<close> looks for a
  second name forever, whatever the stream and the number of steps.
\<close>

theorem single_property_name_never_returns:
  assumes "one_name s" and "0 < go_max_depth opts" "go_prop_aliases opts = []" and "generation_refused s opts = None"
  shows "generate n env own clock s opts \<noteq> Done r"
proof
  assume run: "generate n env own clock s opts = Done r"
  let ?os = "object_shape_of s"
  have s: "plain_schema s" "json_get s ''type'' = Some (JStr ''object'')" using assms(1) by (simp_all add: one_name_def)
  have t: "infer_type s = ''object''" "''object'' \<in> set json_types"
    using s(2) by (simp_all add: infer_type_def type_str_to_static_def json_types_def)
  have none: "os_properties ?os = []" "os_required ?os = []" "os_patterns ?os = []" "os_max ?os = None"
    using assms(1) by (simp_all add: one_name_def object_shape_of_def obj_at_def names_at_def arr_at_def u64_at_def)
  have least: "2 \<le> os_min ?os"
    using assms(1) by (auto simp: one_name_def object_shape_of_def MAX_GENERATED_PROPERTIES_def split: option.splits)
  obtain extra where extra: "additional_schema ?os = Some extra"
    using assms(1) by (auto simp: one_name_def object_shape_of_def additional_schema_def split: option.splits)
  obtain names k where names: "os_names ?os = Some names" "json_get names ''const'' = Some (JStr k)"
    using assms(1) by (auto simp: one_name_def object_shape_of_def str_at_eq split: option.splits)
  have never: "yields (drawn_properties w o' ?os 0) (\<lambda>_. False)" for w o'
  proof -
    have "yields (add_extra w o' ?os 0 []) (\<lambda>_. False)"
      using least fill_extra_never [OF names, of "[]"] by (simp add: add_extra_def extra none Let_def)
    then show ?thesis unfolding drawn_properties_def none by (auto intro!: gval_bind [of _ _ "\<lambda>_. False"])
  qed
  have "yields (gbind (dispatch_type w o' s 0 ''object'') (finish_value w o' s)) (\<lambda>_. False)" for w o'
    unfolding dispatch_type_def generate_object_def Let_def
    by simp (rule gval_bind [of _ _ "\<lambda>_. False"], rule yields_then, rule gval_bind [OF never], simp_all)
  from plain_walk [OF s(1) t assms(2,3) this] run assms(4) show False
    by (auto simp: generate_def Let_def run_map_Done_iff gval_def hoare_def)
qed


section \<open>Where the result is not what the schema asks for\<close>

text \<open>
  \<open>exclusiveMinimum\<close> as a number takes the place of \<open>minimum\<close>, whichever of the two is larger: the bounds no longer
  depend on \<open>minimum\<close>.
\<close>

lemma minimum_ignored:
  assumes "json_get s ''exclusiveMinimum'' = Some (JNum x)" and "json_get s' ''exclusiveMinimum'' = Some (JNum x)"
    and "\<And>k. k \<noteq> ''minimum'' \<Longrightarrow> json_get s k = json_get s' k"
  shows "extract_bounds s = extract_bounds s'"
  using assms by (simp add: extract_bounds_def exclusive_bound_def as_bool_def as_f64_def f64_at_def split: jnum.split)

definition fractional_bounds :: json where
  "fractional_bounds =
     JObj [(''exclusiveMaximum'', JNum (JFloat (Fin (3 / 2)))), (''exclusiveMinimum'', JNum (JFloat (Fin (1 / 2))))]"


text \<open>
  C38: A format that is not built in is a plain text: no generator registered for its name is ever asked.
\<close>

theorem registered_format_never_consulted:
  assumes "str_at s ''format'' = Some fmt" and "\<not> is_known_format fmt"
  shows "generate_string (env\<lparr>fe_formats := registries\<rparr>) s opts = generate_string env s opts"
proof -
  let ?env = "env\<lparr>fe_formats := registries\<rparr>"
  have same: "fe_regex ?env = fe_regex env" "fe_rand_regex ?env = fe_rand_regex env" by simp_all
  have "generate_from_pattern ?env pattern mn mx = generate_from_pattern env pattern mn mx" for pattern mn mx
    by (simp only: generate_from_pattern_def try_rand_regex_def same)
  then have "string_of_pattern ?env s pattern mn mx = string_of_pattern env s pattern mn mx" for pattern mn mx
    by (simp only: string_of_pattern_def same)
  then show ?thesis using assms by (cases "str_at s ''pattern''") (simp_all add: generate_string_def Let_def)
qed


section \<open>Examples\<close>

definition one_key :: json where
  "one_key =
     JObj [(''properties'', JObj [(''a'', JBool True)]), (''required'', JArr [JStr ''a'']), (''type'', JStr ''object'')]"

lemma one_key_generated:
  "generate 3 lowest_env None 0 one_key generate_options_default = Done (Inr (JObj [(''a'', JNull)]))"
  by code_simp

lemma one_key_facts:
  "plain_schema one_key" "json_get one_key ''type'' = Some (JStr ''object'')" "''object'' \<in> set json_types"
  "\<not> is_false_at one_key ''unevaluatedProperties''" "''a'' \<in> set (names_at one_key ''required'')"
  "0 < go_max_depth generate_options_default" "go_prop_aliases generate_options_default = []"
  "go_output_transform generate_options_default = None" "''a'' \<notin> set (go_ignore_properties generate_options_default)"
  "''a'' \<noteq> CHASM_SKIP_KEY"
  by code_simp+

lemma generated_value_has_type_witness:
  "\<exists>v. generate 3 lowest_env None 0 one_key generate_options_default = Done (Inr v) \<and> value_has_type v (JStr ''object'')"
  using generated_value_has_type [OF one_key_facts(1-3,6-8) one_key_generated] one_key_generated by blast

lemma generated_object_has_required_keys_witness:
  "\<exists>v m. generate 3 lowest_env None 0 one_key generate_options_default = Done (Inr v) \<and> v = JObj m \<and> contains_key m ''a''"
  using generated_object_has_required_keys [OF one_key_facts(1,2,4,6-8,5,9,10) one_key_generated] one_key_generated by blast

lemma generated_value_without_marker_witness:
  "\<exists>v. generate 3 lowest_env None 0 one_key generate_options_default = Done (Inr v) \<and> no_marker v"
  using generated_value_without_marker [OF one_key_facts(8) one_key_generated] one_key_generated by blast

definition two_constants :: json where
  "two_constants = JObj [(''anyOf'', JArr [const_schema JNull, const_schema (JBool True)])]"

lemma any_of_drops_earlier_error_witness:
  "\<exists>g v g'. rg_error g = Some AmbiguousGenerator
     \<and> generate_any_of (walker_of 1 lowest_env JNull None) generate_options_default two_constants 0 g = Done (v, g')
     \<and> rg_error g' = None"
proof -
  let ?g = "(rng_new lowest_source)\<lparr>rg_error := Some AmbiguousGenerator\<rparr>"
  have "rg_error ?g = Some AmbiguousGenerator" "source_ok (rg_source ?g)"
    by (simp_all add: rng_new_def source_ok_lowest)
  moreover have "arr_at two_constants ''anyOf'' = Some [const_schema JNull, const_schema (JBool True)]"
    by (simp add: two_constants_def key_defs)
  moreover have "Suc 0 < go_max_depth generate_options_default" "go_prop_aliases generate_options_default = []"
    by (simp_all add: generate_options_default_def)
  ultimately show ?thesis using any_of_drops_earlier_error [of ?g] unfolding One_nat_def by blast
qed

lemma empty_type_list_never_returns_witness:
  "\<forall>n. generate n lowest_env None 0 (JObj [(''type'', JArr [])]) generate_options_default = Fuel"
proof -
  have "empty_types (JObj [(''type'', JArr [])])" by code_simp
  moreover have "generation_refused (JObj [(''type'', JArr [])]) generate_options_default = None" by code_simp
  ultimately show ?thesis using empty_type_list_never_returns one_key_facts(6,7) by blast
qed

definition same_name :: json where
  "same_name =
     JObj [(''additionalProperties'', JObj []), (''minProperties'', JNum (JInt 2)),
           (''propertyNames'', JObj [(''const'', JStr ''k'')]), (''type'', JStr ''object'')]"

lemma single_property_name_never_returns_witness:
  "\<forall>n r. generate n lowest_env None 0 same_name generate_options_default \<noteq> Done r"
proof -
  have "one_name same_name" by code_simp
  moreover have "generation_refused same_name generate_options_default = None" by code_simp
  ultimately show ?thesis using single_property_name_never_returns one_key_facts(6,7) by blast
qed

lemma registered_format_never_consulted_witness:
  "\<forall>registries opts. generate_string (lowest_env\<lparr>fe_formats := registries\<rparr>) (JObj [(''format'', JStr ''sku'')]) opts
     = generate_string lowest_env (JObj [(''format'', JStr ''sku'')]) opts"
proof -
  have "str_at (JObj [(''format'', JStr ''sku'')]) ''format'' = Some ''sku''" by code_simp
  moreover have "\<not> is_known_format ''sku''" by code_simp
  ultimately show ?thesis using registered_format_never_consulted by blast
qed

end
